(* ===== verification/Prelude.thy ===== *)
theory Prelude
  imports Main "HOL-Library.Word" "HOL-Library.Monad_Syntax"
begin

text \<open>
  Shared vocabulary of the development: the machine types of the 32-bit ARM target, the
  collections that the component theories fill with their rewriting rules, a generic
  account of running a list of operations over a state, and the small lemmas on lists and
  options that several components use.
\<close>

unbundle bit_operations_syntax

section \<open>Machine types\<close>

type_synonym byte = "8 word"
type_synonym u16 = "16 word"
type_synonym u32 = "32 word"

text \<open>
  \<open>port_step\<close> collects the equations that unfold one operation of the port on a state,
  \<open>log_simps\<close> the equations that say what an operation adds to the call log.
\<close>

named_theorems port_step
named_theorems log_simps

section \<open>Runs of operations\<close>

text \<open>
  Several components offer a set of operations that the rest of the program calls in any
  order.  A run is a list of operations; what every operation keeps, every run keeps.
\<close>

fun run_ops :: "('op \<Rightarrow> 's \<Rightarrow> 's) \<Rightarrow> 'op list \<Rightarrow> 's \<Rightarrow> 's" where
  "run_ops step [] s = s"
| "run_ops step (x # xs) s = run_ops step xs (step x s)"

lemma run_ops_append [simp]: "run_ops step (xs @ ys) s = run_ops step ys (run_ops step xs s)"
  by (induction xs arbitrary: s) auto

text \<open>A run of operations of one kind is a run of the step that skips the others.\<close>

lemma run_ops_within: "list_all P xs \<Longrightarrow> run_ops (\<lambda>x s. if P x then step x s else s) xs s = run_ops step xs s"
  by (induction xs arbitrary: s) auto

locale kept_by_steps =
  fixes step :: "'op \<Rightarrow> 's \<Rightarrow> 's"
    and ok :: "'s \<Rightarrow> bool"
  assumes step_ok: "ok s \<Longrightarrow> ok (step x s)"
begin

lemma run_ok: "ok s \<Longrightarrow> ok (run_ops step xs s)"
  by (induction xs arbitrary: s) (auto intro: step_ok)

end

section \<open>Lists\<close>

lemma takeWhile_all_then:
  assumes "\<forall>x \<in> set xs. P x" and "ys = [] \<or> \<not> P (hd ys)"
  shows "takeWhile P (xs @ ys) = xs" and "dropWhile P (xs @ ys) = ys"
  using assms by (cases ys; auto simp: takeWhile_append dropWhile_append)+

lemma length_tl_less: "length ys \<le> length xs \<Longrightarrow> ys \<noteq> [] \<Longrightarrow> length (tl ys) < length xs"
  by (cases ys) auto

section \<open>Words\<close>

lemma unat_of_nat_u32: "n < 2 ^ 32 \<Longrightarrow> unat (of_nat n :: u32) = n"
  by (simp add: unat_of_nat take_bit_nat_eq_self)

lemma unat_of_nat_u16: "n < 2 ^ 16 \<Longrightarrow> unat (of_nat n :: u16) = n"
  by (simp add: unat_of_nat take_bit_nat_eq_self)

lemma unat_u16_max: "unat (- 1 :: u16) = 65535"
  by (simp add: unsigned_minus_1_eq_mask mask_eq_exp_minus_1)

lemma unat_u16_half: "unat (mask 15 :: u16) = 32767"
  by (simp add: mask_eq_exp_minus_1)

lemma unat_byte_less: "unat (b :: byte) < 256"
  using unsigned_less [of b] by simp

end
