(* ===== verification/C_Library.thy ===== *)
theory C_Library
  imports Prelude
begin

text \<open>
  The part of the C standard library that the port uses: character classes, strtoul with
  base 0 for a 32-bit unsigned long, decimal conversion as printf does it for non-negative
  numbers, the byte-order functions of a little-endian target and the bytes of a 32-bit
  object in memory.  A C string is a list of characters; reading past its last character
  gives the terminating NUL, and a pointer into it is the list of what is still to read.
\<close>

section \<open>Characters and strings\<close>

definition nul :: char where
  "nul = CHR 0x00"

definition deref :: "string \<Rightarrow> char" where
  "deref c = (case c of [] \<Rightarrow> nul | x # _ \<Rightarrow> x)"

definition isspace :: "char \<Rightarrow> bool" where
  "isspace c \<longleftrightarrow> c \<in> {CHR '' '', CHR 0x09, CHR 0x0A, CHR 0x0B, CHR 0x0C, CHR 0x0D}"

lemma deref_simps [simp]: "deref [] = nul" "deref (x # xs) = x"
  by (simp_all add: deref_def)

section \<open>strtoul with base 0\<close>

definition ULONG_MAX :: u32 where
  "ULONG_MAX = 0xFFFFFFFF"

text \<open>The value of a character as a digit: 0-9, then a-z and A-Z from ten on.\<close>

definition digit_value :: "char \<Rightarrow> nat option" where
  "digit_value c = (let n = of_char c :: nat in
     if 48 \<le> n \<and> n \<le> 57 then Some (n - 48)
     else if 97 \<le> n \<and> n \<le> 122 then Some (n - 87)
     else if 65 \<le> n \<and> n \<le> 90 then Some (n - 55)
     else None)"

definition is_digit :: "nat \<Rightarrow> char \<Rightarrow> bool" where
  "is_digit base c = (case digit_value c of None \<Rightarrow> False | Some d \<Rightarrow> d < base)"

fun digits_value :: "nat \<Rightarrow> nat \<Rightarrow> string \<Rightarrow> nat" where
  "digits_value base acc [] = acc"
| "digits_value base acc (c # cs) =
     digits_value base (acc * base + (case digit_value c of None \<Rightarrow> 0 | Some d \<Rightarrow> d)) cs"

text \<open>The sign, then the prefix that selects the base.\<close>

definition strip_sign :: "string \<Rightarrow> bool \<times> string" where
  "strip_sign s = (case s of
     c # cs \<Rightarrow> if c = CHR ''-'' then (True, cs) else if c = CHR ''+'' then (False, cs) else (False, s)
   | [] \<Rightarrow> (False, []))"

definition select_base :: "string \<Rightarrow> nat \<times> string" where
  "select_base s =
     (if deref s = CHR ''0'' then
        (if deref (tl s) \<in> {CHR ''x'', CHR ''X''} \<and> is_digit 16 (deref (tl (tl s)))
         then (16, tl (tl s)) else (8, s))
      else (10, s))"

text \<open>
  \<open>strtoul0 s\<close> is the pair of the value and \<open>*endptr\<close>: the conversion skips white space,
  takes an optional sign and the longest run of digits of the selected base, answers
  ULONG_MAX when the number does not fit, and negates modulo \<open>2 ^ 32\<close> after a minus sign.
  Without a digit the value is 0 and \<open>*endptr\<close> is the start of the string.
\<close>

definition strtoul0 :: "string \<Rightarrow> u32 \<times> string" where
  "strtoul0 s =
     (let (neg, s1) = strip_sign (dropWhile isspace s);
          (base, s2) = select_base s1;
          ds = takeWhile (is_digit base) s2;
          v = digits_value base 0 ds
      in if ds = [] then (0, s)
         else (if v > unat ULONG_MAX then ULONG_MAX
               else if neg then - of_nat v else of_nat v,
               dropWhile (is_digit base) s2))"

lemma strtoul0_end_length: "length (snd (strtoul0 s)) \<le> length s"
proof -
  have a: "length (dropWhile isspace s) \<le> length s" by (rule length_dropWhile_le)
  have b: "length (snd (strip_sign t)) \<le> length t" for t
    by (auto simp: strip_sign_def split: list.splits)
  have c: "length (snd (select_base t)) \<le> length t" for t
    by (auto simp: select_base_def)
  have d: "length (dropWhile P t) \<le> length t" for P and t :: string
    by (rule length_dropWhile_le)
  show ?thesis
    unfolding strtoul0_def
    using a b [of "dropWhile isspace s"] c [of "snd (strip_sign (dropWhile isspace s))"]
      d [of "is_digit (fst (select_base (snd (strip_sign (dropWhile isspace s)))))"
             "snd (select_base (snd (strip_sign (dropWhile isspace s))))"]
    by (auto simp: Let_def split: prod.splits)
qed

section \<open>Decimal output\<close>

definition digit_char :: "nat \<Rightarrow> char" where
  "digit_char d = char_of (48 + d)"

fun dec :: "nat \<Rightarrow> string" where
  "dec n = (if n < 10 then [digit_char n] else dec (n div 10) @ [digit_char (n mod 10)])"

declare dec.simps [simp del]

lemma of_char_digit_char: "d < 10 \<Longrightarrow> (of_char (digit_char d) :: nat) = 48 + d"
  by (simp add: digit_char_def of_char_of)

lemma digit_value_digit_char [simp]: "d < 10 \<Longrightarrow> digit_value (digit_char d) = Some d"
  by (simp add: digit_value_def of_char_digit_char Let_def)

lemma dec_not_Nil [simp]: "dec n \<noteq> []"
  by (subst dec.simps) simp

lemma dec_digits: "\<forall>c \<in> set (dec n). \<exists>d < 10. c = digit_char d"
proof (induction n rule: dec.induct)
  case (1 n)
  show ?case
  proof (cases "n < 10")
    case True
    then show ?thesis by (subst dec.simps) auto
  next
    case False
    have "n mod 10 < 10" by simp
    then have "\<exists>d < 10. digit_char (n mod 10) = digit_char d" by blast
    with False 1 show ?thesis by (subst dec.simps) simp
  qed
qed

lemma dec_is_digit: "c \<in> set (dec n) \<Longrightarrow> is_digit 10 c"
  using dec_digits [of n] by (auto simp: is_digit_def)

lemma digits_value_append:
  "digits_value b acc (xs @ ys) = digits_value b (digits_value b acc xs) ys"
  by (induction xs arbitrary: acc) auto

lemma digits_value_dec: "digits_value 10 0 (dec n) = n"
proof (induction n rule: dec.induct)
  case (1 n)
  show ?case
  proof (cases "n < 10")
    case True
    then show ?thesis by (subst dec.simps) simp
  next
    case False
    with 1 have IH: "digits_value 10 0 (dec (n div 10)) = n div 10" by simp
    from False have "dec n = dec (n div 10) @ [digit_char (n mod 10)]" by (subst dec.simps) simp
    then show ?thesis by (simp add: digits_value_append IH)
  qed
qed

lemma hd_dec: "0 < n \<Longrightarrow> \<exists>d. 0 < d \<and> d < 10 \<and> hd (dec n) = digit_char d"
proof (induction n rule: dec.induct)
  case (1 n)
  show ?case
  proof (cases "n < 10")
    case True
    with 1 show ?thesis by (subst dec.simps) auto
  next
    case False
    then have "0 < n div 10" by auto
    with 1 False obtain d where d: "0 < d" "d < 10" "hd (dec (n div 10)) = digit_char d" by blast
    from False have "dec n = dec (n div 10) @ [digit_char (n mod 10)]" by (subst dec.simps) simp
    with d show ?thesis by auto
  qed
qed

lemma dec_0 [simp]: "dec 0 = ''0''"
  by (subst dec.simps) (simp add: digit_char_def, code_simp)

lemma length_dec_byte: "n < 256 \<Longrightarrow> length (dec n) \<le> 3"
  by (subst dec.simps, subst dec.simps, subst dec.simps) auto

section \<open>strtoul on decimal output\<close>

lemma char_class_of_digit:
  assumes "d < 10"
  shows "\<not> isspace (digit_char d)" "digit_char d \<noteq> CHR ''-''" "digit_char d \<noteq> CHR ''+''"
    "0 < d \<Longrightarrow> digit_char d \<noteq> CHR ''0''" "digit_char d \<noteq> CHR ''.''"
proof -
  have n: "(of_char (digit_char d) :: nat) = 48 + d" by (rule of_char_digit_char [OF assms])
  show "\<not> isspace (digit_char d)"
  proof
    assume "isspace (digit_char d)"
    then have "(of_char (digit_char d) :: nat) \<in> {32, 9, 10, 11, 12, 13}"
      by (auto simp: isspace_def)
    with n show False by simp
  qed
  show "digit_char d \<noteq> CHR ''-''" "digit_char d \<noteq> CHR ''+''"
    "0 < d \<Longrightarrow> digit_char d \<noteq> CHR ''0''" "digit_char d \<noteq> CHR ''.''"
    using n assms by auto
qed

lemma dec_hd_digit: "\<exists>d < 10. hd (dec n) = digit_char d"
  using dec_digits [of n] by (cases "dec n") auto

lemma dropWhile_hd: "xs \<noteq> [] \<Longrightarrow> \<not> P (hd xs) \<Longrightarrow> dropWhile P xs = xs"
  by (cases xs) auto

text \<open>A number that stops at a character that is no digit of any base is read back whole.\<close>

lemma strtoul0_dec:
  assumes stop: "rest = [] \<or> digit_value (hd rest) = None"
  shows "strtoul0 (dec n @ rest) = (if n > unat ULONG_MAX then ULONG_MAX else of_nat n, rest)"
proof -
  obtain d where d: "d < 10" "hd (dec n) = digit_char d" using dec_hd_digit by blast
  note cls = char_class_of_digit [OF d(1)]
  have ws: "dropWhile isspace (dec n @ rest) = dec n @ rest"
    using d cls by (intro dropWhile_hd) auto
  have sg: "strip_sign (dec n @ rest) = (False, dec n @ rest)"
    using d cls by (cases "dec n") (auto simp: strip_sign_def)
  have nodig: "rest = [] \<or> \<not> is_digit b (hd rest)" for b
    using stop by (auto simp: is_digit_def)
  show ?thesis
  proof (cases "n = 0")
    case True
    have "deref rest \<notin> {CHR ''x'', CHR ''X''}"
      using stop by (cases rest) (auto simp: nul_def digit_value_def Let_def)
    then have "select_base (dec n @ rest) = (8, ''0'' @ rest)"
      using True by (simp add: select_base_def)
    moreover have z: "is_digit 8 (CHR ''0'')" by (simp add: is_digit_def digit_value_def)
    moreover have "digits_value 8 0 ''0'' = 0" by (simp add: digit_value_def)
    ultimately show ?thesis
      using True ws sg takeWhile_all_then [of "''0''" "is_digit 8" rest] nodig [of 8]
      by (simp add: strtoul0_def)
  next
    case False
    obtain e where e: "0 < e" "e < 10" "hd (dec n) = digit_char e" using hd_dec False by blast
    have "deref (dec n @ rest) \<noteq> CHR ''0''"
      using e char_class_of_digit [OF e(2)] by (cases "dec n") auto
    then have "select_base (dec n @ rest) = (10, dec n @ rest)"
      by (simp add: select_base_def)
    moreover have "\<forall>c \<in> set (dec n). is_digit 10 c" using dec_is_digit by blast
    ultimately show ?thesis
      using ws sg takeWhile_all_then [of "dec n" "is_digit 10" rest] nodig [of 10]
      by (simp add: strtoul0_def digits_value_dec)
  qed
qed

end
