(* ===== verification/Inet_Aton.thy ===== *)
theory Inet_Aton
  imports C_Library
begin

text \<open>
  \<open>source/mist_port/inet_aton.c\<close>: the conversion of an address in text form to the
  32-bit value of \<open>struct in_addr\<close>.  The scanning loop is \<open>aton_loop\<close>, the
  switch that puts the parts together is \<open>aton_combine\<close>.  The array \<open>parts\<close> starts with
  the unspecified contents \<open>junk\<close>; the pointer \<open>addr\<close> is \<open>None\<close> when it is NULL and
  otherwise carries the object it points to.
\<close>

section \<open>Byte order\<close>

text \<open>The target is little-endian: the byte-order functions reverse the bytes.\<close>

definition htonl :: "u32 \<Rightarrow> u32" where
  "htonl x = push_bit 24 (take_bit 8 x) OR push_bit 16 (take_bit 8 (drop_bit 8 x))
             OR push_bit 8 (take_bit 8 (drop_bit 16 x)) OR drop_bit 24 x"

definition htons :: "u16 \<Rightarrow> u16" where
  "htons x = push_bit 8 (take_bit 8 x) OR drop_bit 8 x"

text \<open>The four bytes of a 32-bit object in memory, at increasing addresses.\<close>

definition memory_bytes :: "u32 \<Rightarrow> byte list" where
  "memory_bytes x = [ucast x, ucast (drop_bit 8 x), ucast (drop_bit 16 x), ucast (drop_bit 24 x)]"

lemma bit_htonl:
  "bit (htonl x) n \<longleftrightarrow>
     (if n < 8 then bit x (24 + n) else if n < 16 then bit x (8 + n)
      else if n < 24 then bit x (n - 8) else n < 32 \<and> bit x (n - 24))"
  by (auto simp: htonl_def bit_simps dest: bit_imp_le_length)

lemma bit_htons:
  "bit (htons x) n \<longleftrightarrow> (if n < 8 then bit x (8 + n) else n < 16 \<and> bit x (n - 8))"
  by (auto simp: htons_def bit_simps dest: bit_imp_le_length)

lemma htons_htons [simp]: "htons (htons x) = x"
  by (rule bit_word_eqI) (auto simp: bit_htons)

lemma htonl_htonl [simp]: "htonl (htonl x) = x"
  by (rule bit_word_eqI) (auto simp: bit_htonl)

section \<open>The scanning loop\<close>

text \<open>
  The loop ends by rejecting the text, or with the array, the index of the last part and
  its value; a write past the end of \<open>parts[4]\<close> would be \<open>Overrun\<close>.
\<close>

datatype aton_scan = Overrun | Reject | Scanned "u32 list" nat u32

function aton_loop :: "string \<Rightarrow> nat \<Rightarrow> u32 list \<Rightarrow> aton_scan" where
  "aton_loop c n parts =
     (let l = fst (strtoul0 c); endptr = snd (strtoul0 c) in
      if l = ULONG_MAX \<or> (l = 0 \<and> endptr = c) then Reject
      else if endptr = c then Reject
      else if length parts \<le> n then Overrun
      else let parts1 = parts[n := l] in
        if deref endptr = CHR ''.'' then
          (if n = 3 then Reject else aton_loop (tl endptr) (Suc n) parts1)
        else if deref endptr = nul then Scanned parts1 n l
        else if isspace (deref endptr) then Scanned parts1 n l
        else Reject)"
  by pat_completeness auto
termination
proof (relation "measure (\<lambda>(c, n, parts). length c)", goal_cases)
  case 1
  show ?case by simp
next
  case (2 c n parts x xa xb)
  then have "xa \<noteq> []" by (auto simp: nul_def)
  with 2 strtoul0_end_length [of c] have "length (tl xa) < length c"
    by (intro length_tl_less) simp_all
  with 2 show ?case by simp
qed

declare aton_loop.simps [simp del]

section \<open>The parts put together\<close>

definition aton_combine :: "u32 list \<Rightarrow> nat \<Rightarrow> u32 \<Rightarrow> u32 option" where
  "aton_combine parts n val =
     (if n = 0 then Some val
      else if n = 1 then
        (if val > 0xffffff \<or> parts ! 0 > 0xff then None
         else Some (val OR push_bit 24 (parts ! 0)))
      else if n = 2 then
        (if val > 0xffff \<or> parts ! 0 > 0xff \<or> parts ! 1 > 0xff then None
         else Some (val OR (push_bit 24 (parts ! 0) OR push_bit 16 (parts ! 1))))
      else if n = 3 then
        (if val > 0xff \<or> parts ! 0 > 0xff \<or> parts ! 1 > 0xff \<or> parts ! 2 > 0xff then None
         else Some (val OR (push_bit 24 (parts ! 0) OR push_bit 16 (parts ! 1) OR push_bit 8 (parts ! 2))))
      else Some val)"

text \<open>
  The result: the returned int and the object \<open>addr\<close> points to afterwards, or
  \<open>None\<close> if the array had been overrun.
\<close>

definition inet_aton :: "u32 list \<Rightarrow> string \<Rightarrow> u32 option \<Rightarrow> (int \<times> u32 option) option" where
  "inet_aton junk cp addr =
     (case aton_loop cp 0 junk of
        Overrun \<Rightarrow> None
      | Reject \<Rightarrow> Some (0, addr)
      | Scanned parts n val \<Rightarrow>
          (case aton_combine parts n val of
             None \<Rightarrow> Some (0, addr)
           | Some v \<Rightarrow> Some (1, case addr of None \<Rightarrow> None | Some _ \<Rightarrow> Some (htonl v))))"

section \<open>Combining bytes\<close>

definition addr_word :: "byte \<Rightarrow> byte \<Rightarrow> byte \<Rightarrow> byte \<Rightarrow> u32" where
  "addr_word a b c d = ucast d OR (push_bit 24 (ucast a) OR push_bit 16 (ucast b) OR push_bit 8 (ucast c))"

lemma memory_bytes_htonl_addr_word:
  "memory_bytes (htonl (addr_word a b c d)) = [a, b, c, d]"
  unfolding memory_bytes_def list.inject
  by (intro conjI bit_word_eqI) (auto simp: bit_htonl addr_word_def bit_simps dest: bit_imp_le_length)

section \<open>The loop stays inside the array and reads only what it wrote\<close>

lemma aton_loop_result:
  assumes "n \<le> 3" and "length parts = 4"
  shows "aton_loop c n parts \<noteq> Overrun \<and>
    (\<forall>parts' n' v. aton_loop c n parts = Scanned parts' n' v \<longrightarrow>
       n \<le> n' \<and> n' \<le> 3 \<and> length parts' = 4 \<and> take n parts' = take n parts \<and>
       parts' ! n' = v \<and> v \<noteq> ULONG_MAX)"
  using assms
proof (induction c n parts rule: aton_loop.induct)
  case (1 c n parts)
  define l where "l = fst (strtoul0 c)"
  define e where "e = snd (strtoul0 c)"
  note defs = l_def [symmetric] e_def [symmetric]
  show ?case
  proof (cases "l \<noteq> ULONG_MAX \<and> e \<noteq> c \<and> deref e = CHR ''.'' \<and> n \<noteq> 3")
    case True
    note IH = "1.IH" [OF refl refl, unfolded defs, OF _ _ _ refl]
    from True "1.prems" have step: "aton_loop c n parts = aton_loop (tl e) (Suc n) (parts[n := l])"
      by (subst aton_loop.simps) (simp add: Let_def defs)
    have tk: "take n xs = take n parts" if "take (Suc n) xs = take (Suc n) (parts[n := l])" for xs
      using arg_cong [OF that, of "take n"] by (simp add: min_def)
    show ?thesis
      unfolding step using IH True "1.prems" tk by (auto dest: Suc_leD)
  next
    case False
    with "1.prems" show ?thesis
      by (subst aton_loop.simps, subst (2) aton_loop.simps) (auto simp: Let_def defs split: if_splits)
  qed
qed

fun written :: "aton_scan \<Rightarrow> aton_scan" where
  "written (Scanned parts n v) = Scanned (take n parts) n v"
| "written r = r"

lemma aton_combine_written: "aton_combine (take n parts) n v = aton_combine parts n v"
  by (simp add: aton_combine_def)

lemma take_Suc_update:
  "take n xs = take n ys \<Longrightarrow> length xs = length ys \<Longrightarrow> take (Suc n) (xs[n := x]) = take (Suc n) (ys[n := x])"
  by (auto simp: list_eq_iff_nth_eq nth_list_update less_Suc_eq)

lemma aton_loop_written:
  assumes "take n parts = take n parts2" and "length parts = length parts2"
  shows "written (aton_loop c n parts) = written (aton_loop c n parts2)"
  using assms
proof (induction c n parts arbitrary: parts2 rule: aton_loop.induct)
  case (1 c n parts)
  define l where "l = fst (strtoul0 c)"
  define e where "e = snd (strtoul0 c)"
  note defs = l_def [symmetric] e_def [symmetric]
  have eq: "take (Suc n) (parts[n := l]) = take (Suc n) (parts2[n := l])"
    using "1.prems" by (intro take_Suc_update)
  have eqn: "take n (parts[n := l]) = take n (parts2[n := l])" using "1.prems" by simp
  show ?case
  proof (cases "l \<noteq> ULONG_MAX \<and> e \<noteq> c \<and> \<not> length parts \<le> n \<and> deref e = CHR ''.'' \<and> n \<noteq> 3")
    case True
    note IH = "1.IH" [OF refl refl, unfolded defs, OF _ _ _ refl]
    from True "1.prems" have
      "aton_loop c n parts = aton_loop (tl e) (Suc n) (parts[n := l])"
      "aton_loop c n parts2 = aton_loop (tl e) (Suc n) (parts2[n := l])"
      by (subst aton_loop.simps, simp add: Let_def defs)+
    with IH [OF _ _ _ _ _ eq] True "1.prems" show ?thesis by simp
  next
    case False
    with "1.prems" eqn show ?thesis
      by (subst aton_loop.simps, subst (2) aton_loop.simps) (auto simp: Let_def defs)
  qed
qed

lemma inet_aton_defined: "length junk = 4 \<Longrightarrow> inet_aton junk cp addr \<noteq> None"
  using aton_loop_result [of 0 junk cp]
  by (auto simp: inet_aton_def split: aton_scan.splits option.splits)

lemma inet_aton_uninit:
  assumes "length junk = 4" and "length junk2 = 4"
  shows "inet_aton junk cp addr = inet_aton junk2 cp addr"
proof -
  have w: "written (aton_loop cp 0 junk) = written (aton_loop cp 0 junk2)"
    using assms by (intro aton_loop_written) simp_all
  show ?thesis
  proof (cases "aton_loop cp 0 junk")
    case (Scanned p n v)
    with w obtain p2 where p2: "aton_loop cp 0 junk2 = Scanned p2 n v" "take n p2 = take n p"
      by (cases "aton_loop cp 0 junk2") auto
    then have "aton_combine p2 n v = aton_combine p n v" by (metis aton_combine_written)
    with Scanned p2 show ?thesis by (simp add: inet_aton_def)
  qed (use w in \<open>cases "aton_loop cp 0 junk2"; simp add: inet_aton_def\<close>)+
qed

section \<open>Decimal text\<close>

text \<open>Numbers in decimal with dots between them, and the address they denote.\<close>

fun dotted :: "nat list \<Rightarrow> string" where
  "dotted [] = []"
| "dotted [p] = dec p"
| "dotted (p # ps) = dec p @ CHR ''.'' # dotted ps"

fun parts_address :: "nat list \<Rightarrow> nat option" where
  "parts_address [v] = Some v"
| "parts_address [a, v] = (if a < 256 \<and> v < 2 ^ 24 then Some (a * 2 ^ 24 + v) else None)"
| "parts_address [a, b, v] =
     (if a < 256 \<and> b < 256 \<and> v < 2 ^ 16 then Some (a * 2 ^ 24 + b * 2 ^ 16 + v) else None)"
| "parts_address [a, b, c, v] =
     (if a < 256 \<and> b < 256 \<and> c < 256 \<and> v < 256
      then Some (a * 2 ^ 24 + b * 2 ^ 16 + c * 2 ^ 8 + v) else None)"
| "parts_address _ = None"

definition ends_text :: "string \<Rightarrow> bool" where
  "ends_text rest \<longleftrightarrow> rest = [] \<or> isspace (hd rest)"

lemma ends_text_class:
  assumes "ends_text rest"
  shows "rest = [] \<or> digit_value (hd rest) = None" "deref rest \<noteq> CHR ''.''"
    "deref rest = nul \<or> isspace (deref rest)"
  using assms by (cases rest; auto simp: ends_text_def isspace_def nul_def digit_value_def)+

fun store_parts :: "nat \<Rightarrow> nat list \<Rightarrow> u32 list \<Rightarrow> u32 list" where
  "store_parts n [] parts = parts"
| "store_parts n (p # ps) parts = store_parts (Suc n) ps (parts[n := of_nat p])"

lemma aton_loop_dotted:
  assumes "ps \<noteq> []" and "\<forall>p \<in> set ps. p < 2 ^ 32 - 1" and "n \<le> 3" and "length parts = 4"
    and "ends_text rest"
  shows "aton_loop (dotted ps @ rest) n parts =
    (if n + length ps \<le> 4
     then Scanned (store_parts n ps parts) (n + length ps - 1) (of_nat (last ps)) else Reject)"
  using assms
proof (induction ps arbitrary: n parts rule: dotted.induct)
  case (2 p)
  note ends = ends_text_class [OF "2.prems"(5)]
  have val: "(of_nat p :: u32) \<noteq> ULONG_MAX"
    using 2 unat_of_nat_u32 [of p] by (auto simp: ULONG_MAX_def)
  have "strtoul0 (dec p @ rest) = (of_nat p, rest)"
    using 2 strtoul0_dec [OF ends(1), of p] by (simp add: ULONG_MAX_def)
  moreover have "rest \<noteq> dec p @ rest" by simp
  ultimately show ?case
    using 2 ends val by (subst aton_loop.simps) (auto simp: Let_def)
next
  case (3 p q ps)
  let ?more = "CHR ''.'' # dotted (q # ps) @ rest"
  have val: "(of_nat p :: u32) \<noteq> ULONG_MAX"
    using 3 unat_of_nat_u32 [of p] by (auto simp: ULONG_MAX_def)
  have st: "strtoul0 (dec p @ ?more) = (of_nat p, ?more)"
    using 3 strtoul0_dec [of ?more p] by (simp add: digit_value_def ULONG_MAX_def)
  have ne: "?more \<noteq> dec p @ ?more" by simp
  have step: "aton_loop (dotted (p # q # ps) @ rest) n parts =
      (if n = 3 then Reject else aton_loop (dotted (q # ps) @ rest) (Suc n) (parts[n := of_nat p]))"
    using 3 st ne val by (subst aton_loop.simps) (auto simp: Let_def)
  show ?case
    unfolding step using 3 by auto
qed simp

text \<open>A part of \<open>2 ^ 32 - 1\<close> or more ends the loop with a rejection: strtoul answers ULONG_MAX.\<close>

lemma strtoul0_ones:
  assumes "2 ^ 32 - 1 \<le> n" and "rest = [] \<or> digit_value (hd rest) = None"
  shows "fst (strtoul0 (dec n @ rest)) = ULONG_MAX"
proof -
  have "of_nat n = ULONG_MAX" if "\<not> n > unat ULONG_MAX"
  proof -
    from that assms(1) have "n = 4294967295" by (simp add: ULONG_MAX_def)
    then show ?thesis by (simp add: ULONG_MAX_def)
  qed
  then show ?thesis by (auto simp: strtoul0_dec [OF assms(2)])
qed

lemma aton_loop_ones:
  assumes "2 ^ 32 - 1 \<le> n" and "rest = [] \<or> digit_value (hd rest) = None"
  shows "aton_loop (dec n @ rest) k parts = Reject"
  using strtoul0_ones [OF assms] by (subst aton_loop.simps) (simp add: Let_def)

lemma aton_loop_dotted_big:
  assumes "p \<in> set ps" and "2 ^ 32 - 1 \<le> p" and "n \<le> 3" and "length parts = 4" and "ends_text rest"
  shows "aton_loop (dotted ps @ rest) n parts = Reject"
  using assms
proof (induction ps arbitrary: n parts rule: dotted.induct)
  case (2 q)
  then show ?case using aton_loop_ones [OF _ ends_text_class(1) [OF "2.prems"(5)]] by simp
next
  case (3 q r ps)
  let ?more = "CHR ''.'' # dotted (r # ps) @ rest"
  have no_digit: "?more = [] \<or> digit_value (hd ?more) = None" by (simp add: digit_value_def)
  show ?case
  proof (cases "2 ^ 32 - 1 \<le> q")
    case True
    then show ?thesis using aton_loop_ones [OF _ no_digit] by simp
  next
    case False
    then have small: "q < 4294967295" by simp
    have val: "(of_nat q :: u32) \<noteq> ULONG_MAX"
      using small unat_of_nat_u32 [of q] by (auto simp: ULONG_MAX_def)
    have st: "strtoul0 (dec q @ ?more) = (of_nat q, ?more)"
      using small strtoul0_dec [OF no_digit, of q] by (simp add: ULONG_MAX_def)
    have ne: "?more \<noteq> dec q @ ?more" by simp
    have "aton_loop (dotted (q # r # ps) @ rest) n parts =
        (if n = 3 then Reject else aton_loop (dotted (r # ps) @ rest) (Suc n) (parts[n := of_nat q]))"
      using 3 st ne val by (subst aton_loop.simps) (auto simp: Let_def)
    with 3 False show ?thesis by auto
  qed
qed simp

section \<open>Disjunction of disjoint fields is their sum\<close>

lemma nat_or_push:
  assumes "v < 2 ^ k"
  shows "v OR (a * 2 ^ k) = v + a * (2 ^ k :: nat)"
proof -
  have "take_bit k v AND push_bit k a = 0"
    by (rule bit_eqI) (simp add: bit_simps)
  moreover have "take_bit k v = v" using assms by (simp add: take_bit_nat_eq_self)
  ultimately have "v AND a * 2 ^ k = 0" by (simp add: push_bit_nat_def)
  then show ?thesis by (simp add: disjunctive_add_eq_or)
qed

lemma word_or_field:
  "v < 2 ^ k \<Longrightarrow> (of_nat v :: u32) OR push_bit k (of_nat a) = of_nat (v + a * 2 ^ k)"
  by (simp only: nat_or_push [symmetric] of_nat_or_eq push_bit_eq_mult)
     (simp add: of_nat_mult)

lemma of_nat_u32_less: "v < 2 ^ 32 \<Longrightarrow> w < 2 ^ 32 \<Longrightarrow> (of_nat v :: u32) < of_nat w \<longleftrightarrow> v < w"
  by (simp add: word_less_nat_alt unat_of_nat_u32)

lemma combine_two:
  assumes "v < 2 ^ 32" "a < 2 ^ 32"
  shows "aton_combine (of_nat a # ps) 1 (of_nat v) = map_option of_nat (parts_address [a, v])"
  using assms of_nat_u32_less [of "0xffffff" v] of_nat_u32_less [of "0xff" a]
    word_or_field [of v 24 a]
  by (auto simp: aton_combine_def add.commute)

lemma combine_three:
  assumes "v < 2 ^ 32" "a < 2 ^ 32" "b < 2 ^ 32"
  shows "aton_combine (of_nat a # of_nat b # ps) 2 (of_nat v) = map_option of_nat (parts_address [a, b, v])"
proof -
  have "(of_nat v :: u32) OR (push_bit 24 (of_nat a) OR push_bit 16 (of_nat b))
      = of_nat (v + b * 2 ^ 16 + a * 2 ^ 24)" if "v < 2 ^ 16" "b < 256"
  proof -
    have "(of_nat v :: u32) OR (push_bit 24 (of_nat a) OR push_bit 16 (of_nat b))
        = (of_nat v OR push_bit 16 (of_nat b)) OR push_bit 24 (of_nat a)"
      by (simp only: or.assoc or.commute or.left_commute)
    moreover have "v + b * 2 ^ 16 < 2 ^ 24" using that by simp
    ultimately show ?thesis using that by (simp only: word_or_field)
  qed
  then show ?thesis
    using assms of_nat_u32_less [of "0xffff" v] of_nat_u32_less [of "0xff" a]
      of_nat_u32_less [of "0xff" b]
    by (auto simp: aton_combine_def ac_simps)
qed

lemma combine_four:
  assumes "v < 2 ^ 32" "a < 2 ^ 32" "b < 2 ^ 32" "c < 2 ^ 32"
  shows "aton_combine (of_nat a # of_nat b # of_nat c # ps) 3 (of_nat v)
    = map_option of_nat (parts_address [a, b, c, v])"
proof -
  have "(of_nat v :: u32) OR (push_bit 24 (of_nat a) OR push_bit 16 (of_nat b) OR push_bit 8 (of_nat c))
      = of_nat (v + c * 2 ^ 8 + b * 2 ^ 16 + a * 2 ^ 24)" if "v < 256" "b < 256" "c < 256"
  proof -
    have "(of_nat v :: u32) OR (push_bit 24 (of_nat a) OR push_bit 16 (of_nat b) OR push_bit 8 (of_nat c))
        = ((of_nat v OR push_bit 8 (of_nat c)) OR push_bit 16 (of_nat b)) OR push_bit 24 (of_nat a)"
      by (simp only: or.assoc or.commute or.left_commute)
    moreover have "v < 2 ^ 8" "v + c * 2 ^ 8 < 2 ^ 16" "v + c * 2 ^ 8 + b * 2 ^ 16 < 2 ^ 24"
      using that by simp_all
    ultimately show ?thesis by (simp only: word_or_field)
  qed
  then show ?thesis
    using assms of_nat_u32_less [of "0xff" v] of_nat_u32_less [of "0xff" a]
      of_nat_u32_less [of "0xff" b] of_nat_u32_less [of "0xff" c]
    by (auto simp: aton_combine_def ac_simps)
qed

section \<open>Results\<close>

lemma store_parts_result:
  assumes "length junk = 4" and "ps \<noteq> []" and "length ps \<le> 4" and "\<forall>p \<in> set ps. p < 2 ^ 32"
  shows "aton_combine (store_parts 0 ps junk) (length ps - 1) (of_nat (last ps))
    = map_option of_nat (parts_address ps)"
proof -
  obtain j0 j1 j2 j3 where j: "junk = [j0, j1, j2, j3]"
    using assms(1) by (auto simp: numeral_eq_Suc length_Suc_conv)
  consider a where "ps = [a]" | a b where "ps = [a, b]" | a b c where "ps = [a, b, c]"
    | a b c d where "ps = [a, b, c, d]"
    using assms(2,3) by (auto simp: neq_Nil_conv le_Suc_eq numeral_eq_Suc length_Suc_conv)
  then show ?thesis
  proof cases
    case 1
    then show ?thesis by (simp add: aton_combine_def)
  next
    case 2
    with j assms combine_two [of b a] show ?thesis by simp
  next
    case 3
    with j assms combine_three [of c a b] show ?thesis by (simp add: numeral_2_eq_2)
  next
    case 4
    with j assms combine_four [of d a b c] show ?thesis by (simp add: numeral_3_eq_3 numeral_2_eq_2)
  qed
qed

lemma parts_address_long: "4 < length ps \<Longrightarrow> parts_address ps = None"
  by (induction ps rule: parts_address.induct) auto

lemma inet_aton_dotted_core:
  assumes "ps \<noteq> []" and "\<forall>p \<in> set ps. p < 2 ^ 32 - 1" and "ends_text rest" and "length junk = 4"
  shows "inet_aton junk (dotted ps @ rest) (Some old) =
    Some (case parts_address ps of
            None \<Rightarrow> (0, Some old)
          | Some v \<Rightarrow> (1, Some (htonl (of_nat v))))"
proof (cases "length ps \<le> 4")
  case True
  from assms have "\<forall>p \<in> set ps. p < 2 ^ 32" by auto
  from store_parts_result [OF assms(4,1) True this] True show ?thesis
    using aton_loop_dotted [OF assms(1,2) _ assms(4,3), of 0]
    by (auto simp: inet_aton_def split: option.splits)
next
  case False
  with aton_loop_dotted [OF assms(1,2) _ assms(4,3), of 0] parts_address_long [of ps]
  show ?thesis by (simp add: inet_aton_def)
qed

text \<open>
  Property C10. inet_aton on any dotted decimal text, numbers of any size and any count followed
  by the end of the string or by white space. One to four numbers are accepted exactly when every
  part is within the range its position allows, and the object then holds the address in network
  byte order; five numbers or more, and parts that are too big, are rejected with the object
  untouched. The one exception to the ranges is a single number \<open>2 ^ 32 - 1\<close>: it is rejected although it
  denotes an address, because strtoul answers ULONG_MAX for it as for an overflow.
\<close>

theorem inet_aton_dotted:
  assumes "ps \<noteq> []" and "ends_text rest" and "length junk = 4"
  shows "inet_aton junk (dotted ps @ rest) (Some old) =
    Some (if \<exists>p \<in> set ps. 2 ^ 32 - 1 \<le> p then (0, Some old)
          else case parts_address ps of
            None \<Rightarrow> (0, Some old)
          | Some v \<Rightarrow> (1, Some (htonl (of_nat v))))"
proof (cases "\<exists>p \<in> set ps. 2 ^ 32 - 1 \<le> p")
  case True
  then obtain p where "p \<in> set ps" "2 ^ 32 - 1 \<le> p" by blast
  from aton_loop_dotted_big [OF this _ assms(3,2), of 0] True show ?thesis by (simp add: inet_aton_def)
next
  case False
  then have "\<forall>p \<in> set ps. p < 2 ^ 32 - 1" by force
  from inet_aton_dotted_core [OF assms(1) this assms(2,3)] False show ?thesis by simp
qed

lemma dotted_1_2: "dotted [127, Suc 0] = ''127.1''"
  by code_simp

theorem inet_aton_dotted_witness:
  "inet_aton [0, 0, 0, 0] (''127.1'' @ '' up'') (Some 7) = Some (1, Some (htonl 2130706433)) \<and>
   inet_aton [0, 0, 0, 0] (dotted [4294967295]) (Some 7) = Some (0, Some 7)"
proof
  have "ends_text '' up''" by (simp add: ends_text_def isspace_def)
  then show "inet_aton [0, 0, 0, 0] (''127.1'' @ '' up'') (Some 7) = Some (1, Some (htonl 2130706433))"
    using inet_aton_dotted [of "[127, 1]" "'' up''" "[0, 0, 0, 0]" 7]
    by (simp add: dotted_1_2 del: dotted.simps)
  show "inet_aton [0, 0, 0, 0] (dotted [4294967295]) (Some 7) = Some (0, Some 7)"
    using inet_aton_dotted [of "[4294967295]" "[]" "[0, 0, 0, 0]" 7]
    by (simp add: ends_text_def del: dotted.simps)
qed

lemma addr_word_parts:
  "parts_address (map unat [a, b, c, d]) = Some n \<Longrightarrow> (of_nat n :: u32) = addr_word a b c d"
proof -
  assume n: "parts_address (map unat [a, b, c, d]) = Some n"
  have less: "unat (x :: byte) < 2 ^ 32" for x using unat_byte_less [of x] by simp
  from combine_four [of "unat d" "unat a" "unat b" "unat c" "[]"] less n
  have "aton_combine [of_nat (unat a), of_nat (unat b), of_nat (unat c)] 3 (of_nat (unat d))
      = Some (of_nat n :: u32)" by (simp only: list.map option.map)
  then show ?thesis by (simp add: aton_combine_def addr_word_def split: if_splits)
qed

lemma parts_address_bytes:
  "parts_address (map unat [a, b, c, d :: byte]) \<noteq> None"
  using unat_byte_less [of a] unat_byte_less [of b] unat_byte_less [of c] unat_byte_less [of d] by simp

lemma inet_aton_quad:
  assumes "ends_text rest" and "length junk = 4"
  shows "inet_aton junk (dotted (map unat [a, b, c, d]) @ rest) (Some old)
    = Some (1, Some (htonl (addr_word a b c d)))"
proof -
  obtain n where n: "parts_address (map unat [a, b, c, d]) = Some n"
    using parts_address_bytes by blast
  have "unat (x :: byte) < 2 ^ 32 - 1" for x using unat_byte_less [of x] by simp
  then have "\<forall>p \<in> set (map unat [a, b, c, d]). p < 2 ^ 32 - 1" by simp
  from inet_aton_dotted_core [OF _ this assms, of old] n addr_word_parts [OF n]
  show ?thesis by (simp del: dotted.simps parts_address.simps)
qed

text \<open>
  Property C11. Memory safety and totality: for every string and whatever the array
  \<open>parts\<close> held before, inet_aton never writes past the array, always returns 0 or 1, leaves
  the object alone when it returns 0, and its answer does not depend on the uninitialised
  contents of the array.
\<close>

theorem inet_aton_total:
  assumes "length junk = 4"
  shows "\<exists>r out. inet_aton junk cp addr = Some (r, out) \<and> r \<in> {0, 1} \<and> (r = 0 \<longrightarrow> out = addr) \<and>
    (addr = None \<longrightarrow> out = None) \<and> inet_aton (replicate 4 0) cp addr = Some (r, out)"
proof -
  obtain r out where ro: "inet_aton junk cp addr = Some (r, out)"
    using inet_aton_defined [OF assms, of cp addr] by (cases "inet_aton junk cp addr") auto
  then have "r \<in> {0, 1} \<and> (r = 0 \<longrightarrow> out = addr) \<and> (addr = None \<longrightarrow> out = None)"
    by (auto simp: inet_aton_def split: aton_scan.splits option.splits)
  with ro inet_aton_uninit [of junk "replicate 4 0" cp addr] assms show ?thesis by auto
qed

theorem inet_aton_total_witness:
  "\<exists>r out. inet_aton [9, 9, 9, 9] ''1..2'' None = Some (r, out) \<and> r \<in> {0, 1}"
  using inet_aton_total [of "[9, 9, 9, 9]" "''1..2''" None] by auto

text \<open>
  The largest 32-bit number is not accepted: a first number of
  \<open>2 ^ 32 - 1\<close> or more is rejected, because strtoul answers ULONG_MAX both for the number
  itself and for an overflow, although the same address is accepted in its dotted form.
\<close>

theorem inet_aton_rejects_all_ones:
  assumes "2 ^ 32 - 1 \<le> n" and "rest = [] \<or> digit_value (hd rest) = None" and "length junk = 4"
  shows "inet_aton junk (dec n @ rest) addr = Some (0, addr) \<and>
    inet_aton junk (dotted [255, 255, 255, 255]) (Some old) = Some (1, Some 0xFFFFFFFF)"
proof
  have "aton_loop (dec n @ rest) 0 junk = Reject" by (rule aton_loop_ones [OF assms(1,2)])
  then show "inet_aton junk (dec n @ rest) addr = Some (0, addr)" by (simp add: inet_aton_def)
  have "htonl (addr_word 255 255 255 255) = 0xFFFFFFFF" by code_simp
  with inet_aton_quad [of "[]" junk 255 255 255 255 old] assms(3)
  show "inet_aton junk (dotted [255, 255, 255, 255]) (Some old) = Some (1, Some 0xFFFFFFFF)"
    by (simp add: ends_text_def del: dotted.simps)
qed

theorem inet_aton_rejects_all_ones_witness:
  "inet_aton [0, 0, 0, 0] (dec 4294967295 @ []) (Some 5) = Some (0, Some 5)"
  using inet_aton_rejects_all_ones [of 4294967295 "[]" "[0, 0, 0, 0]" "Some 5" 5] by simp

end
