(* ===== verification/Fifo.thy ===== *)
theory Fifo
  imports Prelude
begin

text \<open>
  The contract of a queue as its clients see it: events come out in the order in which they
  were put in.  The ring buffer of \<open>event.c\<close> and the linked list of
  \<open>port_service_ipc.c\<close> both offer it, the ring buffer only while there is room.
\<close>

datatype 'e queue_op = Put 'e | Take

text \<open>What an ideal queue answers to the takes of a run, and whether it always has room.\<close>

fun fifo_outs :: "'e queue_op list \<Rightarrow> 'e list \<Rightarrow> 'e option list" where
  "fifo_outs [] xs = []"
| "fifo_outs (Put e # ops) xs = fifo_outs ops (xs @ [e])"
| "fifo_outs (Take # ops) [] = None # fifo_outs ops []"
| "fifo_outs (Take # ops) (x # xs) = Some x # fifo_outs ops xs"

fun fifo_fits :: "('e list \<Rightarrow> bool) \<Rightarrow> 'e queue_op list \<Rightarrow> 'e list \<Rightarrow> bool" where
  "fifo_fits room [] xs \<longleftrightarrow> True"
| "fifo_fits room (Put e # ops) xs \<longleftrightarrow> room xs \<and> fifo_fits room ops (xs @ [e])"
| "fifo_fits room (Take # ops) xs \<longleftrightarrow> fifo_fits room ops (tl xs)"

lemma fifo_fits_unbounded [simp]: "fifo_fits (\<lambda>xs. True) ops xs"
proof (induction ops arbitrary: xs)
  case (Cons x ops)
  then show ?case by (cases x) auto
qed simp

text \<open>The same run on an implementation.\<close>

fun queue_outs ::
  "('e \<Rightarrow> 'q \<Rightarrow> 'q) \<Rightarrow> ('q \<Rightarrow> ('e \<times> 'q) option) \<Rightarrow> 'e queue_op list \<Rightarrow> 'q \<Rightarrow> 'e option list" where
  "queue_outs enq deq [] q = []"
| "queue_outs enq deq (Put e # ops) q = queue_outs enq deq ops (enq e q)"
| "queue_outs enq deq (Take # ops) q =
     (case deq q of
        None \<Rightarrow> None # queue_outs enq deq ops q
      | Some (e, q') \<Rightarrow> Some e # queue_outs enq deq ops q')"

locale fifo_queue =
  fixes enq :: "'e \<Rightarrow> 'q \<Rightarrow> 'q"
    and deq :: "'q \<Rightarrow> ('e \<times> 'q) option"
    and pending :: "'q \<Rightarrow> 'e list"
    and inv :: "'q \<Rightarrow> bool"
    and room :: "'e list \<Rightarrow> bool"
  assumes enq_pending: "inv q \<Longrightarrow> room (pending q) \<Longrightarrow> pending (enq e q) = pending q @ [e]"
    and enq_inv: "inv q \<Longrightarrow> room (pending q) \<Longrightarrow> inv (enq e q)"
    and deq_empty: "inv q \<Longrightarrow> pending q = [] \<Longrightarrow> deq q = None"
    and deq_first: "inv q \<Longrightarrow> pending q = x # xs \<Longrightarrow> \<exists>q'. deq q = Some (x, q') \<and> pending q' = xs \<and> inv q'"
begin

lemma outs_fifo:
  "inv q \<Longrightarrow> fifo_fits room ops (pending q) \<Longrightarrow> queue_outs enq deq ops q = fifo_outs ops (pending q)"
proof (induction ops arbitrary: q)
  case Nil
  show ?case by simp
next
  case (Cons x ops)
  show ?case
  proof (cases x)
    case (Put e)
    with Cons show ?thesis by (simp add: enq_pending enq_inv)
  next
    case Take
    show ?thesis
    proof (cases "pending q")
      case Nil
      with Take Cons show ?thesis by (simp add: deq_empty)
    next
      case (Cons y ys)
      from deq_first [OF \<open>inv q\<close> this] obtain q' where
        "deq q = Some (y, q')" "pending q' = ys" "inv q'" by blast
      with Cons.IH [of q'] Cons.prems Take Cons show ?thesis by simp
    qed
  qed
qed

text \<open>Taking until the queue is empty returns exactly what was pending, in order.\<close>

lemma drain_fifo:
  assumes "inv q" and "pending q = xs"
  shows "queue_outs enq deq (replicate (length xs) Take) q = map Some xs"
proof -
  have "fifo_fits room (replicate n Take) ys" for n and ys :: "'e list"
    by (induction n arbitrary: ys) auto
  moreover have "fifo_outs (replicate (length ys) Take) ys = map Some ys" for ys :: "'e list"
    by (induction ys) auto
  ultimately show ?thesis using outs_fifo [OF assms(1)] assms(2) by simp
qed

end

end
