(* ===== verification/Event_Queue.thy ===== *)
theory Event_Queue
  imports Fifo
begin

text \<open>
  \<open>source/mist_port/event.c\<close>: the ring buffer through which the Wish core posts work to
  the main loop.  The globals \<open>event_read\<close>, \<open>event_write\<close>, \<open>num_curr_events\<close> and
  \<open>events\<close> are the record \<open>evq\<close>; \<open>notify\<close> is wish_message_processor_notify and
  \<open>get_next_event\<close> is wish_get_next_event, which returns a pointer into the array: here
  the index of the slot, or \<open>None\<close> for NULL.  The overflow message is the only effect of
  the overflow test (its exit is commented out), so the test changes no state.

  The counter is a C int.  \<open>notify\<close> increments it as a mathematical integer;
  \<open>notify_c\<close> is the same function with the overflow of the increment as an undefined result.
  \<open>event_queue_refines_log\<close> shows that the two agree exactly as long as fewer than \<open>2 ^ 31\<close>
  events are outstanding.
\<close>

section \<open>The ring buffer\<close>

datatype wish_event_type = WISH_EVENT_NEW_DATA | WISH_EVENT_OTHER nat

record wish_event =
  event_type :: wish_event_type
  ev_context :: "nat option"

definition EVENT_QUEUE_LEN :: int where
  "EVENT_QUEUE_LEN = 40"

record evq =
  event_read :: int
  event_write :: int
  num_curr_events :: int
  events :: "wish_event list"

definition evq_init :: "wish_event \<Rightarrow> evq" where
  "evq_init zero = \<lparr>event_read = 0, event_write = 0, num_curr_events = 0,
     events = replicate (nat EVENT_QUEUE_LEN) zero\<rparr>"

definition notify :: "wish_event \<Rightarrow> evq \<Rightarrow> evq" where
  "notify ev q = q\<lparr>events := (events q)[nat (event_write q) := ev],
                  event_write := (event_write q + 1) mod EVENT_QUEUE_LEN,
                  num_curr_events := num_curr_events q + 1\<rparr>"

text \<open>The same with the range of the counter: a signed overflow has no result.\<close>

definition notify_c :: "wish_event \<Rightarrow> evq \<Rightarrow> evq option" where
  "notify_c ev q = (if num_curr_events q + 1 < 2 ^ 31 then Some (notify ev q) else None)"

definition get_next_event :: "evq \<Rightarrow> nat option \<times> evq" where
  "get_next_event q =
     (if num_curr_events q \<noteq> 0 then
        (Some (nat (event_read q)),
         q\<lparr>event_read := (event_read q + 1) mod EVENT_QUEUE_LEN,
           num_curr_events := num_curr_events q - 1\<rparr>)
      else (None, q))"

text \<open>A consumer that reads the event through the pointer at once.\<close>

definition take_event :: "evq \<Rightarrow> (wish_event \<times> evq) option" where
  "take_event q = (case get_next_event q of
     (None, _) \<Rightarrow> None
   | (Some slot, q') \<Rightarrow> Some (events q' ! slot, q'))"

section \<open>The log behind the ring\<close>

text \<open>
  \<open>W\<close> is the sequence of all events ever posted and \<open>r\<close> the number of events handed out.
  The ring holds the last 40 of them, slot \<open>i mod 40\<close> for event \<open>i\<close>.  Nothing in this
  relation bounds how far the writer is ahead of the reader.
\<close>

definition evq_log :: "evq \<Rightarrow> wish_event list \<Rightarrow> nat \<Rightarrow> bool" where
  "evq_log q W r \<longleftrightarrow>
     r \<le> length W \<and> length (events q) = 40 \<and>
     event_write q = int (length W mod 40) \<and> event_read q = int (r mod 40) \<and>
     num_curr_events q = int (length W) - int r \<and>
     (\<forall>i < length W. length W \<le> i + 40 \<longrightarrow> events q ! (i mod 40) = W ! i)"

lemma evq_log_entry:
  "evq_log q W r \<Longrightarrow> i < length W \<Longrightarrow> length W \<le> i + 40 \<Longrightarrow> events q ! (i mod 40) = W ! i"
  by (simp add: evq_log_def)

lemma evq_log_init: "evq_log (evq_init zero) [] 0"
  by (simp add: evq_log_def evq_init_def EVENT_QUEUE_LEN_def)

lemma int_mod40: "(int n + 1) mod 40 = int (Suc n mod 40)"
  by (simp add: zmod_int algebra_simps)

lemma evq_log_notify:
  assumes "evq_log q W r"
  shows "evq_log (notify e q) (W @ [e]) r"
proof -
  let ?n = "length W"
  have w: "nat (event_write q) = ?n mod 40" using assms by (simp add: evq_log_def)
  have "(events q)[?n mod 40 := e] ! (i mod 40) = (W @ [e]) ! i"
    if "i < Suc ?n" "Suc ?n \<le> i + 40" for i
  proof (cases "i = ?n")
    case True
    with assms show ?thesis by (simp add: evq_log_def)
  next
    case False
    with that have "i < ?n" and "?n - i < 40" by auto
    then have "i mod 40 \<noteq> ?n mod 40"
      by (metis mod_eq_dvd_iff_nat dvd_imp_le not_le less_imp_le zero_less_diff)
    with that \<open>i < ?n\<close> assms show ?thesis by (simp add: evq_log_def nth_append)
  qed
  moreover have "(int (?n mod 40) + 1) mod 40 = int (Suc ?n mod 40)"
    by (simp add: int_mod40 mod_Suc_eq)
  ultimately show ?thesis
    using assms w by (simp add: evq_log_def notify_def EVENT_QUEUE_LEN_def)
qed

lemma evq_log_get:
  assumes "evq_log q W r"
  shows "r = length W \<Longrightarrow> get_next_event q = (None, q)"
    and "r < length W \<Longrightarrow> \<exists>q'. get_next_event q = (Some (r mod 40), q') \<and>
           events q' = events q \<and> evq_log q' W (Suc r)"
proof -
  assume "r = length W"
  with assms show "get_next_event q = (None, q)" by (simp add: evq_log_def get_next_event_def)
next
  assume r: "r < length W"
  have "(int (r mod 40) + 1) mod 40 = int (Suc r mod 40)"
    by (simp add: int_mod40 mod_Suc_eq)
  with r assms show "\<exists>q'. get_next_event q = (Some (r mod 40), q') \<and>
      events q' = events q \<and> evq_log q' W (Suc r)"
    by (simp add: evq_log_def get_next_event_def EVENT_QUEUE_LEN_def)
qed

text \<open>
  The event that slot \<open>r mod 40\<close> holds is the newest one that was written there.
\<close>

definition newest_in_slot :: "'e list \<Rightarrow> nat \<Rightarrow> 'e" where
  "newest_in_slot W r = W ! (r + 40 * ((length W - 1 - r) div 40))"

lemma evq_log_slot:
  assumes "evq_log q W r" and "r < length W"
  shows "events q ! (r mod 40) = newest_in_slot W r"
proof -
  let ?i = "r + 40 * ((length W - 1 - r) div 40)"
  let ?d = "length W - 1 - r"
  have "40 * (?d div 40) + ?d mod 40 = ?d" and "?d mod 40 < 40" by simp_all
  with assms(2) have "?i < length W" "length W \<le> ?i + 40" by linarith+
  with assms(1) have "events q ! (?i mod 40) = W ! ?i" unfolding evq_log_def by blast
  moreover have "?i mod 40 = r mod 40" by (rule mod_mult_self2)
  ultimately show ?thesis by (simp only: newest_in_slot_def)
qed

lemma newest_in_slot_first: "r < length W \<Longrightarrow> length W \<le> r + 40 \<Longrightarrow> newest_in_slot W r = W ! r"
  by (simp add: newest_in_slot_def)

section \<open>What a run of the queue answers\<close>

fun log_outs :: "'e queue_op list \<Rightarrow> 'e list \<Rightarrow> nat \<Rightarrow> 'e option list" where
  "log_outs [] W r = []"
| "log_outs (Put e # ops) W r = log_outs ops (W @ [e]) r"
| "log_outs (Take # ops) W r =
     (if r < length W then Some (newest_in_slot W r) # log_outs ops W (Suc r)
      else None # log_outs ops W r)"

lemma take_event_log:
  assumes "evq_log q W r"
  shows "r = length W \<Longrightarrow> take_event q = None"
    and "r < length W \<Longrightarrow> \<exists>q'. take_event q = Some (newest_in_slot W r, q') \<and> evq_log q' W (Suc r)"
  using evq_log_get [OF assms] evq_log_slot [OF assms] by (auto simp: take_event_def)

lemma queue_outs_log:
  "evq_log q W r \<Longrightarrow> queue_outs notify take_event ops q = log_outs ops W r"
proof (induction ops arbitrary: q W r)
  case Nil
  show ?case by simp
next
  case (Cons x ops)
  show ?case
  proof (cases x)
    case (Put e)
    with Cons evq_log_notify show ?thesis by simp
  next
    case Take
    from Cons.prems have "r \<le> length W" by (simp add: evq_log_def)
    with Take Cons take_event_log [OF Cons.prems] show ?thesis
      by (cases "r = length W") auto
  qed
qed

text \<open>A run of posts and takes on the ring, undefined as soon as the counter overflows.\<close>

fun ring_run :: "wish_event queue_op list \<Rightarrow> evq \<Rightarrow> wish_event option list option" where
  "ring_run [] q = Some []"
| "ring_run (Put e # ops) q = (case notify_c e q of None \<Rightarrow> None | Some q' \<Rightarrow> ring_run ops q')"
| "ring_run (Take # ops) q = (case take_event q of
     None \<Rightarrow> map_option (Cons None) (ring_run ops q)
   | Some (e, q') \<Rightarrow> map_option (Cons (Some e)) (ring_run ops q'))"

text \<open>The number of events that are posted and not yet taken, before and after each operation.\<close>

fun outstanding :: "'e queue_op list \<Rightarrow> nat \<Rightarrow> nat list" where
  "outstanding [] n = [n]"
| "outstanding (Put e # ops) n = n # outstanding ops (Suc n)"
| "outstanding (Take # ops) n = n # outstanding ops (n - 1)"

lemma outstanding_start: "n \<in> set (outstanding ops n)"
  by (cases "(ops, n)" rule: outstanding.cases) simp_all

lemma notify_c_log:
  assumes "evq_log q W r"
  shows "notify_c e q = (if Suc (length W) - r < 2 ^ 31 then Some (notify e q) else None)"
proof -
  have "num_curr_events q + 1 = int (Suc (length W) - r)" using assms by (auto simp: evq_log_def)
  then show ?thesis unfolding notify_c_def by simp
qed

lemma ring_run_log:
  assumes "evq_log q W r" and "length W - r < 2 ^ 31"
  shows "ring_run ops q =
    (if \<forall>n \<in> set (outstanding ops (length W - r)). n < 2 ^ 31 then Some (log_outs ops W r) else None)"
  using assms
proof (induction ops arbitrary: q W r)
  case Nil
  then show ?case by simp
next
  case (Cons x ops)
  from Cons.prems(1) have r: "r \<le> length W" by (simp add: evq_log_def)
  show ?case
  proof (cases x)
    case (Put e)
    have len: "Suc (length W) - r = Suc (length W - r)" using r by simp
    show ?thesis
    proof (cases "Suc (length W - r) < 2 ^ 31")
      case True
      with Put Cons.prems Cons.IH [OF evq_log_notify [OF Cons.prems(1)], of e] show ?thesis
        by (simp add: notify_c_log [OF Cons.prems(1)] len)
    next
      case False
      then have "\<exists>n \<in> set (outstanding ops (Suc (length W - r))). \<not> n < 2 ^ 31"
        using outstanding_start by blast
      with False Put show ?thesis by (simp add: notify_c_log [OF Cons.prems(1)] len)
    qed
  next
    case Take
    show ?thesis
    proof (cases "r = length W")
      case True
      with Take Cons take_event_log(1) [OF Cons.prems(1)] show ?thesis by simp
    next
      case False
      with r have "r < length W" by simp
      with Take Cons take_event_log(2) [OF Cons.prems(1)] show ?thesis by auto
    qed
  qed
qed

text \<open>
  Property C9. The ring buffer against its log, far beyond its capacity: started empty, a run of
  posts and takes answers exactly what the log says, for every run in which fewer than \<open>2 ^ 31\<close>
  events are outstanding at any time; a run that lets more pile up overflows the C int
  \<open>num_curr_events\<close> and is undefined.  Event number \<open>r\<close> is
  the one handed out by the take number \<open>r\<close> unless more than 40 events are outstanding, in
  which case the newest event written to its slot comes out instead.
\<close>

theorem event_queue_refines_log:
  "ring_run ops (evq_init zero) =
    (if \<forall>n \<in> set (outstanding ops 0). n < 2 ^ 31 then Some (log_outs ops [] 0) else None)"
  using ring_run_log [OF evq_log_init] by simp

theorem event_queue_refines_log_witness:
  "ring_run [Put \<lparr>event_type = WISH_EVENT_NEW_DATA, ev_context = Some 3\<rparr>, Take, Take]
     (evq_init \<lparr>event_type = WISH_EVENT_OTHER 0, ev_context = None\<rparr>) =
   Some [Some \<lparr>event_type = WISH_EVENT_NEW_DATA, ev_context = Some 3\<rparr>, None]"
  using event_queue_refines_log [of "[Put \<lparr>event_type = WISH_EVENT_NEW_DATA, ev_context = Some 3\<rparr>, Take, Take]"
      "\<lparr>event_type = WISH_EVENT_OTHER 0, ev_context = None\<rparr>"]
  by (simp add: newest_in_slot_def)

section \<open>Within its capacity the ring is a FIFO queue\<close>

definition evq_ok :: "evq \<Rightarrow> bool" where
  "evq_ok q \<longleftrightarrow> (\<exists>W r. evq_log q W r \<and> length W \<le> r + 40)"

lemma evq_okI: "evq_log q W r \<Longrightarrow> length W \<le> r + 40 \<Longrightarrow> evq_ok q"
  by (auto simp: evq_ok_def)

definition evq_pending :: "evq \<Rightarrow> wish_event list" where
  "evq_pending q = map (\<lambda>k. events q ! ((nat (event_read q) + k) mod 40)) [0 ..< nat (num_curr_events q)]"

lemma evq_pending_log:
  assumes "evq_log q W r" and "length W \<le> r + 40"
  shows "evq_pending q = drop r W"
proof (rule nth_equalityI)
  show "length (evq_pending q) = length (drop r W)"
    using assms by (simp add: evq_pending_def evq_log_def)
next
  fix k
  assume "k < length (evq_pending q)"
  then have k: "r + k < length W" using assms by (simp add: evq_pending_def evq_log_def nat_diff_distrib)
  with assms have "events q ! ((r + k) mod 40) = W ! (r + k)" by (simp add: evq_log_def)
  moreover have "(nat (event_read q) + k) mod 40 = (r + k) mod 40"
    using assms(1) by (simp add: evq_log_def mod_add_left_eq)
  ultimately show "evq_pending q ! k = drop r W ! k"
    using k assms by (simp add: evq_pending_def evq_log_def nat_diff_distrib)
qed

lemma evq_ok_init: "evq_ok (evq_init zero)" "evq_pending (evq_init zero) = []"
  using evq_okI [OF evq_log_init [of zero]] evq_pending_log [OF evq_log_init [of zero]]
  by simp_all

interpretation evq: fifo_queue notify take_event evq_pending evq_ok "\<lambda>xs. length xs < 40"
proof
  fix q e
  assume ok: "evq_ok q" and "length (evq_pending q) < 40"
  then obtain W r where l: "evq_log q W r" "length W \<le> r + 40" by (auto simp: evq_ok_def)
  have "r \<le> length W" using l by (simp add: evq_log_def)
  with l \<open>length (evq_pending q) < 40\<close> have room: "length (W @ [e]) \<le> r + 40"
    by (simp add: evq_pending_log)
  note l' = evq_log_notify [OF l(1), of e]
  show "evq_pending (notify e q) = evq_pending q @ [e]"
    using evq_pending_log [OF l] evq_pending_log [OF l' room] \<open>r \<le> length W\<close> by simp
  show "evq_ok (notify e q)" using l' room by (rule evq_okI)
next
  fix q
  assume "evq_ok q" and e: "evq_pending q = []"
  then obtain W r where l: "evq_log q W r" "length W \<le> r + 40" by (auto simp: evq_ok_def)
  with e have "drop r W = []" by (simp add: evq_pending_log)
  moreover have "r \<le> length W" using l(1) by (simp add: evq_log_def)
  ultimately have "r = length W" by simp
  with take_event_log(1) [OF l(1)] show "take_event q = None" by simp
next
  fix q x xs
  assume "evq_ok q" and e: "evq_pending q = x # xs"
  then obtain W r where l: "evq_log q W r" "length W \<le> r + 40" by (auto simp: evq_ok_def)
  with e have d: "drop r W = x # xs" by (simp add: evq_pending_log)
  then have r: "r < length W" by (metis drop_all list.distinct(1) not_le)
  with d have x: "W ! r = x" and xs: "drop (Suc r) W = xs"
    by (auto simp: Cons_nth_drop_Suc [symmetric])
  obtain q' where q': "take_event q = Some (newest_in_slot W r, q')" "evq_log q' W (Suc r)"
    using take_event_log(2) [OF l(1) r] by blast
  moreover have "newest_in_slot W r = x" using newest_in_slot_first [OF r l(2)] x by simp
  moreover have n: "length W \<le> Suc r + 40" using l(2) by simp
  moreover have "evq_pending q' = xs" using evq_pending_log [OF q'(2) n] xs by simp
  moreover have "evq_ok q'" using q'(2) n by (rule evq_okI)
  ultimately show "\<exists>q'. take_event q = Some (x, q') \<and> evq_pending q' = xs \<and> evq_ok q'"
    by auto
qed

text \<open>
  Property C8. As long as at most 40 events are outstanding at any time, the events come
  out exactly as from an ideal first-in first-out queue: none is lost, duplicated or
  reordered, and a take on an empty queue answers NULL.
\<close>

theorem event_queue_fifo:
  assumes "fifo_fits (\<lambda>xs. length xs < 40) ops []"
  shows "queue_outs notify take_event ops (evq_init zero) = fifo_outs ops []"
  using evq.outs_fifo [OF evq_ok_init(1)] assms by (simp add: evq_ok_init)

theorem event_queue_fifo_witness:
  "queue_outs notify take_event
     [Put \<lparr>event_type = WISH_EVENT_NEW_DATA, ev_context = Some 2\<rparr>, Take, Take]
     (evq_init \<lparr>event_type = WISH_EVENT_OTHER 0, ev_context = None\<rparr>)
   = [Some \<lparr>event_type = WISH_EVENT_NEW_DATA, ev_context = Some 2\<rparr>, None]"
  by (subst event_queue_fifo) simp_all

section \<open>Overflow\<close>

lemma log_outs_puts: "log_outs (map Put xs @ ops) W r = log_outs ops (W @ xs) r"
  by (induction xs arbitrary: W) auto

lemma log_outs_takes:
  "r + n \<le> length W \<Longrightarrow>
    log_outs (replicate n Take) W r = map (\<lambda>i. Some (newest_in_slot W i)) [r ..< r + n]"
  by (induction n arbitrary: r) (simp_all add: upt_conv_Cons del: upt_Suc)

text \<open>
  Property C26. Overflow is not contained: with \<open>W\<close> posted and nothing taken, for 41 to 80
  events, the takes answer as many events as were posted, but the oldest ones beyond 40
  are lost, the newest ones come out first, and those come out a second time at the end.
\<close>

theorem event_queue_overflow:
  assumes "40 < length W" and "length W \<le> 80"
  shows "queue_outs notify take_event (map Put W @ replicate (length W) Take) (evq_init zero)
    = map Some (drop 40 W @ drop (length W - 40) W)"
proof -
  let ?n = "length W"
  have one: "newest_in_slot W i = (drop 40 W @ drop (?n - 40) W) ! i" if "i < ?n" for i
  proof (cases "i < ?n - 40")
    case True
    then have "(?n - 1 - i) div 40 = 1" using assms that by simp
    with True assms show ?thesis by (simp add: newest_in_slot_def nth_append add.commute)
  next
    case False
    then have "(?n - 1 - i) div 40 = 0" using that by simp
    with False assms that show ?thesis by (simp add: newest_in_slot_def nth_append)
  qed
  have "map (\<lambda>i. Some (newest_in_slot W i)) [0 ..< ?n] = map Some (drop 40 W @ drop (?n - 40) W)"
    by (rule nth_equalityI) (use assms one in \<open>simp_all add: nth_append\<close>)
  then show ?thesis
    by (simp add: queue_outs_log [OF evq_log_init] log_outs_puts log_outs_takes)
qed

theorem event_queue_overflow_witness:
  "let a = \<lparr>event_type = WISH_EVENT_NEW_DATA, ev_context = Some 1\<rparr>;
       b = \<lparr>event_type = WISH_EVENT_NEW_DATA, ev_context = Some 2\<rparr> in
   queue_outs notify take_event (map Put (replicate 40 a @ [b]) @ replicate 41 Take) (evq_init a)
   = map Some ([b] @ replicate 39 a @ [b])"
proof -
  define a where "a = \<lparr>event_type = WISH_EVENT_NEW_DATA, ev_context = Some 1\<rparr>"
  define b where "b = \<lparr>event_type = WISH_EVENT_NEW_DATA, ev_context = Some 2\<rparr>"
  have n: "length (replicate 40 a @ [b]) = 41" by simp
  have "drop 40 (replicate 40 a @ [b]) @ drop (41 - 40) (replicate 40 a @ [b])
      = [b] @ replicate 39 a @ [b]" by simp
  with event_queue_overflow [of "replicate 40 a @ [b]" a] show ?thesis
    unfolding Let_def a_def [symmetric] b_def [symmetric] n by simp
qed

section \<open>How long the returned pointer is good\<close>

definition notify_all :: "wish_event list \<Rightarrow> evq \<Rightarrow> evq" where
  "notify_all es q = fold notify es q"

lemma evq_log_notify_all: "evq_log q W r \<Longrightarrow> evq_log (notify_all es q) (W @ es) r"
proof (induction es arbitrary: q W)
  case (Cons e es)
  from Cons.IH [OF evq_log_notify [OF Cons.prems]] show ?case by (simp add: notify_all_def)
qed (simp add: notify_all_def)

lemma pointer_after_posts:
  assumes q: "evq_ok q" and get: "get_next_event q = (Some slot, q')"
  shows "num_curr_events q' + int (length es) < 40 \<Longrightarrow>
           events (notify_all es q') ! slot = events q' ! slot"
    and "num_curr_events q' + int (length es) = 39 \<Longrightarrow>
           events (notify_all (es @ [e]) q') ! slot = e"
proof -
  from q obtain W r where l: "evq_log q W r" "length W \<le> r + 40" by (auto simp: evq_ok_def)
  have r: "r < length W"
    using evq_log_get(1) [OF l(1)] get l(1) by (cases "r = length W") (auto simp: evq_log_def)
  with evq_log_get(2) [OF l(1) r] get have
    slot: "slot = r mod 40" and l': "evq_log q' W (Suc r)" and ev: "events q' = events q" by auto
  have old: "events q' ! slot = W ! r"
    using l r slot ev by (simp add: evq_log_def)
  have num: "num_curr_events q' = int (length W) - int (Suc r)" using l' by (simp add: evq_log_def)
  note new = evq_log_notify_all [OF l']
  show "events (notify_all es q') ! slot = events q' ! slot"
    if "num_curr_events q' + int (length es) < 40"
  proof -
    have "length (W @ es) \<le> r + 40" using that num by simp
    with new [of es] r have "events (notify_all es q') ! (r mod 40) = (W @ es) ! r"
      unfolding evq_log_def by simp
    with old slot r show ?thesis by (simp add: nth_append)
  qed
  show "events (notify_all (es @ [e]) q') ! slot = e"
    if "num_curr_events q' + int (length es) = 39"
  proof -
    have i: "length (W @ es) = r + 40" using that num by simp
    then have "events (notify_all (es @ [e]) q') ! ((r + 40) mod 40) = (W @ es @ [e]) ! (r + 40)"
      using evq_log_entry [OF new [of "es @ [e]"], of "r + 40"] by simp
    also have "\<dots> = ((W @ es) @ [e]) ! length (W @ es)" using i by simp
    finally show ?thesis using slot by (simp only: mod_add_self2 nth_append_length)
  qed
qed

text \<open>
  Property C27. The consumer holds a pointer into the ring.  While it handles the event,
  further posts leave the pointed-to event alone as long as the events outstanding and the
  new ones together stay below 40; the post that makes it 40 overwrites it.
\<close>

theorem event_pointer_stable:
  assumes "evq_ok q" and "get_next_event q = (Some slot, q')"
  shows "(num_curr_events q' + int (length es) < 40 \<longrightarrow>
            events (notify_all es q') ! slot = events q' ! slot) \<and>
         (num_curr_events q' + int (length es) = 39 \<longrightarrow>
            events (notify_all (es @ [e]) q') ! slot = e)"
  using pointer_after_posts [OF assms] by blast

theorem event_pointer_stable_witness:
  "let z = \<lparr>event_type = WISH_EVENT_NEW_DATA, ev_context = None\<rparr>;
       q = notify z (evq_init z) in
   get_next_event q = (Some 0, snd (get_next_event q)) \<and>
   events (notify_all (replicate 39 z @ [z\<lparr>ev_context := Some 3\<rparr>]) (snd (get_next_event q))) ! 0
     = z\<lparr>ev_context := Some 3\<rparr>"
proof -
  define z where "z = \<lparr>event_type = WISH_EVENT_NEW_DATA, ev_context = None\<rparr>"
  define q where "q = notify z (evq_init z)"
  have ok: "evq_ok q"
    unfolding q_def by (rule evq.enq_inv) (simp_all add: evq_ok_init)
  have get: "get_next_event q = (Some 0, snd (get_next_event q))"
    and num: "num_curr_events (snd (get_next_event q)) = 0"
    by (simp_all add: q_def notify_def evq_init_def get_next_event_def)
  show ?thesis
    using event_pointer_stable [OF ok get, of "replicate 39 z" "z\<lparr>ev_context := Some 3\<rparr>"] num get
    unfolding Let_def z_def [symmetric] q_def [symmetric] by simp
qed

end
