(* ===== verification/Port_State.thy ===== *)
theory Port_State
  imports Inet_Aton Event_Queue
begin

text \<open>
  The state of the port layer: the globals and static variables of the files under
  \<open>source/mist_port\<close>, the fields of the Wish core that they read or write, the blocks
  obtained from malloc, and a log of the calls made to the world outside.  The socket
  library of the WLAN chip, the Wish core and the linked-list macros are not part of the
  repository: they are the fields of the record \<open>env\<close>, an argument of every operation that
  uses them.  The periodic work of the sensor application is a field too, since that
  application keeps its own state (theory \<open>Xdk_Sensors\<close>).  A function of the Wish core may change
  the whole state; what a theorem needs of it is a hypothesis of that theorem.  An operation
  of the port yields \<open>None\<close> where the C program has undefined behaviour: a NULL or
  dangling pointer is used, a block is freed twice, or a buffer is overrun.
\<close>

section \<open>Data\<close>

type_synonym ptr = nat

datatype addr_family = AF_INET | AF_OTHER int
datatype sock_type = SOCK_STREAM | SOCK_DGRAM

record sockaddr_in =
  sin_family :: addr_family
  sin_port :: u16
  sin_addr :: u32

definition INADDR_ANY :: u32 where
  "INADDR_ANY = 0"

datatype wish_ip_addr = Ip byte byte byte byte

text \<open>The enumerations of the Wish core, with the values that the port names.\<close>

datatype context_state = WISH_CONTEXT_FREE | WISH_CONTEXT_CLOSING | CONTEXT_OTHER nat
datatype transport_state = TRANSPORT_STATE_CONNECTING | TRANSPORT_OTHER nat
datatype tcp_event =
  TCP_CONNECTED | TCP_RELAY_SESSION_CONNECTED | TCP_DISCONNECTED | TCP_CLIENT_CONNECTED
datatype relay_state =
  WISH_RELAY_CLIENT_INITIAL | WISH_RELAY_CLIENT_CONNECTING | WISH_RELAY_CLIENT_WAIT_RECONNECT
| WISH_RELAY_CLIENT_RESOLVING | WISH_RELAY_CLIENT_OPEN | RELAY_OTHER nat

text \<open>
  \<open>struct xdk_send_arg\<close> of \<open>port_net.h\<close>, and of the core's structures the fields that
  the port uses.  \<open>ctx_core\<close> says that the connection's back pointer is set to the core,
  \<open>relay_send_set\<close> that the relay's send function is relay_send.
\<close>

record xdk_send_arg =
  sock_fd :: int
  remote_addr :: sockaddr_in

record wish_connection =
  context_state :: context_state
  curr_transport_state :: transport_state
  send_arg :: "ptr option"
  via_relay :: bool
  ctx_core :: bool

record wish_relay_client =
  curr_state :: relay_state
  sockfd :: int
  relay_port :: u16
  relay_host :: string
  relay_uid :: "byte list"
  relay_send_set :: bool

record wish_core =
  connection_pool :: "wish_connection list"
  relay_db :: "wish_relay_client list"
  wish_server_port :: u16
  num_ids :: int
  config_skip_connection_acl :: bool

datatype ipc_event_type = EVENT_UNKNOWN | EVENT_APP_TO_CORE | EVENT_CORE_TO_APP

record ipc_event =
  ie_type :: ipc_event_type
  ie_app :: "nat option"
  ie_data :: "byte list"
  ie_len :: nat
  ie_ptr :: ptr
  ie_data_ptr :: ptr

section \<open>Calls to the outside\<close>

datatype call =
  CSocket sock_type int | CNonblock int | CConnect int sockaddr_in int | CBind int sockaddr_in
| CListen int int | CAccept int int | CRecv int nat int | CRecvFrom int nat int
| CSend int "byte list" | CSendTo int "byte list" sockaddr_in | CClose int | CRxAggrOff
| CFree ptr | CSignal nat tcp_event | CRegisterSend nat ptr | CFeed nat "byte list"
| CLdiscoverFeed wish_ip_addr u16 "byte list"
| CRelayConnected nat | CRelayConnectFail nat | CRelayDisconnect nat | CRelayFeed nat byte
| CRelayPeriodic nat | CRingBufferInit nat
| CTimeReport | CSensorsPeriodic
| CAppToCore "byte list" "byte list" | CCoreToApp "nat option" "byte list"

record 'x port =
  core :: wish_core
  live :: "ptr set"
  heap :: "ptr \<Rightarrow> xdk_send_arg"
  next_ptr :: ptr
  port_evq :: evq
  serverfd :: int
  wld_fd :: int
  wld_bcast_sock :: int
  sockaddr_wld :: sockaddr_in
  port_relay_ip :: wish_ip_addr
  max_fd :: int
  timestamp :: int
  periodic_timestamp :: int
  ipc_event_queue :: "ipc_event list"
  ipc_core_set :: bool
  calls :: "call list"
  world :: 'x

record 'x env =
  x_malloc :: "'x \<Rightarrow> bool \<times> 'x"
  x_uninit :: "'x \<Rightarrow> xdk_send_arg"
  x_socket :: "sock_type \<Rightarrow> 'x \<Rightarrow> int \<times> 'x"
  x_connect :: "int \<Rightarrow> sockaddr_in \<Rightarrow> 'x \<Rightarrow> int \<times> 'x"
  x_accept :: "int \<Rightarrow> 'x \<Rightarrow> int \<times> 'x"
  x_recv :: "int \<Rightarrow> nat \<Rightarrow> 'x \<Rightarrow> (int \<times> byte list) \<times> 'x"
  x_recvfrom :: "int \<Rightarrow> nat \<Rightarrow> sockaddr_in \<Rightarrow> 'x \<Rightarrow> (int \<times> byte list \<times> sockaddr_in) \<times> 'x"
  x_send :: "int \<Rightarrow> byte list \<Rightarrow> 'x \<Rightarrow> int \<times> 'x"
  x_select :: "int \<Rightarrow> int set \<Rightarrow> int set \<Rightarrow> 'x \<Rightarrow> (int \<times> int set \<times> int set) \<times> 'x"
  x_tick :: "'x \<Rightarrow> u32 \<times> 'x"
  x_ip_settings :: "'x \<Rightarrow> u32 option \<times> 'x"
  x_ipv4_byte :: "u32 \<Rightarrow> nat \<Rightarrow> byte"
  x_ipv4_value :: "wish_ip_addr \<Rightarrow> u32"
  sl_ealready :: int
  fd_setsize :: int
  port_tick_rate_ms :: u32
  x_parse_transport_ip :: "string \<Rightarrow> wish_ip_addr option"
  x_app_find_by_wsid :: "byte list \<Rightarrow> 'x \<Rightarrow> nat option"
  x_app_wsid :: "nat \<Rightarrow> 'x \<Rightarrow> byte list"
  x_ll_append :: "ipc_event list \<Rightarrow> ipc_event \<Rightarrow> ipc_event list"
  x_ll_delete :: "ipc_event list \<Rightarrow> ipc_event \<Rightarrow> ipc_event list"
  x_signal :: "nat \<Rightarrow> tcp_event \<Rightarrow> 'x port \<Rightarrow> 'x port"
  x_register_send :: "nat \<Rightarrow> ptr \<Rightarrow> 'x port \<Rightarrow> 'x port"
  x_rx_buffer_free :: "nat \<Rightarrow> 'x port \<Rightarrow> int"
  x_feed :: "nat \<Rightarrow> byte list \<Rightarrow> 'x port \<Rightarrow> 'x port"
  x_connection_init :: "'x port \<Rightarrow> nat option \<times> 'x port"
  x_ldiscover_feed :: "wish_ip_addr \<Rightarrow> u16 \<Rightarrow> byte list \<Rightarrow> 'x port \<Rightarrow> 'x port"
  x_relay_connected :: "nat \<Rightarrow> 'x port \<Rightarrow> 'x port"
  x_relay_connect_fail :: "nat \<Rightarrow> 'x port \<Rightarrow> 'x port"
  x_relay_disconnect :: "nat \<Rightarrow> 'x port \<Rightarrow> 'x port"
  x_relay_feed :: "nat \<Rightarrow> byte \<Rightarrow> 'x port \<Rightarrow> 'x port"
  x_relay_periodic :: "nat \<Rightarrow> 'x port \<Rightarrow> 'x port"
  x_processor :: "nat \<Rightarrow> 'x port \<Rightarrow> 'x port"
  x_time_report :: "'x port \<Rightarrow> 'x port"
  x_sensors_periodic :: "'x port \<Rightarrow> 'x port"
  x_app_to_core :: "bool \<Rightarrow> byte list \<Rightarrow> byte list \<Rightarrow> 'x port \<Rightarrow> 'x port"
  x_core_to_app :: "nat option \<Rightarrow> byte list \<Rightarrow> 'x port \<Rightarrow> 'x port"

section \<open>Elementary steps\<close>

definition log_call :: "call \<Rightarrow> 'x port \<Rightarrow> 'x port" where
  "log_call c s = s\<lparr>calls := calls s @ [c]\<rparr>"

definition sl_close :: "int \<Rightarrow> 'x port \<Rightarrow> 'x port" where
  "sl_close fd s = log_call (CClose fd) s"

definition sl_socket :: "'x env \<Rightarrow> sock_type \<Rightarrow> 'x port \<Rightarrow> int \<times> 'x port" where
  "sl_socket E t s = (case x_socket E t (world s) of
     (fd, w) \<Rightarrow> (fd, log_call (CSocket t fd) (s\<lparr>world := w\<rparr>)))"

definition sl_connect :: "'x env \<Rightarrow> int \<Rightarrow> sockaddr_in \<Rightarrow> 'x port \<Rightarrow> int \<times> 'x port" where
  "sl_connect E fd a s = (case x_connect E fd a (world s) of
     (r, w) \<Rightarrow> (r, log_call (CConnect fd a r) (s\<lparr>world := w\<rparr>)))"

definition sl_accept :: "'x env \<Rightarrow> int \<Rightarrow> 'x port \<Rightarrow> int \<times> 'x port" where
  "sl_accept E fd s = (case x_accept E fd (world s) of
     (r, w) \<Rightarrow> (r, log_call (CAccept fd r) (s\<lparr>world := w\<rparr>)))"

definition sl_recv :: "'x env \<Rightarrow> int \<Rightarrow> nat \<Rightarrow> 'x port \<Rightarrow> (int \<times> byte list) \<times> 'x port" where
  "sl_recv E fd n s = (case x_recv E fd n (world s) of
     ((r, bs), w) \<Rightarrow> ((r, bs), log_call (CRecv fd n r) (s\<lparr>world := w\<rparr>)))"

definition sl_send :: "'x env \<Rightarrow> int \<Rightarrow> byte list \<Rightarrow> 'x port \<Rightarrow> int \<times> 'x port" where
  "sl_send E fd bs s = (case x_send E fd bs (world s) of
     (r, w) \<Rightarrow> (r, log_call (CSend fd bs) (s\<lparr>world := w\<rparr>)))"

text \<open>
  malloc and free.  A fresh block never was handed out before; its contents are
  unspecified.  \<open>load\<close> and \<open>store\<close> go through a pointer that may be NULL or dangling.
\<close>

definition malloc :: "'x env \<Rightarrow> 'x port \<Rightarrow> ptr option \<times> 'x port" where
  "malloc E s = (case x_malloc E (world s) of
     (ok, w) \<Rightarrow>
       if ok then (Some (next_ptr s),
                   s\<lparr>world := w, live := insert (next_ptr s) (live s),
                     heap := (heap s)(next_ptr s := x_uninit E (world s)),
                     next_ptr := Suc (next_ptr s)\<rparr>)
       else (None, s\<lparr>world := w\<rparr>))"

definition free :: "ptr option \<Rightarrow> 'x port \<Rightarrow> 'x port option" where
  "free q s = (case q of
     None \<Rightarrow> Some s
   | Some p \<Rightarrow> if p \<in> live s then Some (log_call (CFree p) (s\<lparr>live := live s - {p}\<rparr>)) else None)"

definition load :: "ptr option \<Rightarrow> 'x port \<Rightarrow> xdk_send_arg option" where
  "load q s = (case q of None \<Rightarrow> None | Some p \<Rightarrow> if p \<in> live s then Some (heap s p) else None)"

definition store :: "ptr option \<Rightarrow> (xdk_send_arg \<Rightarrow> xdk_send_arg) \<Rightarrow> 'x port \<Rightarrow> 'x port option" where
  "store q f s = (case q of
     None \<Rightarrow> None
   | Some p \<Rightarrow> if p \<in> live s then Some (s\<lparr>heap := (heap s)(p := f (heap s p))\<rparr>) else None)"

section \<open>Access to the core's tables\<close>

definition conn :: "nat \<Rightarrow> 'x port \<Rightarrow> wish_connection" where
  "conn i s = connection_pool (core s) ! i"

definition upd_conn :: "nat \<Rightarrow> (wish_connection \<Rightarrow> wish_connection) \<Rightarrow> 'x port \<Rightarrow> 'x port" where
  "upd_conn i f s = s\<lparr>core := (core s)\<lparr>connection_pool :=
     (connection_pool (core s))[i := f (connection_pool (core s) ! i)]\<rparr>\<rparr>"

definition relay :: "nat \<Rightarrow> 'x port \<Rightarrow> wish_relay_client" where
  "relay j s = relay_db (core s) ! j"

definition upd_relay :: "nat \<Rightarrow> (wish_relay_client \<Rightarrow> wish_relay_client) \<Rightarrow> 'x port \<Rightarrow> 'x port" where
  "upd_relay j f s = s\<lparr>core := (core s)\<lparr>relay_db :=
     (relay_db (core s))[j := f (relay_db (core s) ! j)]\<rparr>\<rparr>"

text \<open>A call to the core: it is logged, then the core does what it does.\<close>

definition signal :: "'x env \<Rightarrow> nat \<Rightarrow> tcp_event \<Rightarrow> 'x port \<Rightarrow> 'x port" where
  "signal E i ev s = x_signal E i ev (log_call (CSignal i ev) s)"

text \<open>What the port posts to itself through the event queue.\<close>

definition post :: "wish_event \<Rightarrow> 'x port \<Rightarrow> 'x port" where
  "post ev s = s\<lparr>port_evq := notify ev (port_evq s)\<rparr>"

section \<open>Rules for the elementary steps\<close>

lemma sockaddr_full [simp]:
  "a\<lparr>sin_family := f, sin_addr := v, sin_port := p\<rparr> = \<lparr>sin_family = f, sin_port = p, sin_addr = v\<rparr>"
  by (cases a) simp

lemma log_call_simps [simp]:
  "core (log_call c s) = core s" "live (log_call c s) = live s" "heap (log_call c s) = heap s"
  "next_ptr (log_call c s) = next_ptr s" "port_evq (log_call c s) = port_evq s"
  "max_fd (log_call c s) = max_fd s" "world (log_call c s) = world s"
  "serverfd (log_call c s) = serverfd s" "wld_fd (log_call c s) = wld_fd s"
  "wld_bcast_sock (log_call c s) = wld_bcast_sock s"
  "port_relay_ip (log_call c s) = port_relay_ip s"
  "sockaddr_wld (log_call c s) = sockaddr_wld s"
  "timestamp (log_call c s) = timestamp s" "periodic_timestamp (log_call c s) = periodic_timestamp s"
  "ipc_event_queue (log_call c s) = ipc_event_queue s" "ipc_core_set (log_call c s) = ipc_core_set s"
  "calls (log_call c s) = calls s @ [c]"
  by (simp_all add: log_call_def)

lemma conn_frames [simp]:
  "conn i (log_call c s) = conn i s" "relay j (log_call c s) = relay j s"
  "conn i (s\<lparr>world := v_world\<rparr>) = conn i s" "relay j (s\<lparr>world := v_world\<rparr>) = relay j s"
  "conn i (s\<lparr>live := v_live\<rparr>) = conn i s" "relay j (s\<lparr>live := v_live\<rparr>) = relay j s"
  "conn i (s\<lparr>heap := v_heap\<rparr>) = conn i s" "relay j (s\<lparr>heap := v_heap\<rparr>) = relay j s"
  "conn i (s\<lparr>next_ptr := v_next_ptr\<rparr>) = conn i s" "relay j (s\<lparr>next_ptr := v_next_ptr\<rparr>) = relay j s"
  "conn i (s\<lparr>port_evq := v_port_evq\<rparr>) = conn i s" "relay j (s\<lparr>port_evq := v_port_evq\<rparr>) = relay j s"
  "conn i (s\<lparr>max_fd := v_max_fd\<rparr>) = conn i s" "relay j (s\<lparr>max_fd := v_max_fd\<rparr>) = relay j s"
  "conn i (s\<lparr>port_relay_ip := v_port_relay_ip\<rparr>) = conn i s" "relay j (s\<lparr>port_relay_ip := v_port_relay_ip\<rparr>) = relay j s"
  "conn i (s\<lparr>ipc_event_queue := v_ipc_event_queue\<rparr>) = conn i s" "relay j (s\<lparr>ipc_event_queue := v_ipc_event_queue\<rparr>) = relay j s"
  "conn i (s\<lparr>serverfd := v_serverfd\<rparr>) = conn i s" "relay j (s\<lparr>serverfd := v_serverfd\<rparr>) = relay j s"
  "conn i (s\<lparr>wld_fd := v_wld_fd\<rparr>) = conn i s" "relay j (s\<lparr>wld_fd := v_wld_fd\<rparr>) = relay j s"
  "conn i (s\<lparr>wld_bcast_sock := v_wld_bcast_sock\<rparr>) = conn i s" "relay j (s\<lparr>wld_bcast_sock := v_wld_bcast_sock\<rparr>) = relay j s"
  "conn i (s\<lparr>sockaddr_wld := v_sockaddr_wld\<rparr>) = conn i s" "relay j (s\<lparr>sockaddr_wld := v_sockaddr_wld\<rparr>) = relay j s"
  "conn i (s\<lparr>timestamp := v_timestamp\<rparr>) = conn i s" "relay j (s\<lparr>timestamp := v_timestamp\<rparr>) = relay j s"
  "conn i (s\<lparr>periodic_timestamp := v_periodic_timestamp\<rparr>) = conn i s" "relay j (s\<lparr>periodic_timestamp := v_periodic_timestamp\<rparr>) = relay j s"
  "conn i (upd_relay j g s) = conn i s" "relay j (upd_conn i f s) = relay j s"
  by (simp_all add: conn_def relay_def upd_conn_def upd_relay_def)

lemma upd_conn_simps [simp]:
  "live (upd_conn i f s) = live s" "heap (upd_conn i f s) = heap s" "world (upd_conn i f s) = world s"
  "next_ptr (upd_conn i f s) = next_ptr s" "calls (upd_conn i f s) = calls s"
  "max_fd (upd_conn i f s) = max_fd s" "port_evq (upd_conn i f s) = port_evq s"
  "length (connection_pool (core (upd_conn i f s))) = length (connection_pool (core s))"
  by (simp_all add: upd_conn_def)

lemma upd_relay_simps [simp]:
  "live (upd_relay i f s) = live s" "heap (upd_relay i f s) = heap s" "world (upd_relay i f s) = world s"
  "next_ptr (upd_relay i f s) = next_ptr s" "calls (upd_relay i f s) = calls s"
  "max_fd (upd_relay i f s) = max_fd s" "port_evq (upd_relay i f s) = port_evq s"
  "port_relay_ip (upd_relay i f s) = port_relay_ip s"
  "length (relay_db (core (upd_relay i f s))) = length (relay_db (core s))"
  by (simp_all add: upd_relay_def)

lemma conn_upd_conn [simp]:
  "i < length (connection_pool (core s)) \<Longrightarrow> conn i (upd_conn i f s) = f (conn i s)"
  "i \<noteq> k \<Longrightarrow> conn k (upd_conn i f s) = conn k s"
  by (simp_all add: conn_def upd_conn_def)

lemma relay_upd_relay [simp]:
  "j < length (relay_db (core s)) \<Longrightarrow> relay j (upd_relay j f s) = f (relay j s)"
  "j \<noteq> k \<Longrightarrow> relay k (upd_relay j f s) = relay k s"
  by (simp_all add: relay_def upd_relay_def)

text \<open>
  The blocks that are live have been handed out: a fresh block is none of them.
\<close>

definition heap_ok :: "'x port \<Rightarrow> bool" where
  "heap_ok s \<longleftrightarrow> (\<forall>p \<in> live s. p < next_ptr s)"

lemma malloc_fresh:
  "heap_ok s \<Longrightarrow> malloc E s = (Some p, s') \<Longrightarrow> p \<notin> live s \<and> live s' = insert p (live s) \<and> heap_ok s'"
  by (auto simp: malloc_def heap_ok_def less_Suc_eq split: prod.splits if_splits)

lemma free_live: "free (Some p) s = Some s' \<Longrightarrow> p \<in> live s \<and> live s' = live s - {p}"
  by (auto simp: free_def split: if_splits)

text \<open>
  Functions of the core that only add to the log, and the ones that also leave the blocks
  alone.
\<close>

definition log_grows :: "('x port \<Rightarrow> 'x port) \<Rightarrow> bool" where
  "log_grows f \<longleftrightarrow> (\<forall>s. \<exists>cs. calls (f s) = calls s @ cs)"

end
