(* ===== verification/Sample_Env.thy ===== *)
theory Sample_Env
  imports Port_State
begin

text \<open>
  A concrete environment and a concrete start state, in which the hypotheses of the theorems
  about the port are tried out.  They model no code: a device whose allocations and socket
  calls all succeed, and a core with two connection contexts and one relay.
\<close>

definition sample_addr :: sockaddr_in where
  "sample_addr = \<lparr>sin_family = AF_INET, sin_port = 0, sin_addr = 0\<rparr>"

definition sample_env :: "'x env" where
  "sample_env = \<lparr>
     x_malloc = (\<lambda>w. (True, w)),
     x_uninit = (\<lambda>w. \<lparr>sock_fd = 0, remote_addr = sample_addr\<rparr>),
     x_socket = (\<lambda>t w. (5, w)),
     x_connect = (\<lambda>fd a w. (-114, w)),
     x_accept = (\<lambda>fd w. (7, w)),
     x_recv = (\<lambda>fd n w. ((0, []), w)),
     x_recvfrom = (\<lambda>fd n a w. ((-1, [], a), w)),
     x_send = (\<lambda>fd bs w. (int (length bs), w)),
     x_select = (\<lambda>m r wr w. ((0, {}, {}), w)),
     x_tick = (\<lambda>w. (0, w)),
     x_ip_settings = (\<lambda>w. (None, w)),
     x_ipv4_byte = (\<lambda>a k. ucast (drop_bit (8 * k) a)),
     x_ipv4_value = (\<lambda>ip. 0),
     sl_ealready = -114, fd_setsize = 16,
     port_tick_rate_ms = 1,
     x_parse_transport_ip = (\<lambda>s. None),
     x_app_find_by_wsid = (\<lambda>u w. None),
     x_app_wsid = (\<lambda>a w. []),
     x_ll_append = (\<lambda>xs x. xs @ [x]),
     x_ll_delete = (\<lambda>xs x. remove1 x xs),
     x_signal = (\<lambda>i ev s. if ev = TCP_DISCONNECTED
                   then upd_conn i (\<lambda>c. c\<lparr>send_arg := None, context_state := WISH_CONTEXT_FREE\<rparr>) s else s),
     x_register_send = (\<lambda>i p. upd_conn i (\<lambda>c. c\<lparr>send_arg := Some p\<rparr>)),
     x_rx_buffer_free = (\<lambda>i s. 1024),
     x_feed = (\<lambda>i bs s. s),
     x_connection_init = (\<lambda>s. (None, s)),
     x_ldiscover_feed = (\<lambda>ip p bs s. s),
     x_relay_connected = (\<lambda>j s. s),
     x_relay_connect_fail = (\<lambda>j s. s),
     x_relay_disconnect = (\<lambda>j s. s),
     x_relay_feed = (\<lambda>j b s. s),
     x_relay_periodic = (\<lambda>j s. s),
     x_processor = (\<lambda>k s. s),
     x_time_report = (\<lambda>s. s),
     x_sensors_periodic = (\<lambda>s. s),
     x_app_to_core = (\<lambda>k u d s. s),
     x_core_to_app = (\<lambda>a d s. s)\<rparr>"

definition sample_conn :: wish_connection where
  "sample_conn = \<lparr>context_state = CONTEXT_OTHER 2, curr_transport_state = TRANSPORT_OTHER 0,
     send_arg = None, via_relay = False, ctx_core = False\<rparr>"

definition sample_relay :: wish_relay_client where
  "sample_relay = \<lparr>curr_state = WISH_RELAY_CLIENT_INITIAL, sockfd = 0, relay_port = 40000,
     relay_host = [], relay_uid = [], relay_send_set = False\<rparr>"

definition sample_core :: wish_core where
  "sample_core = \<lparr>connection_pool = [sample_conn, sample_conn], relay_db = [sample_relay],
     wish_server_port = 37008, num_ids = 0, config_skip_connection_acl = False\<rparr>"

definition sample_event :: wish_event where
  "sample_event = \<lparr>event_type = WISH_EVENT_OTHER 0, ev_context = None\<rparr>"

definition sample_port :: "'x \<Rightarrow> 'x port" where
  "sample_port w = \<lparr>core = sample_core, live = {}, heap = (\<lambda>p. \<lparr>sock_fd = 0, remote_addr = sample_addr\<rparr>),
     next_ptr = 0, port_evq = evq_init sample_event, serverfd = 0, wld_fd = 0, wld_bcast_sock = 0,
     sockaddr_wld = sample_addr, port_relay_ip = Ip 0 0 0 0, max_fd = 0, timestamp = 0,
     periodic_timestamp = 0, ipc_event_queue = [], ipc_core_set = False, calls = [], world = w\<rparr>"

lemmas sample_simps = sample_env_def sample_port_def sample_core_def sample_conn_def sample_relay_def
  sample_addr_def

end
