(* ===== verification/Port_Net.thy ===== *)
theory Port_Net
  imports Sample_Env
begin

text \<open>
  \<open>source/mist_port/port_net.c\<close>: opening, closing and writing the TCP connections of the
  Wish core, the TCP server socket, the UDP sockets of the local discovery and the text form
  of the local address.  The functions keep their names.  Diagnostic output is left out.  A
  connection context is named by its index in the core's connection pool.
\<close>

section \<open>Text form of an address\<close>

text \<open>
  \<open>quad_text\<close> is what the formats \<open>"%d.%d.%d.%d"\<close> and \<open>"%i.%i.%i.%i"\<close> print for four
  bytes.  \<open>snprintf n\<close> leaves the text cut to \<open>n - 1\<close> characters in a buffer of size \<open>n\<close>
  (and does not touch a buffer of size 0); \<open>sprintf n\<close> into a buffer of size \<open>n\<close> is undefined when the text
  and its NUL do not fit.
\<close>

fun quad_text :: "wish_ip_addr \<Rightarrow> string" where
  "quad_text (Ip a b c d) =
     dec (unat a) @ CHR ''.'' # dec (unat b) @ CHR ''.'' # dec (unat c) @ CHR ''.'' # dec (unat d)"

definition snprintf :: "nat \<Rightarrow> string \<Rightarrow> string option" where
  "snprintf n txt = (if n = 0 then None else Some (take (n - 1) txt))"

definition sprintf :: "nat \<Rightarrow> string \<Rightarrow> string option" where
  "sprintf n txt = (if length txt < n then Some txt else None)"

fun ip_bytes :: "wish_ip_addr \<Rightarrow> byte list" where
  "ip_bytes (Ip a b c d) = [a, b, c, d]"

text \<open>
  inet_aton into a field that holds \<open>old\<close>; the returned int is not looked at.  The scratch
  array is taken to be zero, which makes no difference (theorem \<open>inet_aton_total\<close>).
\<close>

definition aton_into :: "string \<Rightarrow> u32 \<Rightarrow> u32" where
  "aton_into txt old = (case inet_aton (replicate 4 0) txt (Some old) of
     Some (_, Some v) \<Rightarrow> v | _ \<Rightarrow> old)"

definition ntohs :: "u16 \<Rightarrow> u16" where
  "ntohs x = htons x"

section \<open>Opening and closing connections\<close>

definition socket_set_nonblocking :: "int \<Rightarrow> 'x port \<Rightarrow> 'x port" where
  "socket_set_nonblocking fd s = log_call (CNonblock fd) s"

definition connected_cb :: "'x env \<Rightarrow> nat \<Rightarrow> 'x port \<Rightarrow> 'x port" where
  "connected_cb E i s = signal E i TCP_CONNECTED s"

definition connected_cb_relay :: "'x env \<Rightarrow> nat \<Rightarrow> 'x port \<Rightarrow> 'x port" where
  "connected_cb_relay E i s = signal E i TCP_RELAY_SESSION_CONNECTED s"

definition connect_fail_cb :: "'x env \<Rightarrow> nat \<Rightarrow> 'x port \<Rightarrow> 'x port option" where
  "connect_fail_cb E i s = do {
     s \<leftarrow> (if send_arg (conn i s) \<noteq> None then do {
             a \<leftarrow> load (send_arg (conn i s)) s;
             free (send_arg (conn i s)) (sl_close (sock_fd a) s)
           } else Some s);
     Some (signal E i TCP_DISCONNECTED s)
   }"

definition wish_open_connection_dns :: "nat \<Rightarrow> string \<Rightarrow> u16 \<Rightarrow> bool \<Rightarrow> 'x port \<Rightarrow> int \<times> 'x port" where
  "wish_open_connection_dns i host port relaying s = (0, s)"

text \<open>
  wish_open_connection does not stop when malloc fails: it goes on to use the NULL pointer.
\<close>

definition wish_open_connection ::
  "'x env \<Rightarrow> nat \<Rightarrow> wish_ip_addr \<Rightarrow> u16 \<Rightarrow> bool \<Rightarrow> 'x port \<Rightarrow> (int \<times> 'x port) option" where
  "wish_open_connection E i ip port relaying s0 = do {
     let s = upd_conn i (\<lambda>c. c\<lparr>ctx_core := True\<rparr>) s0;
     let (p, s) = malloc E s;
     let (fd, s) = sl_socket E SOCK_STREAM s;
     s \<leftarrow> store p (\<lambda>a. a\<lparr>sock_fd := fd\<rparr>) s;
     if fd < 0 then Some (1, s)
     else do {
       let s = socket_set_nonblocking fd s;
       q \<leftarrow> p;
       let s = x_register_send E i q (log_call (CRegisterSend i q) s);
       s \<leftarrow> store p (\<lambda>a. a\<lparr>remote_addr := (remote_addr a)\<lparr>sin_family := AF_INET\<rparr>\<rparr>) s;
       ip_str \<leftarrow> snprintf 20 (quad_text ip);
       s \<leftarrow> store p (\<lambda>a. a\<lparr>remote_addr := (remote_addr a)
              \<lparr>sin_addr := aton_into ip_str (sin_addr (remote_addr a))\<rparr>\<rparr>) s;
       s \<leftarrow> store p (\<lambda>a. a\<lparr>remote_addr := (remote_addr a)\<lparr>sin_port := htons port\<rparr>\<rparr>) s;
       a \<leftarrow> load p s;
       let (ret, s) = sl_connect E fd (remote_addr a) s;
       let s = (if ret = sl_ealready E then
                  upd_conn i (\<lambda>c. c\<lparr>curr_transport_state := TRANSPORT_STATE_CONNECTING\<rparr>) s
                else if ret = 0 then
                  (if via_relay (conn i s) then connected_cb_relay E i s else connected_cb E i s)
                else s);
       Some (0, s)
     }
   }"

definition wish_close_connection :: "'x env \<Rightarrow> nat \<Rightarrow> 'x port \<Rightarrow> 'x port option" where
  "wish_close_connection E i s0 = do {
     let s = upd_conn i (\<lambda>c. c\<lparr>context_state := WISH_CONTEXT_CLOSING\<rparr>) s0;
     a \<leftarrow> load (send_arg (conn i s)) s;
     let s = (if sock_fd a \<ge> 0 then sl_close (sock_fd a) s else s);
     s \<leftarrow> free (send_arg (conn i s)) s;
     Some (signal E i TCP_DISCONNECTED s)
   }"

text \<open>The result is 0 whenever send took some of the bytes, even if not all of them.\<close>

definition write_to_socket :: "'x env \<Rightarrow> nat \<Rightarrow> byte list \<Rightarrow> 'x port \<Rightarrow> (int \<times> 'x port) option" where
  "write_to_socket E i buffer s = do {
     a \<leftarrow> load (send_arg (conn i s)) s;
     let (n, s) = sl_send E (sock_fd a) buffer s;
     Some (if n < 0 then 1 else 0, s)
   }"

section \<open>The server socket and the local discovery sockets\<close>

definition LOCAL_DISCOVERY_UDP_PORT :: u16 where
  "LOCAL_DISCOVERY_UDP_PORT = 9090"

definition get_server_fd :: "'x port \<Rightarrow> int" where
  "get_server_fd s = serverfd s"

definition get_wld_fd :: "'x port \<Rightarrow> int" where
  "get_wld_fd s = wld_fd s"

definition wish_get_host_port :: "'x port \<Rightarrow> u16" where
  "wish_get_host_port s = wish_server_port (core s)"

definition wish_set_host_port :: "u16 \<Rightarrow> 'x port \<Rightarrow> 'x port" where
  "wish_set_host_port p s = s\<lparr>core := (core s)\<lparr>wish_server_port := p\<rparr>\<rparr>"

text \<open>Every failure on the way is reported and then ignored.\<close>

definition setup_wish_server :: "'x env \<Rightarrow> 'x port \<Rightarrow> 'x port" where
  "setup_wish_server E s0 =
     (let (fd, s) = sl_socket E SOCK_STREAM s0;
          s = s\<lparr>serverfd := fd\<rparr>;
          s = socket_set_nonblocking (serverfd s) s;
          addr = \<lparr>sin_family = AF_INET, sin_port = htons (wish_get_host_port s), sin_addr = INADDR_ANY\<rparr>;
          s = log_call (CBind (serverfd s) addr) s
      in log_call (CListen (serverfd s) 1) s)"

definition setup_wish_local_discovery :: "'x env \<Rightarrow> 'x port \<Rightarrow> 'x port" where
  "setup_wish_local_discovery E s0 =
     (let (fd, s) = sl_socket E SOCK_DGRAM s0;
          s = s\<lparr>wld_fd := fd\<rparr>;
          s = socket_set_nonblocking (wld_fd s) s;
          s = log_call CRxAggrOff s;
          s = s\<lparr>sockaddr_wld := \<lparr>sin_family = AF_INET, sin_port = htons LOCAL_DISCOVERY_UDP_PORT,
                                 sin_addr = INADDR_ANY\<rparr>\<rparr>;
          s = log_call (CBind (wld_fd s) (sockaddr_wld s)) s;
          (bfd, s) = sl_socket E SOCK_DGRAM s;
          s = s\<lparr>wld_bcast_sock := bfd\<rparr>
      in log_call (CBind (wld_bcast_sock s)
           \<lparr>sin_family = AF_INET, sin_port = 0, sin_addr = 0\<rparr>) s)"

text \<open>
  The bytes of the sender's address are read off \<open>s_addr\<close> through a union, in memory order.
  The core is handed the buffer with the length that recvfrom answered; a length beyond the
  buffer's 1024 bytes would make it read past the end.
\<close>

fun ip_of_bytes :: "byte list \<Rightarrow> wish_ip_addr" where
  "ip_of_bytes [a, b, c, d] = Ip a b c d"
| "ip_of_bytes _ = Ip 0 0 0 0"

definition read_wish_local_discovery :: "'x env \<Rightarrow> 'x port \<Rightarrow> 'x port option" where
  "read_wish_local_discovery E s0 =
     (case x_recvfrom E (wld_fd s0) 1024 (sockaddr_wld s0) (world s0) of
        ((blen, buf, from), w) \<Rightarrow>
          let s = log_call (CRecvFrom (wld_fd s0) 1024 blen) (s0\<lparr>world := w, sockaddr_wld := from\<rparr>) in
          if blen > 0 then
            (if blen > 1024 then None
             else let ip = ip_of_bytes (memory_bytes (sin_addr from));
                      p = ntohs (sin_port from);
                      data = take (nat blen) buf
                  in Some (x_ldiscover_feed E ip p data (log_call (CLdiscoverFeed ip p data) s)))
          else Some s)"

definition cleanup_local_discovery :: "'x port \<Rightarrow> 'x port" where
  "cleanup_local_discovery s = sl_close (wld_bcast_sock s) (sl_close (wld_fd s) s)"

definition wish_send_advertizement :: "byte list \<Rightarrow> u32 \<Rightarrow> 'x port \<Rightarrow> int \<times> 'x port" where
  "wish_send_advertizement ad_msg stack_addr s =
     (let si_other = \<lparr>sin_family = AF_INET, sin_port = htons LOCAL_DISCOVERY_UDP_PORT,
                      sin_addr = aton_into ''255.255.255.255'' stack_addr\<rparr>
      in (0, log_call (CSendTo (wld_bcast_sock s) ad_msg si_other) s))"

definition wish_get_host_ip_str :: "'x env \<Rightarrow> nat \<Rightarrow> 'x port \<Rightarrow> (int \<times> string option) \<times> 'x port" where
  "wish_get_host_ip_str E addr_str_len s =
     (case x_ip_settings E (world s) of
        (st, w) \<Rightarrow>
          ((0, case st of
                 Some ip \<Rightarrow> snprintf addr_str_len
                   (quad_text (Ip (x_ipv4_byte E ip 3) (x_ipv4_byte E ip 2)
                                  (x_ipv4_byte E ip 1) (x_ipv4_byte E ip 0)))
               | None \<Rightarrow> snprintf addr_str_len ''127.0.0.1''),
           s\<lparr>world := w\<rparr>))"

section \<open>Addresses through their text form\<close>

text \<open>
  The port writes an address as text and reads it back with inet_aton whenever it fills in
  a socket address.  What it relies on: the text fits the buffer, and the bytes come back in
  memory order.
\<close>

locale addr_text =
  fixes show_ip :: "wish_ip_addr \<Rightarrow> string"
    and read_ip :: "string \<Rightarrow> u32 \<Rightarrow> u32"
    and size :: nat
  assumes fits: "length (show_ip ip) < size"
    and reads: "memory_bytes (read_ip (show_ip ip) old) = ip_bytes ip"
begin

lemma snprintf_whole: "size \<le> n \<Longrightarrow> snprintf n (show_ip ip) = Some (show_ip ip)"
  using fits [of ip] by (auto simp: snprintf_def)

lemma sprintf_whole: "size \<le> n \<Longrightarrow> sprintf n (show_ip ip) = Some (show_ip ip)"
  using fits [of ip] by (auto simp: sprintf_def)

lemma show_ip_inj: "show_ip ip = show_ip ip2 \<Longrightarrow> ip = ip2"
  using reads [of ip 0] reads [of ip2 0] by (cases ip; cases ip2) auto

end

lemma quad_text_dotted: "quad_text (Ip a b c d) = dotted (map unat [a, b, c, d])"
  by simp

definition net_addr :: "wish_ip_addr \<Rightarrow> u32" where
  "net_addr ip = (case ip of Ip a b c d \<Rightarrow> htonl (addr_word a b c d))"

lemma aton_into_quad: "aton_into (quad_text ip) old = net_addr ip"
proof (cases ip)
  case (Ip a b c d)
  from inet_aton_quad [of "[]" "replicate 4 0" a b c d old]
  show ?thesis
    unfolding Ip quad_text_dotted by (simp add: aton_into_def net_addr_def ends_text_def del: dotted.simps)
qed

lemma memory_bytes_net_addr: "memory_bytes (net_addr ip) = ip_bytes ip"
  by (cases ip) (simp add: net_addr_def memory_bytes_htonl_addr_word)

lemma ip_of_bytes_net_addr: "ip_of_bytes (memory_bytes (net_addr ip)) = ip"
  by (cases ip) (simp add: memory_bytes_net_addr)

lemma length_quad_text: "length (quad_text ip) < 16"
proof (cases ip)
  case (Ip a b c d)
  have "length (dec (unat x)) \<le> 3" for x :: byte by (rule length_dec_byte [OF unat_byte_less])
  from this [of a] this [of b] this [of c] this [of d] Ip show ?thesis by simp
qed

interpretation quad: addr_text quad_text aton_into 16
  by unfold_locales (simp_all add: length_quad_text aton_into_quad memory_bytes_net_addr)

text \<open>
  Property C23. Every IPv4 address survives the way through its text form: the 20-byte
  buffer of wish_open_connection and the 16-byte buffer of port_relay_client_open both hold
  the whole text, and inet_aton then stores exactly the four bytes in memory order, which is
  network byte order, whatever the field held before.
\<close>

theorem ip_text_roundtrip:
  "snprintf 20 (quad_text ip) = Some (quad_text ip) \<and>
   sprintf 16 (quad_text ip) = Some (quad_text ip) \<and>
   memory_bytes (aton_into (quad_text ip) old) = ip_bytes ip"
  by (simp add: quad.snprintf_whole quad.sprintf_whole quad.reads)

section \<open>What the core does when the port calls it\<close>

text \<open>
  wish_core_register_send stores the send function and its argument in the connection;
  signalling a TCP event touches the blocks of the port in no way, keeps the connections'
  arguments, and clears the argument of the connection that is reported disconnected (the
  clean-up that the comment in wish_close_connection counts on).
\<close>

definition register_send_stores :: "'x env \<Rightarrow> bool" where
  "register_send_stores E \<longleftrightarrow>
     (\<forall>i p s. x_register_send E i p s = upd_conn i (\<lambda>c. c\<lparr>send_arg := Some p\<rparr>) s)"

definition slots :: "'x port \<Rightarrow> ptr option list" where
  "slots s = map send_arg (connection_pool (core s))"

definition signal_contract :: "'x env \<Rightarrow> bool" where
  "signal_contract E \<longleftrightarrow> (\<forall>i ev s. let s' = x_signal E i ev s in
     live s' = live s \<and> next_ptr s' = next_ptr s \<and>
     slots s' = (if ev = TCP_DISCONNECTED then (slots s)[i := None] else slots s))"

lemma slots_frame [simp]:
  "slots (log_call c s) = slots s" "slots (s\<lparr>live := v\<rparr>) = slots s"
  "slots (s\<lparr>world := w\<rparr>) = slots s" "slots (s\<lparr>heap := h\<rparr>) = slots s"
  "slots (s\<lparr>next_ptr := n\<rparr>) = slots s"
  by (simp_all add: slots_def)

lemma length_slots: "length (slots s) = length (connection_pool (core s))"
  by (simp add: slots_def)

lemma slots_upd_conn [simp]: "slots (upd_conn i f s) = (slots s)[i := send_arg (f (conn i s))]"
  by (simp add: slots_def upd_conn_def conn_def map_update)

lemma slots_nth: "i < length (connection_pool (core s)) \<Longrightarrow> slots s ! i = send_arg (conn i s)"
  by (simp add: slots_def conn_def)

lemma slots_same [simp]: "(slots s)[i := send_arg (conn i s)] = slots s"
  by (cases "i < length (connection_pool (core s))") (simp_all add: slots_nth [symmetric] list_update_beyond length_slots)

lemma store_simps [port_step]:
  "store None f s = None"
  "p \<in> live s \<Longrightarrow> store (Some p) f s = Some (s\<lparr>heap := (heap s)(p := f (heap s p))\<rparr>)"
  "p \<notin> live s \<Longrightarrow> store (Some p) f s = None"
  by (simp_all add: store_def)

lemma load_simps [port_step]:
  "load None s = None"
  "p \<in> live s \<Longrightarrow> load (Some p) s = Some (heap s p)"
  "p \<notin> live s \<Longrightarrow> load (Some p) s = None"
  by (simp_all add: load_def)

lemma free_simps [port_step]:
  "free None s = Some s"
  "p \<in> live s \<Longrightarrow> free (Some p) s = Some (log_call (CFree p) (s\<lparr>live := live s - {p}\<rparr>))"
  "p \<notin> live s \<Longrightarrow> free (Some p) s = None"
  by (simp_all add: free_def)

section \<open>Opening a connection\<close>

text \<open>
  Property C13. When malloc and socket succeed, wish_open_connection stores a fresh block
  with the socket and the peer's address (the given IP and port in network byte order) in
  the connection, makes the socket nonblocking, and connects it to exactly that address. It
  answers 0 whatever connect answers: EALREADY leaves the connection waiting, an immediate
  success is signalled to the core at once, and any other answer leaves the connection as it
  is, with nothing signalled.
\<close>

theorem open_connection_result:
  fixes s0 :: "'x port"
  assumes "x_malloc E (world s0) = (True, w1)" and "x_socket E SOCK_STREAM w1 = (fd, w2)"
    and "0 \<le> fd" and "register_send_stores E"
    and "x_connect E fd \<lparr>sin_family = AF_INET, sin_port = htons port, sin_addr = net_addr ip\<rparr> w2 = (ret, w3)"
    and "i < length (connection_pool (core s0))"
  shows "\<exists>s1. wish_open_connection E i ip port relaying s0 = Some (0,
            if ret = sl_ealready E then
              upd_conn i (\<lambda>c. c\<lparr>curr_transport_state := TRANSPORT_STATE_CONNECTING\<rparr>) s1
            else if ret = 0 then
              (if via_relay (conn i s1) then connected_cb_relay E i s1 else connected_cb E i s1)
            else s1) \<and>
          conn i s1 = (conn i s0)\<lparr>ctx_core := True, send_arg := Some (next_ptr s0)\<rparr> \<and>
          heap s1 (next_ptr s0) = \<lparr>sock_fd = fd,
            remote_addr = \<lparr>sin_family = AF_INET, sin_port = htons port, sin_addr = net_addr ip\<rparr>\<rparr> \<and>
          live s1 = insert (next_ptr s0) (live s0) \<and> next_ptr s1 = Suc (next_ptr s0) \<and> world s1 = w3 \<and>
          length (connection_pool (core s1)) = length (connection_pool (core s0)) \<and>
          (\<forall>k. k \<noteq> i \<longrightarrow> conn k s1 = conn k s0) \<and>
          calls s1 = calls s0 @ [CSocket SOCK_STREAM fd, CNonblock fd, CRegisterSend i (next_ptr s0),
             CConnect fd \<lparr>sin_family = AF_INET, sin_port = htons port, sin_addr = net_addr ip\<rparr> ret]"
  using assms
  apply (simp add: wish_open_connection_def malloc_def sl_socket_def sl_connect_def store_def load_def
     socket_set_nonblocking_def quad.snprintf_whole aton_into_quad register_send_stores_def Let_def
     split del: if_split)
  apply (intro exI conjI, rule refl)
  apply simp_all
  done

theorem open_connection_result_witness:
  "\<exists>s1. wish_open_connection sample_env 1 (Ip 10 0 0 1) 37008 False (sample_port ()) =
           Some (0, upd_conn 1 (\<lambda>c. c\<lparr>curr_transport_state := TRANSPORT_STATE_CONNECTING\<rparr>) s1) \<and>
        calls s1 = [CSocket SOCK_STREAM 5, CNonblock 5, CRegisterSend 1 0,
          CConnect 5 \<lparr>sin_family = AF_INET, sin_port = htons 37008, sin_addr = net_addr (Ip 10 0 0 1)\<rparr> (-114)]"
  using open_connection_result [of sample_env "sample_port ()" "()" 5 "()" 37008 "Ip 10 0 0 1" "-114" "()" 1 False]
  by (auto simp: sample_simps register_send_stores_def)

section \<open>The blocks behind the connections\<close>

lemma sample_contracts: "signal_contract sample_env" "register_send_stores sample_env"
  by (simp_all add: signal_contract_def register_send_stores_def sample_env_def)

lemma signal_slots:
  assumes "signal_contract E"
  shows "live (signal E i ev s) = live s" and "next_ptr (signal E i ev s) = next_ptr s"
    and "slots (signal E i ev s) = (if ev = TCP_DISCONNECTED then (slots s)[i := None] else slots s)"
  using assms by (simp_all add: signal_contract_def signal_def Let_def)

text \<open>What the operations do to the blocks and to the pointers in the pool.\<close>

lemma open_connection_slots:
  assumes "signal_contract E" and "register_send_stores E" and "fst (x_malloc E (world s0))"
    and "0 \<le> fst (x_socket E SOCK_STREAM (snd (x_malloc E (world s0))))"
  shows "\<exists>s'. wish_open_connection E i ip port relaying s0 = Some (0, s') \<and>
    slots s' = (slots s0)[i := Some (next_ptr s0)] \<and> live s' = insert (next_ptr s0) (live s0) \<and>
    next_ptr s' = Suc (next_ptr s0)"
  using assms
  by (auto simp: wish_open_connection_def malloc_def sl_socket_def sl_connect_def store_def load_def
     socket_set_nonblocking_def quad.snprintf_whole aton_into_quad register_send_stores_def Let_def
     connected_cb_def connected_cb_relay_def signal_slots
     split: prod.splits)

lemma close_connection_slots:
  assumes "signal_contract E" and "slots s ! i = Some p" and "i < length (slots s)" and "p \<in> live s"
  shows "\<exists>s'. wish_close_connection E i s = Some s' \<and> slots s' = (slots s)[i := None] \<and>
    live s' = live s - {p} \<and> next_ptr s' = next_ptr s"
  using assms
  by (auto simp: wish_close_connection_def load_def free_def Let_def sl_close_def signal_slots slots_nth length_slots)

lemma connect_fail_slots:
  assumes "signal_contract E" and "i < length (slots s)" and "\<forall>p. slots s ! i = Some p \<longrightarrow> p \<in> live s"
  shows "\<exists>s'. connect_fail_cb E i s = Some s' \<and> slots s' = (slots s)[i := None] \<and>
    live s' = live s - set_option (slots s ! i) \<and> next_ptr s' = next_ptr s"
  using assms
  by (cases "slots s ! i") (auto simp: connect_fail_cb_def load_def free_def Let_def sl_close_def signal_slots slots_nth length_slots)

lemma write_to_socket_slots:
  assumes "slots s ! i = Some p" and "i < length (slots s)" and "p \<in> live s"
  shows "\<exists>r s'. write_to_socket E i bs s = Some (r, s') \<and> slots s' = slots s \<and>
    live s' = live s \<and> next_ptr s' = next_ptr s"
  using assms
  by (auto simp: write_to_socket_def load_def Let_def sl_send_def slots_nth length_slots split: prod.splits)

text \<open>
  The invariant, over the pointers \<open>xs\<close> of the pool, the live blocks \<open>L\<close> and the next
  fresh address \<open>n\<close>: the live blocks are those of other components (\<open>B\<close>) and the ones the
  pool points to, no two connections share a block, and all were handed out.
\<close>

definition points :: "ptr option list \<Rightarrow> nat \<Rightarrow> ptr \<Rightarrow> bool" where
  "points xs k p \<longleftrightarrow> k < length xs \<and> xs ! k = Some p"

lemma points_update:
  "i < length xs \<Longrightarrow> points (xs[i := v]) k p \<longleftrightarrow> (if k = i then v = Some p else points xs k p)"
  by (auto simp: points_def)

definition owned :: "ptr set \<Rightarrow> ptr option list \<Rightarrow> ptr set \<Rightarrow> ptr \<Rightarrow> bool" where
  "owned B xs L n \<longleftrightarrow> (\<forall>p. p \<in> L \<longleftrightarrow> p \<in> B \<or> (\<exists>k. points xs k p)) \<and>
     (\<forall>k p. points xs k p \<longrightarrow> p \<notin> B) \<and> (\<forall>i j p. points xs i p \<longrightarrow> points xs j p \<longrightarrow> i = j) \<and>
     (\<forall>p \<in> L. p < n)"

lemma owned_live: "owned B xs L n \<Longrightarrow> i < length xs \<Longrightarrow> xs ! i = Some p \<Longrightarrow> p \<in> L"
  by (auto simp: owned_def points_def)

lemma owned_open:
  assumes o: "owned B xs L n" and i: "i < length xs" "xs ! i = None"
  shows "owned B (xs[i := Some n]) (insert n L) (Suc n)"
proof -
  have n: "n \<notin> L" "\<not> points xs k n" "\<not> points xs i p" for k p
    using o i unfolding owned_def by (auto simp: points_def)
  have "\<forall>p \<in> insert n L. p < Suc n" using o unfolding owned_def by (auto simp: less_Suc_eq)
  with o n show ?thesis
    unfolding owned_def points_update [OF i(1)] by (auto split: if_splits) metis
qed

lemma owned_close:
  assumes o: "owned B xs L n" and i: "i < length xs" "xs ! i = Some p"
  shows "owned B (xs[i := None]) (L - {p}) n"
proof -
  have "points xs i q \<longleftrightarrow> q = p" for q using i by (auto simp: points_def)
  with o show ?thesis
    unfolding owned_def points_update [OF i(1)] by (auto split: if_splits) metis+
qed

datatype net_op =
  Open nat wish_ip_addr u16 | Close nat | Connect_Fail nat | Write nat "byte list"

text \<open>
  What the core must respect: it opens a connection only on a context without send argument,
  and closes or writes only where there is one.  For an open, malloc and socket must succeed.
\<close>

fun net_allowed :: "'x env \<Rightarrow> net_op \<Rightarrow> 'x port \<Rightarrow> bool" where
  "net_allowed E (Open i ip p) s \<longleftrightarrow> i < length (slots s) \<and> slots s ! i = None \<and>
     fst (x_malloc E (world s)) \<and> 0 \<le> fst (x_socket E SOCK_STREAM (snd (x_malloc E (world s))))"
| "net_allowed E (Close i) s \<longleftrightarrow> i < length (slots s) \<and> slots s ! i \<noteq> None"
| "net_allowed E (Connect_Fail i) s \<longleftrightarrow> i < length (slots s)"
| "net_allowed E (Write i bs) s \<longleftrightarrow> i < length (slots s) \<and> slots s ! i \<noteq> None"

fun net_run1 :: "'x env \<Rightarrow> net_op \<Rightarrow> 'x port \<Rightarrow> 'x port option" where
  "net_run1 E (Open i ip p) s = map_option snd (wish_open_connection E i ip p False s)"
| "net_run1 E (Close i) s = wish_close_connection E i s"
| "net_run1 E (Connect_Fail i) s = connect_fail_cb E i s"
| "net_run1 E (Write i bs) s = map_option snd (write_to_socket E i bs s)"

definition net_step :: "'x env \<Rightarrow> net_op \<Rightarrow> 'x port option \<Rightarrow> 'x port option" where
  "net_step E x r = (case r of None \<Rightarrow> None | Some s \<Rightarrow> if net_allowed E x s then net_run1 E x s else Some s)"

definition net_inv :: "ptr set \<Rightarrow> 'x port \<Rightarrow> bool" where
  "net_inv B s \<longleftrightarrow> owned B (slots s) (live s) (next_ptr s)"

lemma net_step_safe:
  assumes "signal_contract E" and "register_send_stores E" and "net_inv B s" and "net_allowed E x s"
  shows "\<exists>s'. net_run1 E x s = Some s' \<and> net_inv B s'"
proof (cases x)
  case (Open i ip p)
  with open_connection_slots [OF assms(1,2), of s i ip p False] assms show ?thesis
    by (auto simp: net_inv_def intro: owned_open)
next
  case (Close i)
  with assms obtain p where "i < length (slots s)" "slots s ! i = Some p" by auto
  with close_connection_slots [OF assms(1) this(2,1)] assms Close show ?thesis
    by (fastforce simp: net_inv_def intro: owned_close dest: owned_live)
next
  case (Connect_Fail i)
  with assms have i: "i < length (slots s)" and l: "\<forall>p. slots s ! i = Some p \<longrightarrow> p \<in> live s"
    by (auto simp: net_inv_def dest: owned_live)
  from connect_fail_slots [OF assms(1) this] Connect_Fail assms show ?thesis
    using i owned_close [OF _ i] list_update_id [of "slots s" i]
    by (cases "slots s ! i") (auto simp: net_inv_def)
next
  case (Write i bs)
  with assms obtain p where "i < length (slots s)" "slots s ! i = Some p" by auto
  with write_to_socket_slots [OF this(2,1), of E bs] Write assms show ?thesis
    by (fastforce simp: net_inv_def dest: owned_live)
qed

definition net_ok :: "'x env \<Rightarrow> ptr set \<Rightarrow> 'x port option \<Rightarrow> bool" where
  "net_ok E B r \<longleftrightarrow> (signal_contract E \<and> register_send_stores E \<longrightarrow> (\<exists>s. r = Some s \<and> net_inv B s))"

interpretation net: kept_by_steps "net_step E" "net_ok E B" for E :: "'x env" and B
proof
  fix r :: "'x port option" and x
  assume "net_ok E B r"
  then show "net_ok E B (net_step E x r)"
    using net_step_safe [of E B _ x] by (auto simp: net_ok_def net_step_def)
qed

text \<open>
  Property C12. A core that opens only free contexts and closes or writes only opened ones does not
  make the port use a dangling pointer or free a block twice, in any sequence of
  opens, closes, failed connects and writes in which malloc and socket succeed at every open; then, at every
  moment, the live blocks are exactly
  those the pool points to plus those of other components: nothing leaks and no block is
  shared. An operation that is not of this kind is left out of the run (\<open>net_allowed\<close>). Opens at which malloc or
  socket fails are therefore not covered: they use NULL or leak the block
  (\<open>open_connection_failures\<close>).
\<close>

theorem connection_blocks_safe:
  assumes "signal_contract E" and "register_send_stores E" and "net_inv B s"
  shows "\<exists>s'. run_ops (net_step E) ops (Some s) = Some s' \<and> net_inv B s'"
  using net.run_ok [of E B "Some s" ops] assms by (simp add: net_ok_def)

theorem connection_blocks_safe_witness:
  "\<exists>s'. run_ops (net_step sample_env) [Open 0 (Ip 10 0 0 1) 37008, Write 0 [1, 2], Close 0, Close 0,
          Open 0 (Ip 10 0 0 2) 37008, Connect_Fail 0] (Some (sample_port ())) = Some s' \<and> net_inv {} s'"
  by (rule connection_blocks_safe [OF sample_contracts])
     (auto simp: sample_simps net_inv_def owned_def
        points_def slots_def upd_conn_def map_update nth_Cons split: nat.splits)

text \<open>
  Property C29. The failures of wish_open_connection. When malloc fails the function does not
  stop: it uses the NULL pointer. When only socket fails it answers 1, and the block it has
  allocated is in no connection, so it is lost: the pool is as before and the block stays
  allocated.
\<close>

theorem open_connection_failures:
  "(\<not> fst (x_malloc E (world s)) \<longrightarrow> wish_open_connection E i ip port relaying s = None) \<and>
   (fst (x_malloc E (world s)) \<and> fst (x_socket E SOCK_STREAM (snd (x_malloc E (world s)))) < 0 \<longrightarrow>
     (\<exists>s'. wish_open_connection E i ip port relaying s = Some (1, s') \<and>
        slots s' = slots s \<and> live s' = insert (next_ptr s) (live s) \<and>
        calls s' = calls s @ [CSocket SOCK_STREAM (fst (x_socket E SOCK_STREAM (snd (x_malloc E (world s)))))]))"
  by (auto simp: wish_open_connection_def malloc_def sl_socket_def store_def Let_def split: prod.splits)

theorem open_connection_failures_witness:
  "wish_open_connection (sample_env\<lparr>x_malloc := \<lambda>w. (False, w)\<rparr>) 0 (Ip 10 0 0 1) 37008 False (sample_port ()) = None"
  using open_connection_failures [of "sample_env\<lparr>x_malloc := \<lambda>w. (False, w)\<rparr>" "sample_port ()" 0 "Ip 10 0 0 1" 37008 False]
  by (simp add: sample_simps)

lemma close_connection_undefined:
  "i < length (connection_pool (core s)) \<Longrightarrow> (\<forall>p \<in> live s. send_arg (conn i s) \<noteq> Some p) \<Longrightarrow>
     wish_close_connection E i s = None"
  by (auto simp: wish_close_connection_def load_def Let_def split: option.splits)

text \<open>
  Property C16. wish_close_connection closes the socket once if it is one, releases the
  block, and then reports TCP_DISCONNECTED for a context that is already marked closing; a
  second close of the same connection uses a freed block or a NULL pointer, whether or not
  the core has reset the connection's send argument in between.
\<close>

theorem close_connection_once:
  assumes "signal_contract E" and "i < length (connection_pool (core s))"
    and "send_arg (conn i s) = Some p" and "p \<in> live s"
  shows "\<exists>s1. wish_close_connection E i s = Some (signal E i TCP_DISCONNECTED s1) \<and>
      live s1 = live s - {p} \<and>
      conn i s1 = (conn i s)\<lparr>context_state := WISH_CONTEXT_CLOSING\<rparr> \<and>
      calls s1 = calls s @ (if 0 \<le> sock_fd (heap s p) then [CClose (sock_fd (heap s p))] else []) @ [CFree p] \<and>
      wish_close_connection E i (signal E i TCP_DISCONNECTED s1) = None \<and>
      wish_close_connection E i s1 = None"
proof -
  let ?m = "upd_conn i (\<lambda>c. c\<lparr>context_state := WISH_CONTEXT_CLOSING\<rparr>) s"
  let ?c = "if 0 \<le> sock_fd (heap s p) then sl_close (sock_fd (heap s p)) ?m else ?m"
  let ?s1 = "log_call (CFree p) (?c\<lparr>live := live s - {p}\<rparr>)"
  let ?s2 = "signal E i TCP_DISCONNECTED ?s1"
  have "slots ?s1 = slots s" by (simp add: sl_close_def)
  with signal_slots [OF assms(1), of i TCP_DISCONNECTED ?s1] have sl: "slots ?s2 = (slots s)[i := None]" by simp
  then have "length (connection_pool (core ?s2)) = length (connection_pool (core s))"
    by (metis length_list_update length_slots)
  moreover from this sl assms(2) have "send_arg (conn i ?s2) = None"
    by (metis length_slots nth_list_update_eq slots_nth)
  ultimately have "wish_close_connection E i ?s2 = None" using assms(2) by (simp add: close_connection_undefined)
  moreover have "wish_close_connection E i s = Some ?s2"
    using assms(2-) by (simp add: wish_close_connection_def load_def free_def Let_def sl_close_def)
  ultimately show ?thesis using assms(2-)
    by (intro exI [of _ ?s1]) (auto simp: close_connection_undefined sl_close_def)
qed

theorem close_connection_once_witness:
  "\<exists>s1. wish_close_connection sample_env 0
      (upd_conn 0 (\<lambda>c. c\<lparr>send_arg := Some 3\<rparr>) ((sample_port ())\<lparr>live := {3}\<rparr>))
    = Some (signal sample_env 0 TCP_DISCONNECTED s1) \<and> live s1 = {} \<and> wish_close_connection sample_env 0 s1 = None"
  using close_connection_once [OF sample_contracts(1), of 0
      "upd_conn 0 (\<lambda>c. c\<lparr>send_arg := Some 3\<rparr>) ((sample_port ())\<lparr>live := {3}\<rparr>)" 3]
  by (auto simp: sample_simps(2-))

section \<open>Local discovery\<close>

text \<open>
  Property C22. A discovery datagram of at most 1024 bytes that comes from the address
  \<open>ip\<close> and port \<open>p\<close> (held in the socket address in network byte order) is handed to the
  core once, with exactly that address and port and the bytes received; nothing is handed
  over when recvfrom fails or the datagram is empty.
\<close>

theorem discovery_reports_sender:
  assumes "x_recvfrom E (wld_fd s) 1024 (sockaddr_wld s) (world s) =
      ((blen, buf, \<lparr>sin_family = AF_INET, sin_port = htons p, sin_addr = net_addr ip\<rparr>), w)"
    and "blen \<le> 1024"
  shows "read_wish_local_discovery E s = Some (
    let s1 = s\<lparr>world := w, sockaddr_wld := \<lparr>sin_family = AF_INET, sin_port = htons p, sin_addr = net_addr ip\<rparr>,
               calls := calls s @ [CRecvFrom (wld_fd s) 1024 blen]\<rparr>
    in if blen \<le> 0 then s1
       else x_ldiscover_feed E ip p (take (nat blen) buf)
              (s1\<lparr>calls := calls s1 @ [CLdiscoverFeed ip p (take (nat blen) buf)]\<rparr>))"
  using assms by (auto simp: read_wish_local_discovery_def Let_def log_call_def ntohs_def ip_of_bytes_net_addr)

theorem discovery_reports_sender_witness:
  "calls (the (read_wish_local_discovery
     (sample_env\<lparr>x_recvfrom := \<lambda>fd n a w.
        ((3, [1, 2, 3], \<lparr>sin_family = AF_INET, sin_port = htons 9090, sin_addr = net_addr (Ip 192 168 1 7)\<rparr>), w)\<rparr>)
     (sample_port ()))) = [CRecvFrom 0 1024 3, CLdiscoverFeed (Ip 192 168 1 7) 9090 [1, 2, 3]]"
  by (subst discovery_reports_sender [where blen = 3 and buf = "[1, 2, 3]" and p = 9090 and ip = "Ip 192 168 1 7" and w = "()"])
     (simp_all add: sample_simps Let_def)

end
