(* ===== verification/Relay_Client.thy ===== *)
theory Relay_Client
  imports Port_Net
begin

text \<open>
  \<open>source/mist_port/relay_client.c\<close>: the control connection to a relay server.  A relay
  context is named by its index in the core's \<open>relay_db\<close>.  The main loop finishes a connect
  by calling connect again on the address saved here (\<open>port_relay_ip\<close>).  The block under
  \<open>#if 0\<close> is not part of the program.
\<close>

section \<open>The operations\<close>

text \<open>The answer is 0 whatever send answers.\<close>

definition relay_send :: "'x env \<Rightarrow> int \<Rightarrow> byte list \<Rightarrow> 'x port \<Rightarrow> int \<times> 'x port" where
  "relay_send E fd buffer s = (let (n, s) = sl_send E fd buffer s in (0, s))"

definition port_dns_start_resolving_relay_client :: "nat \<Rightarrow> string \<Rightarrow> 'x port \<Rightarrow> 'x port" where
  "port_dns_start_resolving_relay_client j qname s = s"

definition port_get_relay_ip :: "'x port \<Rightarrow> wish_ip_addr" where
  "port_get_relay_ip s = port_relay_ip s"

definition port_relay_client_open :: "'x env \<Rightarrow> nat \<Rightarrow> wish_ip_addr \<Rightarrow> u32 \<Rightarrow> 'x port \<Rightarrow> 'x port option" where
  "port_relay_client_open E j relay_ip stack_addr s0 = do {
     let s = upd_relay j (\<lambda>r. r\<lparr>curr_state := WISH_RELAY_CLIENT_CONNECTING\<rparr>) s0;
     let (fd, s) = sl_socket E SOCK_STREAM s;
     let s = upd_relay j (\<lambda>r. r\<lparr>sockfd := fd\<rparr>) s;
     if sockfd (relay j s) < 0 then
       Some (upd_relay j (\<lambda>r. r\<lparr>curr_state := WISH_RELAY_CLIENT_WAIT_RECONNECT\<rparr>) s)
     else do {
       let s = socket_set_nonblocking (sockfd (relay j s)) s;
       ip_str \<leftarrow> sprintf (12 + 3 + 1) (quad_text relay_ip);
       let addr = \<lparr>sin_family = AF_INET, sin_port = htons (relay_port (relay j s)),
                   sin_addr = aton_into ip_str stack_addr\<rparr>;
       let (connect_ret, s) = sl_connect E (sockfd (relay j s)) addr s;
       Some (if connect_ret = sl_ealready E then
               (upd_relay j (\<lambda>r. r\<lparr>relay_send_set := True\<rparr>) s)\<lparr>port_relay_ip := relay_ip\<rparr>
             else upd_relay j (\<lambda>r. r\<lparr>curr_state := WISH_RELAY_CLIENT_WAIT_RECONNECT\<rparr>) s)
     }
   }"

definition wish_relay_client_open :: "'x env \<Rightarrow> nat \<Rightarrow> byte list \<Rightarrow> u32 \<Rightarrow> 'x port \<Rightarrow> 'x port option" where
  "wish_relay_client_open E j uid stack_addr s0 =
     (let s = upd_relay j (\<lambda>r. r\<lparr>curr_state := WISH_RELAY_CLIENT_OPEN\<rparr>) s0;
          s = log_call (CRingBufferInit j) s;
          s = upd_relay j (\<lambda>r. r\<lparr>relay_uid := uid\<rparr>) s
      in case x_parse_transport_ip E (relay_host (relay j s)) of
           None \<Rightarrow>
             let s = upd_relay j (\<lambda>r. r\<lparr>curr_state := WISH_RELAY_CLIENT_RESOLVING\<rparr>) s
             in Some (port_dns_start_resolving_relay_client j (relay_host (relay j s)) s)
         | Some relay_ip \<Rightarrow> port_relay_client_open E j relay_ip stack_addr s)"

definition wish_relay_client_close :: "'x env \<Rightarrow> nat \<Rightarrow> 'x port \<Rightarrow> 'x port" where
  "wish_relay_client_close E j s =
     x_relay_disconnect E j (log_call (CRelayDisconnect j) (sl_close (sockfd (relay j s)) s))"

section \<open>Opening the control connection\<close>

text \<open>The address that a connect to relay \<open>j\<close> is made to.\<close>

definition relay_addr :: "nat \<Rightarrow> wish_ip_addr \<Rightarrow> 'x port \<Rightarrow> sockaddr_in" where
  "relay_addr j ip s = \<lparr>sin_family = AF_INET, sin_port = htons (relay_port (relay j s)), sin_addr = net_addr ip\<rparr>"

lemma relay_upd_relay_same [simp]:
  "j < length (relay_db (core s)) \<Longrightarrow> upd_relay j f (upd_relay j g s) = upd_relay j (\<lambda>r. f (g r)) s"
  by (simp add: upd_relay_def)

text \<open>
  What one attempt does to the relay context, by what socket and connect answer.
\<close>

definition relay_outcome :: "'x env \<Rightarrow> int \<Rightarrow> int \<Rightarrow> wish_relay_client \<Rightarrow> wish_relay_client" where
  "relay_outcome E fd ret r =
     (if fd < 0 \<or> ret \<noteq> sl_ealready E then r\<lparr>sockfd := fd, curr_state := WISH_RELAY_CLIENT_WAIT_RECONNECT\<rparr>
      else r\<lparr>sockfd := fd, curr_state := WISH_RELAY_CLIENT_CONNECTING, relay_send_set := True\<rparr>)"

lemma relay_open_core:
  assumes "j < length (relay_db (core s))"
    and "x_socket E SOCK_STREAM (world s) = (fd, w1)"
    and "x_connect E fd (relay_addr j ip s) w1 = (ret, w2)"
  shows "\<exists>s1. port_relay_client_open E j ip a s = Some s1 \<and>
      relay j s1 = relay_outcome E fd ret (relay j s) \<and>
      (\<forall>k. k \<noteq> j \<longrightarrow> relay k s1 = relay k s) \<and> live s1 = live s \<and>
      length (relay_db (core s1)) = length (relay_db (core s)) \<and>
      port_relay_ip s1 = (if 0 \<le> fd \<and> ret = sl_ealready E then ip else port_relay_ip s) \<and>
      calls s1 = calls s @ [CSocket SOCK_STREAM fd] @
        (if fd < 0 then [] else [CNonblock fd, CConnect fd (relay_addr j ip s) ret])"
  using assms
  by (auto simp: port_relay_client_open_def sl_socket_def sl_connect_def socket_set_nonblocking_def
      quad.sprintf_whole aton_into_quad relay_addr_def relay_outcome_def Let_def)

text \<open>
  Property C20. wish_relay_client_open for a relay whose host is an IP address: the receive
  buffer is reset and the user id stored, then one nonblocking socket is connected to that
  address and the relay's port. The relay is left CONNECTING, with its send function set and
  the address saved for the main loop, exactly when connect answers EALREADY; in every other
  case, an immediate success included, it is left in WAIT_RECONNECT. For a host that is not
  an IP address the relay is left RESOLVING and no call is made to the socket library.
\<close>

theorem relay_open_result:
  assumes "j < length (relay_db (core s))"
    and "x_socket E SOCK_STREAM (world s) = (fd, w1)"
    and "\<And>ip. x_parse_transport_ip E (relay_host (relay j s)) = Some ip \<Longrightarrow>
           x_connect E fd (relay_addr j ip s) w1 = (ret, w2)"
  shows "\<exists>s1. wish_relay_client_open E j uid a s = Some s1 \<and>
    (case x_parse_transport_ip E (relay_host (relay j s)) of
       None \<Rightarrow> relay j s1 = (relay j s)\<lparr>relay_uid := uid, curr_state := WISH_RELAY_CLIENT_RESOLVING\<rparr> \<and>
               calls s1 = calls s @ [CRingBufferInit j]
     | Some ip \<Rightarrow> relay j s1 = relay_outcome E fd ret ((relay j s)\<lparr>curr_state := WISH_RELAY_CLIENT_OPEN, relay_uid := uid\<rparr>) \<and>
               port_relay_ip s1 = (if 0 \<le> fd \<and> ret = sl_ealready E then ip else port_relay_ip s) \<and>
               calls s1 = calls s @ [CRingBufferInit j, CSocket SOCK_STREAM fd] @
                 (if fd < 0 then [] else [CNonblock fd, CConnect fd (relay_addr j ip s) ret]))"
proof -
  let ?s = "upd_relay j (\<lambda>r. r\<lparr>relay_uid := uid\<rparr>) (log_call (CRingBufferInit j)
              (upd_relay j (\<lambda>r. r\<lparr>curr_state := WISH_RELAY_CLIENT_OPEN\<rparr>) s))"
  have r: "relay j ?s = (relay j s)\<lparr>curr_state := WISH_RELAY_CLIENT_OPEN, relay_uid := uid\<rparr>"
    using assms(1) by simp
  then have a: "relay_addr j ip ?s = relay_addr j ip s" for ip by (simp add: relay_addr_def)
  show ?thesis
  proof (cases "x_parse_transport_ip E (relay_host (relay j s))")
    case None
    with assms(1) show ?thesis
      by (simp add: wish_relay_client_open_def Let_def port_dns_start_resolving_relay_client_def)
  next
    case (Some ip)
    have "wish_relay_client_open E j uid a s = port_relay_client_open E j ip a ?s"
      using Some assms(1) by (simp add: wish_relay_client_open_def Let_def del: relay_upd_relay_same)
    with Some assms relay_open_core [of j ?s E fd w1 ip ret w2 a] show ?thesis
      unfolding r a by auto
  qed
qed

theorem relay_open_result_witness:
  "\<exists>s1. wish_relay_client_open (sample_env\<lparr>x_parse_transport_ip := \<lambda>h. Some (Ip 193 65 54 131)\<rparr>) 0 [1] 0 (sample_port ())
      = Some s1 \<and> curr_state (relay 0 s1) = WISH_RELAY_CLIENT_CONNECTING \<and> port_relay_ip s1 = Ip 193 65 54 131"
  using relay_open_result [of 0 "sample_port ()" "sample_env\<lparr>x_parse_transport_ip := \<lambda>h. Some (Ip 193 65 54 131)\<rparr>"
      5 "()" "-114" "()" "[1]" 0]
  by (auto simp: sample_simps relay_outcome_def)

section \<open>Reconnecting\<close>

fun relay_attempts :: "'x env \<Rightarrow> nat \<Rightarrow> wish_ip_addr \<Rightarrow> u32 \<Rightarrow> nat \<Rightarrow> 'x port \<Rightarrow> 'x port option" where
  "relay_attempts E j ip a 0 s = Some s"
| "relay_attempts E j ip a (Suc n) s = port_relay_client_open E j ip a s \<bind> relay_attempts E j ip a n"

lemma relay_attempts_log:
  assumes "\<And>w. 0 \<le> fst (x_socket E SOCK_STREAM w)"
    and "\<And>fd a w. fst (x_connect E fd a w) \<noteq> sl_ealready E" and "j < length (relay_db (core s))"
  shows "\<exists>s1 cs. relay_attempts E j ip a n s = Some s1 \<and> calls s1 = calls s @ cs \<and>
    length (filter (\<lambda>c. \<exists>fd \<ge> 0. c = CSocket SOCK_STREAM fd) cs) = n \<and> (\<forall>fd. CClose fd \<notin> set cs) \<and>
    (0 < n \<longrightarrow> curr_state (relay j s1) = WISH_RELAY_CLIENT_WAIT_RECONNECT)"
  using assms(3)
proof (induction n arbitrary: s)
  case 0
  show ?case by simp
next
  case (Suc n)
  obtain fd w1 where so: "x_socket E SOCK_STREAM (world s) = (fd, w1)" by force
  obtain ret w2 where co: "x_connect E fd (relay_addr j ip s) w1 = (ret, w2)" by force
  have fd: "0 \<le> fd" and ret: "ret \<noteq> sl_ealready E"
    using assms(1) [of "world s"] assms(2) [of fd "relay_addr j ip s" w1] so co by simp_all
  obtain s1 where s1: "port_relay_client_open E j ip a s = Some s1"
    "relay j s1 = relay_outcome E fd ret (relay j s)" "length (relay_db (core s1)) = length (relay_db (core s))"
    "calls s1 = calls s @ [CSocket SOCK_STREAM fd, CNonblock fd, CConnect fd (relay_addr j ip s) ret]"
    using relay_open_core [OF Suc.prems so co, of a] fd by auto
  show ?case
  proof (cases n)
    case 0
    with s1 fd ret show ?thesis by (simp add: relay_outcome_def)
  next
    case Suc
    with s1 fd Suc.IH [of s1] Suc.prems show ?thesis by fastforce
  qed
qed

text \<open>
  Property C34. When the relay server cannot be reached, so that connect answers with an
  error, each of \<open>n\<close> attempts creates one socket and none of them is ever closed: the relay is
  left in WAIT_RECONNECT and the next attempt overwrites the descriptor.
\<close>

theorem relay_reconnect_leaks:
  assumes "\<forall>w. 0 \<le> fst (x_socket E SOCK_STREAM w)"
    and "\<forall>fd a w. fst (x_connect E fd a w) \<noteq> sl_ealready E" and "j < length (relay_db (core s))"
  shows "\<exists>s1 cs. relay_attempts E j ip a n s = Some s1 \<and> calls s1 = calls s @ cs \<and>
    length (filter (\<lambda>c. \<exists>fd \<ge> 0. c = CSocket SOCK_STREAM fd) cs) = n \<and> (\<forall>fd. CClose fd \<notin> set cs) \<and>
    (0 < n \<longrightarrow> curr_state (relay j s1) = WISH_RELAY_CLIENT_WAIT_RECONNECT)"
  using relay_attempts_log [of E j s ip a n] assms by blast

theorem relay_reconnect_leaks_witness:
  "\<exists>s1 cs. relay_attempts (sample_env\<lparr>x_connect := \<lambda>fd a w. (-111, w)\<rparr>) 0 (Ip 10 0 0 9) 0 3 (sample_port ()) = Some s1 \<and>
    calls s1 = cs \<and> length (filter (\<lambda>c. \<exists>fd \<ge> 0. c = CSocket SOCK_STREAM fd) cs) = 3"
  using relay_reconnect_leaks [of "sample_env\<lparr>x_connect := \<lambda>fd a w. (-111, w)\<rparr>" 0 "sample_port ()" "Ip 10 0 0 9" 0 3]
  by (auto simp: sample_simps)

end
