(* ===== verification/Service_IPC.thy ===== *)
theory Service_IPC
  imports Sample_Env
begin

text \<open>
  \<open>source/mist_port/port_service_ipc.c\<close>: the queue of messages between the Wish core and
  the applications on the same device.  The queue is a linked list of the utlist macros,
  which are not part of the repository (\<open>x_ll_append\<close>, \<open>x_ll_delete\<close>).  The next pointers
  are the list itself; the event's block and its data block are \<open>ie_ptr\<close> and
  \<open>ie_data_ptr\<close>.
\<close>

section \<open>The operations\<close>

definition core_service_ipc_init :: "'x port \<Rightarrow> 'x port" where
  "core_service_ipc_init s = s\<lparr>ipc_core_set := True\<rparr>"

definition receive_app_to_core :: "'x env \<Rightarrow> byte list \<Rightarrow> byte list \<Rightarrow> 'x port \<Rightarrow> 'x port" where
  "receive_app_to_core E wsid data s =
     x_app_to_core E (ipc_core_set s) wsid data (log_call (CAppToCore wsid data) s)"

definition receive_core_to_app :: "'x env \<Rightarrow> nat option \<Rightarrow> byte list \<Rightarrow> 'x port \<Rightarrow> 'x port" where
  "receive_core_to_app E app data s = x_core_to_app E app data (log_call (CCoreToApp app data) s)"

text \<open>When the second malloc fails, the first block stays allocated.\<close>

definition send_app_to_core :: "'x env \<Rightarrow> byte list \<Rightarrow> byte list \<Rightarrow> 'x port \<Rightarrow> 'x port" where
  "send_app_to_core E wsid data s0 =
     (case malloc E s0 of
        (None, s) \<Rightarrow> s
      | (Some event, s) \<Rightarrow>
          (case malloc E s of
             (None, s) \<Rightarrow> s
           | (Some d, s) \<Rightarrow> s\<lparr>ipc_event_queue := x_ll_append E (ipc_event_queue s)
               \<lparr>ie_type = EVENT_APP_TO_CORE, ie_app = x_app_find_by_wsid E wsid (world s),
                ie_data = data, ie_len = length data, ie_ptr = event, ie_data_ptr = d\<rparr>\<rparr>))"

definition send_core_to_app :: "'x env \<Rightarrow> byte list \<Rightarrow> byte list \<Rightarrow> 'x port \<Rightarrow> 'x port" where
  "send_core_to_app E wsid data s0 =
     (case malloc E s0 of
        (None, s) \<Rightarrow> s
      | (Some event, s) \<Rightarrow>
          (case malloc E s of
             (None, s) \<Rightarrow> s
           | (Some d, s) \<Rightarrow> s\<lparr>ipc_event_queue := x_ll_append E (ipc_event_queue s)
               \<lparr>ie_type = EVENT_CORE_TO_APP, ie_app = x_app_find_by_wsid E wsid (world s),
                ie_data = data, ie_len = length data, ie_ptr = event, ie_data_ptr = d\<rparr>\<rparr>))"

text \<open>
  One run of the task handles the first event: \<open>event->app->wsid\<close> is read without a test
  of \<open>app\<close>.
\<close>

definition deliver :: "'x env \<Rightarrow> ipc_event \<Rightarrow> 'x port \<Rightarrow> 'x port option" where
  "deliver E event s = (case ie_type event of
     EVENT_APP_TO_CORE \<Rightarrow>
       (case ie_app event of
          None \<Rightarrow> None
        | Some app \<Rightarrow> Some (receive_app_to_core E (x_app_wsid E app (world s)) (ie_data event) s))
   | EVENT_CORE_TO_APP \<Rightarrow> Some (receive_core_to_app E (ie_app event) (ie_data event) s)
   | EVENT_UNKNOWN \<Rightarrow> Some s)"

definition port_service_ipc_task :: "'x env \<Rightarrow> 'x port \<Rightarrow> 'x port option" where
  "port_service_ipc_task E s0 = (case ipc_event_queue s0 of
     [] \<Rightarrow> Some s0
   | event # _ \<Rightarrow> do {
       s \<leftarrow> deliver E event s0;
       let s = s\<lparr>ipc_event_queue := x_ll_delete E (ipc_event_queue s) event\<rparr>;
       s \<leftarrow> free (Some (ie_data_ptr event)) s;
       free (Some (ie_ptr event)) s
     })"

section \<open>The messages and their blocks\<close>

datatype ipc_msg = To_Core nat "byte list" | To_App nat "byte list"

text \<open>An application sends, and is sent to, under its own service id.\<close>

fun ipc_send :: "'x env \<Rightarrow> ipc_msg \<Rightarrow> 'x port \<Rightarrow> 'x port" where
  "ipc_send E (To_Core a d) s = send_app_to_core E (x_app_wsid E a (world s)) d s"
| "ipc_send E (To_App a d) s = send_core_to_app E (x_app_wsid E a (world s)) d s"

fun ipc_msg_of :: "ipc_event \<Rightarrow> ipc_msg" where
  "ipc_msg_of e = (if ie_type e = EVENT_APP_TO_CORE then To_Core (the (ie_app e)) (ie_data e)
                   else To_App (the (ie_app e)) (ie_data e))"

text \<open>
  A message is handed over by a call of receive_app_to_core or receive_core_to_app; \<open>handed\<close> is the log of
  these calls.  \<open>told\<close> is the message such a call carries.
\<close>

fun handover :: "call \<Rightarrow> bool" where
  "handover (CAppToCore u d) = True"
| "handover (CCoreToApp a d) = True"
| "handover _ = False"

definition handed :: "'x port \<Rightarrow> call list" where
  "handed s = filter handover (calls s)"

fun told :: "'x env \<Rightarrow> 'x \<Rightarrow> call \<Rightarrow> ipc_msg option" where
  "told E w (CAppToCore u d) = map_option (\<lambda>a. To_Core a d) (x_app_find_by_wsid E u w)"
| "told E w (CCoreToApp a d) = map_option (\<lambda>a. To_App a d) a"
| "told E w _ = None"

text \<open>
  What a run of the task answers: the message it has handed over, if it has handed over exactly one.  It is
  read off the calls the task has made, not off the queue.
\<close>

definition ipc_take :: "'x env \<Rightarrow> 'x port \<Rightarrow> (ipc_msg \<times> 'x port) option" where
  "ipc_take E s = (case port_service_ipc_task E s of
     None \<Rightarrow> None
   | Some s' \<Rightarrow> (case map (told E (world s')) (drop (length (handed s)) (handed s')) of
        [Some m] \<Rightarrow> Some (m, s')
      | _ \<Rightarrow> None))"

definition ipc_blocks :: "ipc_event list \<Rightarrow> ptr list" where
  "ipc_blocks q = concat (map (\<lambda>e. [ie_ptr e, ie_data_ptr e]) q)"

lemma ipc_blocks_simps [simp]:
  "ipc_blocks [] = []" "ipc_blocks (e # q) = ie_ptr e # ie_data_ptr e # ipc_blocks q"
  "ipc_blocks (q @ q') = ipc_blocks q @ ipc_blocks q'"
  by (simp_all add: ipc_blocks_def)

lemma length_ipc_blocks: "length (ipc_blocks q) = 2 * length q"
  by (induction q) simp_all

definition ipc_inv :: "ptr set \<Rightarrow> 'x port \<Rightarrow> bool" where
  "ipc_inv B s \<longleftrightarrow> heap_ok s \<and> distinct (ipc_blocks (ipc_event_queue s)) \<and>
     live s = B \<union> set (ipc_blocks (ipc_event_queue s)) \<and> B \<inter> set (ipc_blocks (ipc_event_queue s)) = {}"

text \<open>
  The utlist macros: append at the tail, delete by address (the events of the queue have
  distinct addresses, so the first equal record is the one).
\<close>

definition ll_laws :: "'x env \<Rightarrow> bool" where
  "ll_laws E \<longleftrightarrow> (\<forall>q e. x_ll_append E q e = q @ [e]) \<and> (\<forall>q e. e \<in> set q \<longrightarrow> x_ll_delete E q e = remove1 e q)"

text \<open>
  The handlers of the core and of the applications may send messages of their own, which
  append events with fresh blocks to the queue, and may use blocks of other components.
\<close>

definition appends :: "(ipc_event list \<Rightarrow> bool) \<Rightarrow> ('x port \<Rightarrow> 'x port) \<Rightarrow> bool" where
  "appends P f \<longleftrightarrow> (\<forall>s B. ipc_inv B s \<longrightarrow>
     (\<exists>B' new. ipc_inv B' (f s) \<and> ipc_event_queue (f s) = ipc_event_queue s @ new \<and> P new))"

definition handlers_append :: "(ipc_event list \<Rightarrow> bool) \<Rightarrow> 'x env \<Rightarrow> bool" where
  "handlers_append P E \<longleftrightarrow> (\<forall>k u d. appends P (x_app_to_core E k u d)) \<and> (\<forall>a d. appends P (x_core_to_app E a d))"

lemma ipc_inv_frame [simp]: "ipc_inv B (log_call c s) = ipc_inv B s"
  by (simp add: ipc_inv_def heap_ok_def)

lemma appends_log:
  "appends P f \<Longrightarrow> ipc_inv B s \<Longrightarrow>
     \<exists>B' new. ipc_inv B' (f (log_call c s)) \<and> ipc_event_queue (f (log_call c s)) = ipc_event_queue s @ new \<and> P new"
  unfolding appends_def by (metis ipc_inv_frame log_call_simps(15))

lemma deliver_appends:
  assumes "handlers_append P E" and "P []" and "ipc_inv B s" and "ie_type e = EVENT_APP_TO_CORE \<Longrightarrow> ie_app e \<noteq> None"
  shows "\<exists>s' B' new. deliver E e s = Some s' \<and> ipc_inv B' s' \<and> ipc_event_queue s' = ipc_event_queue s @ new \<and> P new"
proof (cases "ie_type e")
  case EVENT_UNKNOWN
  with assms show ?thesis by (auto simp: deliver_def)
next
  case EVENT_APP_TO_CORE
  with assms(4) obtain a where "ie_app e = Some a" by auto
  with EVENT_APP_TO_CORE appends_log [of P, OF _ assms(3)] assms(1) show ?thesis
    by (simp add: deliver_def receive_app_to_core_def handlers_append_def)
next
  case EVENT_CORE_TO_APP
  with appends_log [of P, OF _ assms(3)] assms(1) show ?thesis
    by (simp add: deliver_def receive_core_to_app_def handlers_append_def)
qed

lemma ipc_inv_remove:
  assumes "ipc_inv B s" and "ipc_event_queue s = e # q"
  shows "\<exists>s'. (free (Some (ie_data_ptr e)) (s\<lparr>ipc_event_queue := q\<rparr>) \<bind> free (Some (ie_ptr e))) = Some s' \<and>
    ipc_inv B s' \<and> ipc_event_queue s' = q \<and> live s' = live s - {ie_ptr e, ie_data_ptr e} \<and>
    calls s' = calls s @ [CFree (ie_data_ptr e), CFree (ie_ptr e)]"
  using assms by (auto simp: free_def ipc_inv_def heap_ok_def)

lemma ipc_task_core:
  assumes "ll_laws E" and "handlers_append P E" and "P []" and "ipc_inv B s" and "ipc_event_queue s = e # q"
    and "ie_type e = EVENT_APP_TO_CORE \<Longrightarrow> ie_app e \<noteq> None"
  shows "\<exists>s1 s2 B' new. deliver E e s = Some s1 \<and> port_service_ipc_task E s = Some s2 \<and> ipc_inv B' s2 \<and>
    ipc_event_queue s2 = q @ new \<and> P new \<and> live s2 = live s1 - {ie_ptr e, ie_data_ptr e} \<and>
    calls s2 = calls s1 @ [CFree (ie_data_ptr e), CFree (ie_ptr e)]"
proof -
  obtain s1 B' new where s1: "deliver E e s = Some s1" "ipc_inv B' s1" "ipc_event_queue s1 = e # q @ new" "P new"
    using deliver_appends [OF assms(2-4), of e] assms(5,6) by auto
  moreover have "x_ll_delete E (e # q @ new) e = q @ new" using assms(1) by (simp add: ll_laws_def)
  ultimately show ?thesis
    using ipc_inv_remove [OF s1(2,3)] assms(5)
    by (auto simp: port_service_ipc_task_def Let_def bind_eq_Some_conv)
qed

text \<open>Both send functions are one function of the event's type.\<close>

definition send_ipc :: "'x env \<Rightarrow> ipc_event_type \<Rightarrow> byte list \<Rightarrow> byte list \<Rightarrow> 'x port \<Rightarrow> 'x port" where
  "send_ipc E t wsid data s0 =
     (case malloc E s0 of
        (None, s) \<Rightarrow> s
      | (Some event, s) \<Rightarrow>
          (case malloc E s of
             (None, s) \<Rightarrow> s
           | (Some d, s) \<Rightarrow> s\<lparr>ipc_event_queue := x_ll_append E (ipc_event_queue s)
               \<lparr>ie_type = t, ie_app = x_app_find_by_wsid E wsid (world s),
                ie_data = data, ie_len = length data, ie_ptr = event, ie_data_ptr = d\<rparr>\<rparr>))"

lemma send_is_ipc:
  "send_app_to_core E = send_ipc E EVENT_APP_TO_CORE" "send_core_to_app E = send_ipc E EVENT_CORE_TO_APP"
  by (intro ext, simp add: send_app_to_core_def send_core_to_app_def send_ipc_def)+

lemma ipc_inv_add:
  assumes "ipc_inv B s" and "ipc_event_queue s' = ipc_event_queue s @ [e]"
    and "ie_ptr e = next_ptr s" and "ie_data_ptr e = Suc (next_ptr s)"
    and "live s' = insert (Suc (next_ptr s)) (insert (next_ptr s) (live s))" and "next_ptr s' = Suc (Suc (next_ptr s))"
  shows "ipc_inv B s'"
proof -
  have "p < next_ptr s" if "p \<in> live s" for p using assms(1) that by (simp add: ipc_inv_def heap_ok_def)
  then have "next_ptr s \<notin> live s" "Suc (next_ptr s) \<notin> live s" "\<forall>p \<in> live s. p < Suc (Suc (next_ptr s))"
    by fastforce+
  with assms show ?thesis by (auto simp: ipc_inv_def heap_ok_def)
qed

lemma send_core:
  assumes "ll_laws E" and "fst (x_malloc E (world s))" and "fst (x_malloc E (snd (x_malloc E (world s))))"
  shows "\<exists>w p dp. ipc_event_queue (send_ipc E t u d s) = ipc_event_queue s @
      [\<lparr>ie_type = t, ie_app = x_app_find_by_wsid E u w, ie_data = d, ie_len = length d, ie_ptr = p, ie_data_ptr = dp\<rparr>] \<and>
      (\<forall>B. ipc_inv B s \<longrightarrow> ipc_inv B (send_ipc E t u d s))"
proof -
  obtain w1 w2 where m: "x_malloc E (world s) = (True, w1)" "x_malloc E w1 = (True, w2)"
    using assms(2,3) by (metis (full_types) prod.collapse snd_conv)
  let ?e = "\<lparr>ie_type = t, ie_app = x_app_find_by_wsid E u w2, ie_data = d, ie_len = length d, ie_ptr = next_ptr s,
              ie_data_ptr = Suc (next_ptr s)\<rparr>"
  have q: "ipc_event_queue (send_ipc E t u d s) = ipc_event_queue s @ [?e]"
    using assms(1) m by (simp add: send_ipc_def malloc_def ll_laws_def)
  moreover have "ipc_inv B (send_ipc E t u d s)" if "ipc_inv B s" for B
    by (rule ipc_inv_add [OF that q]) (simp_all add: send_ipc_def malloc_def m)
  ultimately show ?thesis by blast
qed

section \<open>First in, first out\<close>

definition ipc_msgs :: "'x port \<Rightarrow> ipc_msg list" where
  "ipc_msgs s = map ipc_msg_of (ipc_event_queue s)"

text \<open>
  The conditions under which the queue is a FIFO queue: the list macros do what they
  promise, memory is available, an application is found under its own service id, and the
  handlers leave the queue alone and hand nothing over themselves.
\<close>

definition ipc_env_ok :: "'x env \<Rightarrow> bool" where
  "ipc_env_ok E \<longleftrightarrow> ll_laws E \<and> handlers_append (\<lambda>new. new = []) E \<and> (\<forall>w. fst (x_malloc E w)) \<and>
     (\<forall>a w w'. x_app_find_by_wsid E (x_app_wsid E a w) w' = Some a) \<and>
     (\<forall>k u d s. handed (x_app_to_core E k u d s) = handed s) \<and> (\<forall>a d s. handed (x_core_to_app E a d s) = handed s)"

definition ipc_ready :: "'x env \<Rightarrow> 'x port \<Rightarrow> bool" where
  "ipc_ready E s \<longleftrightarrow> ipc_env_ok E \<and> (\<exists>B. ipc_inv B s) \<and>
     (\<forall>e \<in> set (ipc_event_queue s). ie_type e \<noteq> EVENT_UNKNOWN \<and> ie_app e \<noteq> None)"

lemma ipc_send_core:
  assumes "ipc_ready E s"
  shows "ipc_msgs (ipc_send E m s) = ipc_msgs s @ [m]" and "ipc_ready E (ipc_send E m s)"
proof -
  from assms have E: "ll_laws E" "fst (x_malloc E w)" "x_app_find_by_wsid E (x_app_wsid E a w) w' = Some a" for a w w'
    by (simp_all add: ipc_ready_def ipc_env_ok_def)
  obtain t u d a where m: "ipc_send E m s = send_ipc E t u d s" "\<And>w. x_app_find_by_wsid E u w = Some a"
    "t \<noteq> EVENT_UNKNOWN" "\<And>e. ie_type e = t \<Longrightarrow> ie_app e = Some a \<Longrightarrow> ie_data e = d \<Longrightarrow> ipc_msg_of e = m"
    by (cases m) (auto simp: send_is_ipc E(3))
  from send_core [OF E(1,2,2), of t u d s] obtain e where
    q: "ipc_event_queue (send_ipc E t u d s) = ipc_event_queue s @ [e]" and e: "ie_type e = t" "ie_app e = Some a" "ie_data e = d"
    and inv: "\<forall>B. ipc_inv B s \<longrightarrow> ipc_inv B (send_ipc E t u d s)"
    by (auto simp: m(2))
  from q e m show "ipc_msgs (ipc_send E m s) = ipc_msgs s @ [m]" by (simp add: ipc_msgs_def del: ipc_msg_of.simps)
  from q e m inv assms show "ipc_ready E (ipc_send E m s)" by (auto simp: ipc_ready_def)
qed

lemma deliver_tells:
  assumes "ipc_env_ok E" and "deliver E e s = Some s1" and "ie_type e \<noteq> EVENT_UNKNOWN" and "ie_app e \<noteq> None"
  shows "\<exists>c. handed s1 = handed s @ [c] \<and> (\<forall>w. told E w c = Some (ipc_msg_of e))"
proof -
  have h: "handed (log_call c t) = handed t @ [c]" if "handover c" for c and t :: "'a port"
    using that by (simp add: handed_def)
  show ?thesis using assms
    by (cases "ie_type e")
       (auto simp: deliver_def receive_app_to_core_def receive_core_to_app_def ipc_env_ok_def h)
qed

lemma ipc_take_core:
  assumes "ipc_ready E s" and "ipc_msgs s = m # ms"
  shows "\<exists>s'. ipc_take E s = Some (m, s') \<and> ipc_msgs s' = ms \<and> ipc_ready E s'"
proof -
  from assms obtain e q B where q: "ipc_event_queue s = e # q" "ipc_msg_of e = m" "map ipc_msg_of q = ms" "ipc_inv B s"
    by (auto simp: ipc_msgs_def ipc_ready_def simp del: ipc_msg_of.simps)
  from assms(1) q have e: "ie_type e \<noteq> EVENT_UNKNOWN" "ie_app e \<noteq> None" "ipc_env_ok E"
    by (auto simp: ipc_ready_def)
  then have "ll_laws E" "handlers_append (\<lambda>new. new = []) E" by (auto simp: ipc_env_ok_def)
  with q e obtain s1 s2 B' where s2: "deliver E e s = Some s1" "port_service_ipc_task E s = Some s2" "ipc_inv B' s2"
    "ipc_event_queue s2 = q" "calls s2 = calls s1 @ [CFree (ie_data_ptr e), CFree (ie_ptr e)]"
    using ipc_task_core [of E "\<lambda>new. new = []" B s e q] by auto
  obtain c where "handed s1 = handed s @ [c]" "\<forall>w. told E w c = Some m"
    using deliver_tells [OF e(3) s2(1) e(1,2)] q(2) by blast
  with s2 q assms(1) show ?thesis
    by (auto simp: ipc_take_def ipc_msgs_def ipc_ready_def handed_def simp del: ipc_msg_of.simps)
qed

interpretation ipc: fifo_queue "ipc_send E" "ipc_take E" ipc_msgs "ipc_ready E" "\<lambda>xs. True" for E :: "'x env"
proof
  fix s :: "'x port" and m
  assume "ipc_ready E s"
  then show "ipc_msgs (ipc_send E m s) = ipc_msgs s @ [m]" "ipc_ready E (ipc_send E m s)"
    by (rule ipc_send_core)+
next
  fix s :: "'x port"
  show "ipc_msgs s = [] \<Longrightarrow> ipc_take E s = None" by (simp add: ipc_msgs_def ipc_take_def port_service_ipc_task_def)
next
  fix s :: "'x port" and m ms
  assume "ipc_ready E s" "ipc_msgs s = m # ms"
  then show "\<exists>s'. ipc_take E s = Some (m, s') \<and> ipc_msgs s' = ms \<and> ipc_ready E s'" by (rule ipc_take_core)
qed


definition sample_ipc_env :: "'x env" where
  "sample_ipc_env = sample_env\<lparr>x_app_find_by_wsid := \<lambda>u w. Some (length u), x_app_wsid := \<lambda>a w. replicate a 0\<rparr>"

lemma appends_id: "P [] \<Longrightarrow> appends P (\<lambda>s. s)"
  by (auto simp: appends_def)

lemma sample_ipc:
  "ll_laws sample_ipc_env" "P [] \<Longrightarrow> handlers_append P sample_ipc_env" "ipc_env_ok sample_ipc_env"
  by (simp_all add: sample_ipc_env_def sample_env_def ll_laws_def handlers_append_def appends_id ipc_env_ok_def)

text \<open>
  Property C7. Messages between core and applications are delivered in the order in which
  they were sent, none lost, duplicated, reordered or handed to the wrong side: each run of the task hands over exactly
  the message that was sent first of those that wait, to the core or to the application it was sent to, as the calls it makes
  show, whatever the interleaving of sends and
  task runs; the task on an empty queue does nothing. It is demanded that malloc succeeds, that the list macros append
  and delete, that an application is found under its service id, and that the handlers
  themselves send nothing and hand nothing over.
\<close>

theorem ipc_fifo:
  assumes "ipc_env_ok E" and "ipc_event_queue s = []" and "heap_ok s"
  shows "queue_outs (ipc_send E) (ipc_take E) ops s = fifo_outs ops [] \<and> port_service_ipc_task E s = Some s"
proof
  have "ipc_inv (live s) s" using assms by (simp add: ipc_inv_def)
  with assms have "ipc_ready E s" by (auto simp: ipc_ready_def)
  with ipc.outs_fifo [of E s ops] show "queue_outs (ipc_send E) (ipc_take E) ops s = fifo_outs ops []"
    by (simp add: ipc_msgs_def assms(2))
  show "port_service_ipc_task E s = Some s" by (simp add: port_service_ipc_task_def assms(2))
qed

theorem ipc_fifo_witness:
  "queue_outs (ipc_send sample_ipc_env) (ipc_take sample_ipc_env)
     [Put (To_Core 1 [7]), Put (To_App 2 [8, 9]), Take, Take, Take] (sample_port ())
   = [Some (To_Core 1 [7]), Some (To_App 2 [8, 9]), None]"
  using ipc_fifo [OF sample_ipc(3), of "sample_port ()"
      "[Put (To_Core 1 [7]), Put (To_App 2 [8, 9]), Take, Take, Take]"]
  by (simp add: sample_port_def heap_ok_def)

text \<open>
  One run of the task on a nonempty queue hands the first event, and only that
  one, to its handler, then removes it and releases its two blocks, data first; what the
  handler sent in the meantime stands at the tail, after everything that was waiting. An
  event for the core whose application was not found when it was sent makes the task read
  through a NULL pointer.
\<close>

theorem ipc_task_step:
  assumes "ll_laws E" and "handlers_append (\<lambda>new. True) E" and "ipc_inv B s" and "ipc_event_queue s = e # q"
  shows "if ie_type e = EVENT_APP_TO_CORE \<and> ie_app e = None then port_service_ipc_task E s = None
    else \<exists>s1 s2 B' new. deliver E e s = Some s1 \<and> port_service_ipc_task E s = Some s2 \<and> ipc_inv B' s2 \<and>
      ipc_event_queue s2 = q @ new \<and> live s2 = live s1 - {ie_ptr e, ie_data_ptr e} \<and>
      calls s2 = calls s1 @ [CFree (ie_data_ptr e), CFree (ie_ptr e)]"
proof (cases "ie_type e = EVENT_APP_TO_CORE \<and> ie_app e = None")
  case True
  with assms(4) show ?thesis by (simp add: port_service_ipc_task_def deliver_def)
next
  case False
  then have a: "ie_app e \<noteq> None" if "ie_type e = EVENT_APP_TO_CORE" using that by simp
  from ipc_task_core [OF assms(1,2) TrueI assms(3,4) a] show ?thesis unfolding if_not_P [OF False] by simp
qed

theorem ipc_task_step_witness:
  "port_service_ipc_task sample_ipc_env ((sample_port ())\<lparr>live := {0, 1}, next_ptr := 2, ipc_event_queue :=
     [\<lparr>ie_type = EVENT_APP_TO_CORE, ie_app = None, ie_data = [], ie_len = 0, ie_ptr = 0, ie_data_ptr = 1\<rparr>]\<rparr>) = None"
  using ipc_task_step [OF sample_ipc(1) sample_ipc(2) [OF TrueI], of "{}" "(sample_port ())\<lparr>live := {0, 1}, next_ptr := 2,
     ipc_event_queue := [\<lparr>ie_type = EVENT_APP_TO_CORE, ie_app = None, ie_data = [], ie_len = 0, ie_ptr = 0,
       ie_data_ptr = 1\<rparr>]\<rparr>"]
  by (simp add: ipc_inv_def heap_ok_def)

lemma send_ipc_no_memory:
  "\<not> fst (x_malloc E (world s)) \<Longrightarrow> send_ipc E t u d s = s\<lparr>world := snd (x_malloc E (world s))\<rparr>"
  "fst (x_malloc E (world s)) \<Longrightarrow> \<not> fst (x_malloc E (snd (x_malloc E (world s)))) \<Longrightarrow> ipc_inv B s \<Longrightarrow>
     ipc_event_queue (send_ipc E t u d s) = ipc_event_queue s \<and> live (send_ipc E t u d s) = insert (next_ptr s) (live s) \<and>
     next_ptr s \<notin> live s \<and> next_ptr s \<notin> set (ipc_blocks (ipc_event_queue s)) \<and>
     ipc_inv (insert (next_ptr s) B) (send_ipc E t u d s)"
proof -
  assume "\<not> fst (x_malloc E (world s))"
  then obtain w1 where "x_malloc E (world s) = (False, w1)" by (metis (full_types) prod.collapse)
  then show "send_ipc E t u d s = s\<lparr>world := snd (x_malloc E (world s))\<rparr>"
    by (simp add: send_ipc_def malloc_def)
next
  assume inv: "ipc_inv B s" and "fst (x_malloc E (world s))" "\<not> fst (x_malloc E (snd (x_malloc E (world s))))"
  then obtain w1 w2 where m: "x_malloc E (world s) = (True, w1)" "x_malloc E w1 = (False, w2)"
    by (metis (full_types) prod.collapse snd_conv)
  from inv have "next_ptr s \<notin> live s" by (auto simp: ipc_inv_def heap_ok_def)
  with m inv show "ipc_event_queue (send_ipc E t u d s) = ipc_event_queue s \<and>
     live (send_ipc E t u d s) = insert (next_ptr s) (live s) \<and>
     next_ptr s \<notin> live s \<and> next_ptr s \<notin> set (ipc_blocks (ipc_event_queue s)) \<and>
     ipc_inv (insert (next_ptr s) B) (send_ipc E t u d s)"
    by (auto simp: send_ipc_def malloc_def ipc_inv_def heap_ok_def less_Suc_eq)
qed

text \<open>
  Property C30. When memory runs out, a message is dropped without a trace in the queue; when
  only the data buffer cannot be allocated, the block of the event stays allocated for ever:
  it is live and no event of the queue owns it.
\<close>

theorem ipc_send_no_memory:
  "(\<not> fst (x_malloc E (world s)) \<longrightarrow>
     send_app_to_core E u d s = s\<lparr>world := snd (x_malloc E (world s))\<rparr> \<and>
     send_core_to_app E u d s = s\<lparr>world := snd (x_malloc E (world s))\<rparr>) \<and>
   (fst (x_malloc E (world s)) \<and> \<not> fst (x_malloc E (snd (x_malloc E (world s)))) \<and> ipc_inv B s \<longrightarrow>
     (\<forall>s' \<in> {send_app_to_core E u d s, send_core_to_app E u d s}.
        ipc_event_queue s' = ipc_event_queue s \<and> live s' = insert (next_ptr s) (live s) \<and>
        next_ptr s \<notin> live s \<and> next_ptr s \<notin> set (ipc_blocks (ipc_event_queue s)) \<and> ipc_inv (insert (next_ptr s) B) s'))"
  by (simp only: send_is_ipc ball_simps insert_iff empty_iff) (use send_ipc_no_memory [of E s] in blast)

theorem ipc_send_no_memory_witness:
  "ipc_event_queue (send_app_to_core (sample_env\<lparr>x_malloc := \<lambda>w. (w = 0, w + 1)\<rparr>) [1] [2] (sample_port (0 :: nat))) = [] \<and>
   live (send_app_to_core (sample_env\<lparr>x_malloc := \<lambda>w. (w = 0, w + 1)\<rparr>) [1] [2] (sample_port (0 :: nat))) = {0}"
  using ipc_send_no_memory [of "sample_env\<lparr>x_malloc := \<lambda>w. (w = 0, w + 1)\<rparr>" "sample_port (0 :: nat)" "[1]" "[2]" "{}"]
  by (simp add: sample_simps ipc_inv_def heap_ok_def)

end
