(* ===== verification/Port_Platform.thy ===== *)
theory Port_Platform
  imports Sample_Env
begin

text \<open>
  \<open>source/mist_port/port_platform.c\<close>: the functions that the port hands to the Wish core,
  and the loading of the identities at start-up.  The identity database of the core is an
  argument: its three functions are the record \<open>identity_api\<close>.
\<close>

section \<open>The platform functions\<close>

text \<open>The random numbers of the core.\<close>

definition esp_random_wrapper :: "unit \<Rightarrow> int" where
  "esp_random_wrapper _ = 4"

datatype host_function = Malloc | Realloc | Free | Vprintf | Vsprintf

datatype fs_function = My_fs_open | My_fs_read | My_fs_write | My_fs_lseek | My_fs_close | My_fs_rename | My_fs_remove

record platform =
  p_malloc :: "host_function option"
  p_realloc :: "host_function option"
  p_free :: "host_function option"
  p_rng :: "(unit \<Rightarrow> int) option"
  p_vprintf :: "host_function option"
  p_vsprintf :: "host_function option"
  fs_open :: "fs_function option"
  fs_read :: "fs_function option"
  fs_write :: "fs_function option"
  fs_lseek :: "fs_function option"
  fs_close :: "fs_function option"
  fs_rename :: "fs_function option"
  fs_remove :: "fs_function option"

definition port_platform_deps :: "platform \<Rightarrow> platform" where
  "port_platform_deps p = p\<lparr>p_malloc := Some Malloc, p_realloc := Some Realloc, p_free := Some Free,
     p_rng := Some esp_random_wrapper, p_vprintf := Some Vprintf, p_vsprintf := Some Vsprintf,
     fs_open := Some My_fs_open, fs_read := Some My_fs_read, fs_write := Some My_fs_write,
     fs_lseek := Some My_fs_lseek, fs_close := Some My_fs_close, fs_rename := Some My_fs_rename,
     fs_remove := Some My_fs_remove\<rparr>"

text \<open>A sequence of random numbers, as the core draws them.\<close>

definition draw :: "platform \<Rightarrow> nat \<Rightarrow> int list option" where
  "draw p n = map_option (\<lambda>rng. map (\<lambda>_. rng ()) [0 ..< n]) (p_rng p)"

text \<open>
  After port_platform_deps every function the core needs is set, and the random
  numbers it draws are all 4.
\<close>

theorem platform_rng_constant:
  "draw (port_platform_deps p) n = Some (replicate n 4)"
  by (simp add: draw_def port_platform_deps_def esp_random_wrapper_def map_replicate_const)

section \<open>Identities\<close>

record ('x, 'id) identity_api =
  update_identities :: "'x port \<Rightarrow> 'x port"
  create_local_identity :: "string \<Rightarrow> 'x port \<Rightarrow> 'id \<times> 'x port"
  save_identity_entry :: "'id \<Rightarrow> 'x port \<Rightarrow> 'x port"

definition skip_acl :: "'x port \<Rightarrow> 'x port" where
  "skip_acl s = s\<lparr>core := (core s)\<lparr>config_skip_connection_acl := True\<rparr>\<rparr>"

definition port_platform_load_identities :: "('x, 'id) identity_api \<Rightarrow> 'x port \<Rightarrow> 'x port" where
  "port_platform_load_identities A s0 =
     (let s = update_identities A s0 in
      if num_ids (core s) = 0 then
        (let (id, s) = create_local_identity A ''Bosch XDK'' s;
             s = save_identity_entry A id s;
             s = update_identities A s
         in skip_acl s)
      else if num_ids (core s) = 1 then skip_acl s
      else s)"

text \<open>
  The database: \<open>db\<close> counts its entries; updating reads the count into the core, creating an
  identity adds none. Saving one adds an entry, or fails and adds none.
\<close>

definition identity_laws :: "('x \<Rightarrow> nat) \<Rightarrow> ('x, 'id) identity_api \<Rightarrow> bool" where
  "identity_laws db A \<longleftrightarrow>
     (\<forall>s. db (world (update_identities A s)) = db (world s) \<and>
          num_ids (core (update_identities A s)) = int (db (world s)) \<and>
          config_skip_connection_acl (core (update_identities A s)) = config_skip_connection_acl (core s)) \<and>
     (\<forall>n s. db (world (snd (create_local_identity A n s))) = db (world s) \<and>
          config_skip_connection_acl (core (snd (create_local_identity A n s))) = config_skip_connection_acl (core s)) \<and>
     (\<forall>i s. db (world (save_identity_entry A i s)) \<in> {db (world s), Suc (db (world s))} \<and>
          config_skip_connection_acl (core (save_identity_entry A i s)) = config_skip_connection_acl (core s))"

text \<open>The database after the new identity was handed to the saving function, as a start without identities does it.\<close>

definition db_after_save :: "('x \<Rightarrow> nat) \<Rightarrow> ('x, 'id) identity_api \<Rightarrow> 'x port \<Rightarrow> nat" where
  "db_after_save db A s =
     (let (id, t) = create_local_identity A ''Bosch XDK'' (update_identities A s) in db (world (save_identity_entry A id t)))"

text \<open>
  Property C38. After start-up the core counts exactly the identities of the database. A
  database that held some is left as it was; to an empty one, one new identity is handed for
  saving, so that there is one afterwards if the saving succeeded and none if it failed. The
  access control of connections is switched off exactly when the database held at most one
  entry at the start, hence also when the saving failed; with more it is left as it was. The
  functions of the identity database are those of the core library; of them it is demanded
  that updating reads the number of entries, that creating an identity adds no entry and
  saving it one or none, and that none of them touches the setting of the access control.
\<close>

theorem identities_loaded:
  assumes "identity_laws db A"
  shows "let s' = port_platform_load_identities A s; n = db (world s) in
    num_ids (core s') = int (db (world s')) \<and>
    db (world s') = (if n = 0 then db_after_save db A s else n) \<and> db (world s') \<le> max 1 n \<and>
    config_skip_connection_acl (core s') = (n \<le> 1 \<or> config_skip_connection_acl (core s))"
proof -
  have u: "db (world (update_identities A t)) = db (world t)" "num_ids (core (update_identities A t)) = int (db (world t))"
    "config_skip_connection_acl (core (update_identities A t)) = config_skip_connection_acl (core t)" for t
    using assms by (simp_all add: identity_laws_def)
  have c: "db (world (snd (create_local_identity A n t))) = db (world t)" for n t
    using assms by (simp add: identity_laws_def)
  have v: "db (world (save_identity_entry A i t)) \<in> {db (world t), Suc (db (world t))}" for i t
    using assms by (simp add: identity_laws_def)
  obtain id t where t: "create_local_identity A ''Bosch XDK'' (update_identities A s) = (id, t)" by force
  with c [of "''Bosch XDK''" "update_identities A s"] v [of id t]
  have saved: "db_after_save db A s = db (world (save_identity_entry A id t))" "db_after_save db A s \<in> {db (world s), Suc (db (world s))}"
    by (auto simp: db_after_save_def u)
  consider "db (world s) = 0" | "db (world s) = 1" | "db (world s) \<ge> 2" by linarith
  then show ?thesis
    by cases (use t saved in \<open>auto simp add: port_platform_load_identities_def Let_def skip_acl_def u\<close>)
qed

text \<open>A database whose saving succeeds, and one whose saving fails.\<close>

definition sample_identities :: "(nat, nat) identity_api" where
  "sample_identities = \<lparr>update_identities = (\<lambda>s. s\<lparr>core := (core s)\<lparr>num_ids := int (world s)\<rparr>\<rparr>),
     create_local_identity = (\<lambda>n s. (length n, s)), save_identity_entry = (\<lambda>i s. s\<lparr>world := Suc (world s)\<rparr>)\<rparr>"

definition full_identities :: "(nat, nat) identity_api" where
  "full_identities = sample_identities\<lparr>save_identity_entry := (\<lambda>i s. s)\<rparr>"

theorem identities_loaded_witness:
  "num_ids (core (port_platform_load_identities sample_identities (sample_port 0))) = 1 \<and>
   num_ids (core (port_platform_load_identities full_identities (sample_port 0))) = 0 \<and>
   config_skip_connection_acl (core (port_platform_load_identities full_identities (sample_port 0)))"
  using identities_loaded [of "\<lambda>n. n" sample_identities "sample_port 0"]
    identities_loaded [of "\<lambda>n. n" full_identities "sample_port 0"]
  by (simp add: identity_laws_def db_after_save_def full_identities_def sample_identities_def sample_port_def Let_def)

end
