(* ===== verification/Port_Main.thy ===== *)
theory Port_Main
  imports Relay_Client Service_IPC Port_Platform
begin

text \<open>
  \<open>source/mist_port/port_main.c\<close>: the main loop.  One turn registers the descriptors of
  the server, the local discovery, the relays and the connections, waits in select, serves
  whatever is ready, lets the core process its events, runs the periodic work and one step
  of the service queue.  A descriptor set is a set of descriptors: putting one into it that does
  not fit is undefined, and asking whether it holds one is membership.  The relay list and the
  connection pool are walked by index.  The list of relays is the one found when its walk
  begins: a relay that a callback of this walk adds or removes is not followed.
\<close>

section \<open>Registering the descriptors\<close>

definition update_max_fd :: "int \<Rightarrow> 'x port \<Rightarrow> 'x port" where
  "update_max_fd fd s = (if fd \<ge> max_fd s then s\<lparr>max_fd := fd + 1\<rparr> else s)"

type_synonym 'x fds = "int set \<times> int set \<times> 'x port"

text \<open>
  A descriptor set has room for the descriptors from 0 up to FD_SETSIZE (which the socket
  library defines); putting another one into a set writes outside of it.
\<close>

definition fd_ok :: "'x env \<Rightarrow> int \<Rightarrow> bool" where
  "fd_ok E fd \<longleftrightarrow> 0 \<le> fd \<and> fd < fd_setsize E"

definition select_read :: "'x env \<Rightarrow> int \<Rightarrow> 'x fds \<Rightarrow> 'x fds option" where
  "select_read E fd z = (case z of (rfds, wfds, s) \<Rightarrow>
     if fd_ok E fd then Some (insert fd rfds, wfds, update_max_fd fd s) else None)"

definition select_write :: "'x env \<Rightarrow> int \<Rightarrow> 'x fds \<Rightarrow> 'x fds option" where
  "select_write E fd z = (case z of (rfds, wfds, s) \<Rightarrow>
     if fd_ok E fd then Some (rfds, insert fd wfds, update_max_fd fd s) else None)"

definition setup_relay :: "'x env \<Rightarrow> nat \<Rightarrow> 'x fds \<Rightarrow> 'x fds option" where
  "setup_relay E j z = (let rc = relay j (snd (snd z)) in
     if curr_state rc = WISH_RELAY_CLIENT_CONNECTING then
       (if sockfd rc \<noteq> -1 then select_write E (sockfd rc) z else Some z)
     else if curr_state rc = WISH_RELAY_CLIENT_WAIT_RECONNECT then Some z
     else if curr_state rc = WISH_RELAY_CLIENT_RESOLVING then Some z
     else if curr_state rc \<noteq> WISH_RELAY_CLIENT_INITIAL then
       (if sockfd rc \<noteq> -1 then select_read E (sockfd rc) z else Some z)
     else Some z)"

definition setup_conn :: "'x env \<Rightarrow> nat \<Rightarrow> 'x fds \<Rightarrow> 'x fds option" where
  "setup_conn E i z = (let s = snd (snd z); ctx = conn i s in
     if context_state ctx = WISH_CONTEXT_FREE then Some z
     else if send_arg ctx = None then Some z
     else do {
       a \<leftarrow> load (send_arg ctx) s;
       if curr_transport_state ctx = TRANSPORT_STATE_CONNECTING
       then select_write E (sock_fd a) z else select_read E (sock_fd a) z
     })"

text \<open>A C loop over the contexts: it stops with the first undefined step.\<close>

fun each :: "(nat \<Rightarrow> 's \<Rightarrow> 's option) \<Rightarrow> nat list \<Rightarrow> 's \<Rightarrow> 's option" where
  "each f [] s = Some s"
| "each f (i # is) s = f i s \<bind> each f is"

definition setup_fds :: "'x env \<Rightarrow> int \<Rightarrow> int \<Rightarrow> 'x port \<Rightarrow> 'x fds option" where
  "setup_fds E server_fd wld s = do {
     z \<leftarrow> select_read E server_fd ({}, {}, s);
     z \<leftarrow> select_read E wld z;
     z \<leftarrow> each (setup_relay E) [0 ..< length (relay_db (core s))] z;
     each (setup_conn E) [0 ..< length (connection_pool (core s))] z
   }"

section \<open>Serving the relays\<close>

text \<open>
  On this chip connect is called again, to ask how the pending connect went.  The address is
  computed by htons, a function on 16 bits, from a 32-bit address.
\<close>

definition dispatch_relay :: "'x env \<Rightarrow> int set \<Rightarrow> int set \<Rightarrow> nat \<Rightarrow> 'x port \<Rightarrow> 'x port" where
  "dispatch_relay E rfds wfds j s0 = (let rc = relay j s0 in
     if curr_state rc = WISH_RELAY_CLIENT_CONNECTING \<and> sockfd rc \<noteq> -1 \<and> sockfd rc \<in> wfds then
       (let relay_serv_addr = \<lparr>sin_family = AF_INET, sin_port = htons (relay_port rc),
              sin_addr = ucast (htons (ucast (x_ipv4_value E (port_get_relay_ip s0))))\<rparr>;
            (connect_error, s) = sl_connect E (sockfd rc) relay_serv_addr s0
        in if connect_error \<ge> 0 then
             x_relay_periodic E j (log_call (CRelayPeriodic j)
               (x_relay_connected E j (log_call (CRelayConnected j) s)))
           else if connect_error = sl_ealready E then s
           else
             (let s = x_relay_connect_fail E j (log_call (CRelayConnectFail j) s)
              in sl_close (sockfd (relay j s)) s))
     else if curr_state rc = WISH_RELAY_CLIENT_WAIT_RECONNECT then s0
     else if curr_state rc = WISH_RELAY_CLIENT_RESOLVING then s0
     else if curr_state rc \<noteq> WISH_RELAY_CLIENT_INITIAL \<and> sockfd rc \<noteq> -1 \<and> sockfd rc \<in> rfds then
       (let ((read_len, bytes), s) = sl_recv E (sockfd rc) 1 s0 in
        if read_len > 0 then
          x_relay_periodic E j (log_call (CRelayPeriodic j)
            (x_relay_feed E j (hd bytes) (log_call (CRelayFeed j (hd bytes)) s)))
        else if read_len = 0 then
          (let s = x_relay_disconnect E j (log_call (CRelayDisconnect j) s)
           in sl_close (sockfd (relay j s)) s)
        else s)
     else s0)"

section \<open>Serving the connections\<close>

definition max_read :: u32 where
  "max_read = 512"

text \<open>
  The comparison is made in size_t, so that a negative answer of the core (an error that is
  only reported) counts as very large.
\<close>

definition read_buf_len :: "int \<Rightarrow> u32" where
  "read_buf_len rb_free = (if (word_of_int rb_free :: u32) > max_read then max_read else word_of_int rb_free)"

text \<open>
  The result says whether the loop body goes on (\<open>False\<close> is the \<open>continue\<close>).  The core
  is told to read \<open>read_len\<close> bytes of the buffer.
\<close>

definition read_conn :: "'x env \<Rightarrow> nat \<Rightarrow> int \<Rightarrow> 'x port \<Rightarrow> (bool \<times> 'x port) option" where
  "read_conn E i fd s0 = (let rb_free = x_rx_buffer_free E i s0 in
     if rb_free = 0 then Some (False, s0)
     else
       (let len = unat (read_buf_len rb_free);
            ((read_len, buffer), s) = sl_recv E fd len s0
        in if read_len > 0 then
             (if nat read_len > len then None
              else let bytes = take (nat read_len) buffer;
                       s = x_feed E i bytes (log_call (CFeed i bytes) s)
                   in Some (True, post \<lparr>event_type = WISH_EVENT_NEW_DATA, ev_context = Some i\<rparr> s))
           else if read_len = 0 then do {
             s \<leftarrow> free (send_arg (conn i s)) (sl_close fd s);
             Some (False, signal E i TCP_DISCONNECTED s)
           }
           else Some (True, s)))"

definition connect_conn :: "'x env \<Rightarrow> nat \<Rightarrow> int \<Rightarrow> 'x port \<Rightarrow> 'x port option" where
  "connect_conn E i fd s0 = do {
     a \<leftarrow> load (send_arg (conn i s0)) s0;
     let (connect_ret, s) = sl_connect E fd (remote_addr a) s0;
     if connect_ret \<ge> 0 then
       Some (if curr_transport_state (conn i s) = TRANSPORT_STATE_CONNECTING then
               (if via_relay (conn i s) then connected_cb_relay E i s else connected_cb E i s)
             else s)
     else do {
       s \<leftarrow> connect_fail_cb E i s;
       Some (sl_close fd s)
     }
   }"

definition dispatch_conn :: "'x env \<Rightarrow> int set \<Rightarrow> int set \<Rightarrow> nat \<Rightarrow> 'x port \<Rightarrow> 'x port option" where
  "dispatch_conn E rfds wfds i s =
     (if context_state (conn i s) = WISH_CONTEXT_FREE then Some s
      else if send_arg (conn i s) = None then Some s
      else do {
        a \<leftarrow> load (send_arg (conn i s)) s;
        let fd = sock_fd a;
        (goes_on, s) \<leftarrow> (if fd \<in> rfds then read_conn E i fd s else Some (True, s));
        if goes_on \<and> fd \<in> wfds then connect_conn E i fd s else Some s
      })"

section \<open>Accepting connections\<close>

text \<open>A failed accept is reported and then ignored, and the result of malloc is not tested.\<close>

definition accept_conn :: "'x env \<Rightarrow> int \<Rightarrow> 'x port \<Rightarrow> 'x port option" where
  "accept_conn E server_fd s0 =
     (let (newsockfd, s) = sl_accept E server_fd s0;
          s = socket_set_nonblocking newsockfd s;
          (ctx, s) = x_connection_init E s
      in case ctx of
           None \<Rightarrow> Some (sl_close newsockfd s)
         | Some i \<Rightarrow> do {
             let (p, s) = malloc E s;
             s \<leftarrow> store p (\<lambda>a. a\<lparr>sock_fd := newsockfd\<rparr>) s;
             q \<leftarrow> p;
             let s = x_register_send E i q (log_call (CRegisterSend i q) s);
             Some (signal E i TCP_CLIENT_CONNECTED s)
           })"

section \<open>The turn of the loop\<close>

text \<open>
  The relays are walked by the indices of the list as the walk finds it.  The code follows the next
  pointers with LL_FOREACH, which comes to the same unless a relay callback of the core changes
  the list during the walk; what the code does then is not represented.
\<close>

definition dispatch :: "'x env \<Rightarrow> int \<Rightarrow> int \<Rightarrow> int set \<Rightarrow> int set \<Rightarrow> 'x port \<Rightarrow> 'x port option" where
  "dispatch E server_fd wld rfds wfds s = do {
     s \<leftarrow> (if wld \<in> rfds then read_wish_local_discovery E s else Some s);
     let s = fold (dispatch_relay E rfds wfds) [0 ..< length (relay_db (core s))] s;
     s \<leftarrow> each (dispatch_conn E rfds wfds) [0 ..< length (connection_pool (core s))] s;
     if server_fd \<in> rfds then accept_conn E server_fd s else Some s
   }"

definition seconds :: "'x env \<Rightarrow> u32 \<Rightarrow> int" where
  "seconds E tick = uint (tick div port_tick_rate_ms E) div 1000"

definition tick10 :: "int \<Rightarrow> 'x port \<Rightarrow> 'x port" where
  "tick10 sec_cnt s = (if sec_cnt > timestamp s + 10 then s\<lparr>timestamp := sec_cnt\<rparr> else s)"

definition periodic :: "'x env \<Rightarrow> int \<Rightarrow> 'x port \<Rightarrow> 'x port" where
  "periodic E sec_cnt s =
     (if sec_cnt > periodic_timestamp s then
        (let s = s\<lparr>periodic_timestamp := sec_cnt\<rparr>;
             s = x_time_report E (log_call CTimeReport s)
         in x_sensors_periodic E (log_call CSensorsPeriodic s))
      else s)"

text \<open>
  The core's events are processed until there are none left: a loop that may run for ever.
  The processor receives a pointer into the ring, that is, a slot.
\<close>

partial_function (option) drain_events :: "'x env \<Rightarrow> 'x port \<Rightarrow> 'x port option" where
  "drain_events E s = (case get_next_event (port_evq s) of
     (None, q) \<Rightarrow> Some (s\<lparr>port_evq := q\<rparr>)
   | (Some slot, q) \<Rightarrow> drain_events E (x_processor E slot (s\<lparr>port_evq := q\<rparr>)))"

definition port_main_turn :: "'x env \<Rightarrow> int \<Rightarrow> int \<Rightarrow> 'x port \<Rightarrow> 'x port option" where
  "port_main_turn E server_fd wld s0 = do {
     (rfds, wfds, s) \<leftarrow> setup_fds E server_fd wld s0;
     let ((select_ret, rfds, wfds), w) = x_select E (max_fd s) rfds wfds (world s);
     let s = s\<lparr>world := w\<rparr>;
     s \<leftarrow> (if select_ret > 0 then dispatch E server_fd wld rfds wfds s else Some s);
     let (tick, w) = x_tick E (world s);
     let s = s\<lparr>world := w\<rparr>;
     let sec_cnt = seconds E tick;
     let s = tick10 sec_cnt s;
     s \<leftarrow> drain_events E s;
     let s = periodic E sec_cnt s;
     port_service_ipc_task E s
   }"

text \<open>
  Before the loop.  \<open>core_init\<close> stands for mounting the file system, setting the platform
  functions and wish_core_init, \<open>apps\<close> for the start of the two applications; \<open>A\<close> is the
  identity database.  Then \<open>n\<close> turns of the loop.
\<close>

definition port_main_start ::
  "'x env \<Rightarrow> ('x, 'id) identity_api \<Rightarrow> ('x port \<Rightarrow> 'x port) \<Rightarrow> ('x port \<Rightarrow> 'x port) \<Rightarrow> 'x port \<Rightarrow> int \<times> int \<times> 'x port" where
  "port_main_start E A core_init apps s0 =
     (let s = core_init s0;
          s = port_platform_load_identities A s;
          s = setup_wish_server E s;
          s = setup_wish_local_discovery E s;
          wld = get_wld_fd s;
          server_fd = get_server_fd s
      in (server_fd, wld, apps s))"

fun port_main_turns :: "'x env \<Rightarrow> int \<Rightarrow> int \<Rightarrow> nat \<Rightarrow> 'x port \<Rightarrow> 'x port option" where
  "port_main_turns E server_fd wld 0 s = Some s"
| "port_main_turns E server_fd wld (Suc n) s =
     port_main_turn E server_fd wld s \<bind> port_main_turns E server_fd wld n"

section \<open>What is waited for\<close>

definition relay_reads :: "wish_relay_client \<Rightarrow> int set" where
  "relay_reads rc = (if curr_state rc \<in> {WISH_RELAY_CLIENT_CONNECTING, WISH_RELAY_CLIENT_WAIT_RECONNECT,
     WISH_RELAY_CLIENT_RESOLVING, WISH_RELAY_CLIENT_INITIAL} then {} else {sockfd rc} - {-1})"

definition relay_writes :: "wish_relay_client \<Rightarrow> int set" where
  "relay_writes rc = (if curr_state rc = WISH_RELAY_CLIENT_CONNECTING then {sockfd rc} - {-1} else {})"

definition conn_reads :: "'x port \<Rightarrow> wish_connection \<Rightarrow> int set" where
  "conn_reads s c = (case send_arg c of
     Some p \<Rightarrow> if context_state c = WISH_CONTEXT_FREE \<or> curr_transport_state c = TRANSPORT_STATE_CONNECTING
                then {} else {sock_fd (heap s p)}
   | None \<Rightarrow> {})"

definition conn_writes :: "'x port \<Rightarrow> wish_connection \<Rightarrow> int set" where
  "conn_writes s c = (case send_arg c of
     Some p \<Rightarrow> if context_state c \<noteq> WISH_CONTEXT_FREE \<and> curr_transport_state c = TRANSPORT_STATE_CONNECTING
                then {sock_fd (heap s p)} else {}
   | None \<Rightarrow> {})"

text \<open>The sets and the bound after some registrations; only \<open>max_fd\<close> of the state changes.\<close>

definition registered :: "'x port \<Rightarrow> int set \<Rightarrow> int set \<Rightarrow> 'x fds \<Rightarrow> bool" where
  "registered s R W z \<longleftrightarrow> (\<exists>m. z = (R, W, s\<lparr>max_fd := m\<rparr>) \<and> max_fd s \<le> m \<and> (\<forall>fd \<in> R \<union> W. fd < m))"

lemma update_max_fd_eq: "update_max_fd fd (s\<lparr>max_fd := m\<rparr>) = s\<lparr>max_fd := max m (fd + 1)\<rparr>"
  by (auto simp: update_max_fd_def max_def)

text \<open>
  The result of some registrations: defined exactly when every descriptor has room in a set.
\<close>

definition registers :: "'x env \<Rightarrow> 'x port \<Rightarrow> int set \<Rightarrow> int set \<Rightarrow> 'x fds option \<Rightarrow> bool" where
  "registers E s R W r \<longleftrightarrow>
     (if \<forall>fd \<in> R \<union> W. fd_ok E fd then \<exists>z. r = Some z \<and> registered s R W z else r = None)"

lemma registered_select:
  assumes "registered s R W z" and "fd_ok E fd"
  shows "\<exists>z'. select_read E fd z = Some z' \<and> registered s (insert fd R) W z'"
    and "\<exists>z'. select_write E fd z = Some z' \<and> registered s R (insert fd W) z'"
proof -
  obtain m where m: "z = (R, W, s\<lparr>max_fd := m\<rparr>)" "max_fd s \<le> m" "\<forall>fd \<in> R \<union> W. fd < m"
    using assms by (auto simp: registered_def)
  then have "x < max m (fd + 1)" if "x \<in> insert fd (R \<union> W)" for x using that by (auto simp: less_max_iff_disj)
  moreover have "max_fd s \<le> max m (fd + 1)" using m(2) by simp
  ultimately have "max_fd s \<le> max m (fd + 1)" "\<forall>x \<in> insert fd (R \<union> W). x < max m (fd + 1)" by blast+
  with m(1) assms(2) show "\<exists>z'. select_read E fd z = Some z' \<and> registered s (insert fd R) W z'"
    "\<exists>z'. select_write E fd z = Some z' \<and> registered s R (insert fd W) z'"
    by (auto simp: registered_def select_read_def select_write_def update_max_fd_eq intro!: exI [of _ "max m (fd + 1)"])
qed

lemma select_outside:
  "\<not> fd_ok E fd \<Longrightarrow> select_read E fd z = None" "\<not> fd_ok E fd \<Longrightarrow> select_write E fd z = None"
  by (simp_all add: select_read_def select_write_def split: prod.split)

lemma registers_select:
  assumes "registers E s R W r"
  shows "registers E s (insert fd R) W (r \<bind> select_read E fd)" and "registers E s R (insert fd W) (r \<bind> select_write E fd)"
proof -
  show "registers E s (insert fd R) W (r \<bind> select_read E fd)"
    using assms registered_select(1) [of s R W _ E fd] select_outside(1) [of E fd]
    by (cases r) (auto simp: registers_def split: if_splits)
  show "registers E s R (insert fd W) (r \<bind> select_write E fd)"
    using assms registered_select(2) [of s R W _ E fd] select_outside(2) [of E fd]
    by (cases r) (auto simp: registers_def split: if_splits)
qed

lemma registers_state: "registers E s R W (Some z) \<Longrightarrow> z = (R, W, snd (snd z)) \<and> (\<exists>m. snd (snd z) = s\<lparr>max_fd := m\<rparr>)"
  by (auto simp: registers_def registered_def split: if_splits)

lemma registers_relay:
  assumes "registers E s R W r"
  shows "registers E s (R \<union> relay_reads (relay j s)) (W \<union> relay_writes (relay j s)) (r \<bind> setup_relay E j)"
proof (cases r)
  case None
  with assms show ?thesis by (auto simp: registers_def split: if_splits)
next
  case (Some z)
  with assms registers_state have "relay j (snd (snd z)) = relay j s" by fastforce
  with assms Some registers_select [OF assms, of "sockfd (relay j s)"] show ?thesis
    by (simp add: setup_relay_def Let_def relay_reads_def relay_writes_def)
qed

lemma bind_each [simp]: "r \<bind> each f [] = r" "r \<bind> each f (i # is) = (r \<bind> f i) \<bind> each f is"
  by (cases r; simp)+

lemma registers_relays:
  "registers E s R W r \<Longrightarrow> registers E s (R \<union> (\<Union>j \<in> set js. relay_reads (relay j s)))
     (W \<union> (\<Union>j \<in> set js. relay_writes (relay j s))) (r \<bind> each (setup_relay E) js)"
proof (induction js arbitrary: R W r)
  case (Cons j js)
  from Cons.IH [OF registers_relay [OF Cons.prems, of j]] show ?case by (simp add: Un_assoc)
qed simp

lemma registers_conn:
  assumes "registers E s R W r" and live: "\<forall>p. send_arg (conn i s) = Some p \<longrightarrow> p \<in> live s"
  shows "registers E s (R \<union> conn_reads s (conn i s)) (W \<union> conn_writes s (conn i s)) (r \<bind> setup_conn E i)"
proof (cases r)
  case None
  with assms show ?thesis by (auto simp: registers_def split: if_splits)
next
  case (Some z)
  with assms registers_state have c: "conn i (snd (snd z)) = conn i s" "live (snd (snd z)) = live s" "heap (snd (snd z)) = heap s"
    by fastforce+
  show ?thesis
  proof (cases "send_arg (conn i s)")
    case None
    with assms(1) Some c show ?thesis by (simp add: setup_conn_def conn_reads_def conn_writes_def Let_def)
  next
    case (Some p)
    with c live \<open>r = Some z\<close> assms(1) registers_select [OF assms(1), of "sock_fd (heap s p)"] show ?thesis
      by (simp add: setup_conn_def conn_reads_def conn_writes_def load_def Let_def)
  qed
qed

lemma registers_conns:
  assumes "registers E s R W r" and "\<forall>i \<in> set is. \<forall>p. send_arg (conn i s) = Some p \<longrightarrow> p \<in> live s"
  shows "registers E s (R \<union> (\<Union>i \<in> set is. conn_reads s (conn i s)))
     (W \<union> (\<Union>i \<in> set is. conn_writes s (conn i s))) (r \<bind> each (setup_conn E) is)"
  using assms
proof (induction "is" arbitrary: R W r)
  case (Cons i "is")
  then have "\<forall>p. send_arg (conn i s) = Some p \<longrightarrow> p \<in> live s" by simp
  from Cons.IH [OF registers_conn [OF Cons.prems(1) this]] Cons.prems(2) show ?case by (simp add: Un_assoc)
qed simp

text \<open>The descriptors of a turn.\<close>

definition wait_reads :: "int \<Rightarrow> int \<Rightarrow> 'x port \<Rightarrow> int set" where
  "wait_reads server_fd wld s = {server_fd, wld} \<union> (\<Union>j < length (relay_db (core s)). relay_reads (relay j s))
     \<union> (\<Union>i < length (connection_pool (core s)). conn_reads s (conn i s))"

definition wait_writes :: "'x port \<Rightarrow> int set" where
  "wait_writes s = (\<Union>j < length (relay_db (core s)). relay_writes (relay j s))
     \<union> (\<Union>i < length (connection_pool (core s)). conn_writes s (conn i s))"

lemma setup_fds_registers:
  assumes "\<forall>i < length (connection_pool (core s)). \<forall>p. send_arg (conn i s) = Some p \<longrightarrow> p \<in> live s"
  shows "registers E s (wait_reads server_fd wld s) (wait_writes s) (setup_fds E server_fd wld s)"
proof -
  have "registers E s {} {} (Some ({}, {}, s))" by (auto simp: registers_def registered_def intro: exI [of _ "max_fd s"])
  note registers_select(1) [OF registers_select(1) [OF this, of server_fd], of wld]
  note z = registers_relays [OF this, of "[0 ..< length (relay_db (core s))]"]
  have a: "\<forall>i \<in> set [0 ..< length (connection_pool (core s))]. \<forall>p. send_arg (conn i s) = Some p \<longrightarrow> p \<in> live s"
    using assms by simp
  have r: "wait_reads server_fd wld s = {wld, server_fd} \<union> (\<Union>j < length (relay_db (core s)). relay_reads (relay j s))
     \<union> (\<Union>i < length (connection_pool (core s)). conn_reads s (conn i s))" by (auto simp: wait_reads_def)
  from registers_conns [OF z a] show ?thesis
    unfolding r wait_writes_def setup_fds_def by (simp add: atLeast0LessThan)
qed

lemma setup_fds_core:
  assumes "\<forall>i < length (connection_pool (core s)). \<forall>p. send_arg (conn i s) = Some p \<longrightarrow> p \<in> live s"
  shows "if \<forall>fd \<in> wait_reads server_fd wld s \<union> wait_writes s. fd_ok E fd
    then \<exists>m. setup_fds E server_fd wld s = Some (wait_reads server_fd wld s, wait_writes s, s\<lparr>max_fd := m\<rparr>) \<and>
        max_fd s \<le> m \<and> (\<forall>fd \<in> wait_reads server_fd wld s \<union> wait_writes s. fd < m)
    else setup_fds E server_fd wld s = None"
  using setup_fds_registers [OF assms, of E server_fd wld] by (auto simp: registers_def registered_def)

text \<open>
  Property C17. What the loop waits for: the read set is exactly the server, the discovery
  socket, the relays that are connected (not those connecting, resolving, waiting or not yet
  opened) and the connections in use that are not connecting; the write set is exactly the
  relays and connections with a connect pending. Every one of these descriptors is below the
  \<open>max_fd\<close> given to select, and \<open>max_fd\<close>, the only thing that changes, never falls. The code
  never tests a descriptor before it puts it into a set: the turn is defined exactly when
  every one of them fits (from 0 up to FD_SETSIZE), and undefined as soon as one of them
  does not, as with the negative result of a failed socket or accept.
\<close>

theorem select_sets_exact:
  assumes "\<forall>i < length (connection_pool (core s)). \<forall>p. send_arg (conn i s) = Some p \<longrightarrow> p \<in> live s"
  shows "if \<forall>fd \<in> wait_reads server_fd wld s \<union> wait_writes s. fd_ok E fd
    then \<exists>m. setup_fds E server_fd wld s = Some (wait_reads server_fd wld s, wait_writes s, s\<lparr>max_fd := m\<rparr>) \<and>
        max_fd s \<le> m \<and> (\<forall>fd \<in> wait_reads server_fd wld s \<union> wait_writes s. fd < m)
    else setup_fds E server_fd wld s = None"
  using assms by (rule setup_fds_core)

theorem select_sets_exact_witness:
  "(\<exists>m. setup_fds sample_env 1 2 (upd_relay 0 (\<lambda>r. r\<lparr>curr_state := WISH_RELAY_CLIENT_CONNECTING, sockfd := 6\<rparr>) (sample_port ()))
      = Some ({1, 2}, {6}, (upd_relay 0 (\<lambda>r. r\<lparr>curr_state := WISH_RELAY_CLIENT_CONNECTING, sockfd := 6\<rparr>)
          (sample_port ()))\<lparr>max_fd := m\<rparr>) \<and> 6 < m) \<and>
   setup_fds sample_env (-1) 2 (sample_port ()) = None"
  using select_sets_exact [of "upd_relay 0 (\<lambda>r. r\<lparr>curr_state := WISH_RELAY_CLIENT_CONNECTING, sockfd := 6\<rparr>) (sample_port ())" 1 2 sample_env]
    select_sets_exact [of "sample_port ()" "-1" 2 sample_env]
  by (auto simp: sample_simps conn_def relay_def upd_relay_def less_Suc_eq lessThan_Suc relay_reads_def relay_writes_def
      conn_reads_def conn_writes_def wait_reads_def wait_writes_def fd_ok_def)

end
