(* ===== verification/Main_Safety.thy ===== *)
theory Main_Safety
  imports Port_Main
begin

text \<open>
  The invariant of the whole port layer and the proof that the main loop keeps it: with a
  core that honours its contract and memory available, no turn of the loop uses a dangling
  pointer, frees a block twice or overruns a buffer, whatever the network does.
\<close>

section \<open>The invariant\<close>

text \<open>
  The allocated blocks are exactly those of the connections, those of the queued messages, and
  a fixed set \<open>F\<close> of blocks that were there before; no block belongs to two owners.
\<close>

definition port_inv :: "ptr set \<Rightarrow> 'x port \<Rightarrow> bool" where
  "port_inv F s \<longleftrightarrow> 0 \<le> num_curr_events (port_evq s) \<and> distinct (ipc_blocks (ipc_event_queue s)) \<and>
     (\<forall>e \<in> set (ipc_event_queue s). ie_type e = EVENT_APP_TO_CORE \<longrightarrow> ie_app e \<noteq> None) \<and>
     set (ipc_blocks (ipc_event_queue s)) \<inter> F = {} \<and> net_inv (set (ipc_blocks (ipc_event_queue s)) \<union> F) s"

text \<open>What the invariant looks at.\<close>

definition view :: "'x port \<Rightarrow> int \<times> ipc_event list \<times> ptr option list \<times> ptr set \<times> ptr" where
  "view s = (num_curr_events (port_evq s), ipc_event_queue s, slots s, live s, next_ptr s)"

lemma port_inv_view: "view s = view s' \<Longrightarrow> port_inv F s \<longleftrightarrow> port_inv F s'"
  by (simp add: view_def port_inv_def net_inv_def)

lemma view_frames [simp]:
  "view (log_call c s) = view s" "view (s\<lparr>world := w\<rparr>) = view s" "view (s\<lparr>heap := h\<rparr>) = view s"
  "view (s\<lparr>max_fd := m\<rparr>) = view s" "view (s\<lparr>timestamp := t\<rparr>) = view s"
  "view (s\<lparr>periodic_timestamp := t\<rparr>) = view s" "view (s\<lparr>sockaddr_wld := a\<rparr>) = view s"
  "view (sl_close fd s) = view s" "view (upd_relay j f s) = view s" "view (s\<lparr>port_relay_ip := ip\<rparr>) = view s"
  by (simp_all add: view_def slots_def sl_close_def upd_relay_def)

lemma port_inv_frames [simp]:
  "port_inv F (log_call c s) = port_inv F s" "port_inv F (s\<lparr>world := w\<rparr>) = port_inv F s"
  "port_inv F (s\<lparr>max_fd := m\<rparr>) = port_inv F s" "port_inv F (s\<lparr>timestamp := t\<rparr>) = port_inv F s"
  "port_inv F (s\<lparr>periodic_timestamp := t\<rparr>) = port_inv F s" "port_inv F (s\<lparr>sockaddr_wld := a\<rparr>) = port_inv F s"
  "port_inv F (sl_close fd s) = port_inv F s"
  by (rule port_inv_view; simp)+

lemma port_inv_post: "port_inv F s \<Longrightarrow> port_inv F (post ev s)"
  by (simp add: port_inv_def net_inv_def post_def notify_def slots_def)

lemma port_inv_get:
  "port_inv F s \<Longrightarrow> get_next_event (port_evq s) = (k, q) \<Longrightarrow> port_inv F (s\<lparr>port_evq := q\<rparr>)"
  by (auto simp: port_inv_def net_inv_def get_next_event_def slots_def split: if_splits)

lemma port_inv_live:
  "port_inv F s \<Longrightarrow> i < length (connection_pool (core s)) \<Longrightarrow> send_arg (conn i s) = Some p \<Longrightarrow> p \<in> live s"
  by (auto simp: port_inv_def net_inv_def slots_nth [symmetric] length_slots [symmetric] dest: owned_live)

text \<open>The three ways in which the port changes what the invariant looks at.\<close>

lemma port_inv_close:
  assumes "port_inv F s" and "i < length (slots s)" and "slots s ! i = Some p"
    and "view s' = (num_curr_events (port_evq s), ipc_event_queue s, (slots s)[i := None], live s - {p}, next_ptr s)"
  shows "port_inv F s'"
  using assms owned_close [of _ "slots s" "live s" "next_ptr s" i p]
  by (auto simp: port_inv_def net_inv_def view_def)

lemma port_inv_open:
  assumes "port_inv F s" and "i < length (slots s)" and "slots s ! i = None"
    and "view s' = (num_curr_events (port_evq s), ipc_event_queue s, (slots s)[i := Some (next_ptr s)],
           insert (next_ptr s) (live s), Suc (next_ptr s))"
  shows "port_inv F s'"
  using assms owned_open [of _ "slots s" "live s" "next_ptr s" i]
  by (auto simp: port_inv_def net_inv_def view_def)

lemma owned_release: "owned B xs L n \<Longrightarrow> X \<subseteq> B \<Longrightarrow> owned (B - X) xs (L - X) n"
  unfolding owned_def by blast

lemma port_inv_unqueue:
  assumes "port_inv F s" and "ipc_event_queue s = e # q"
    and "view s' = (num_curr_events (port_evq s), q, slots s, live s - {ie_ptr e, ie_data_ptr e}, next_ptr s)"
  shows "port_inv F s'"
proof -
  let ?B = "set (ipc_blocks (e # q)) \<union> F"
  have B: "net_inv ?B s" "distinct (ipc_blocks (e # q))" "set (ipc_blocks (e # q)) \<inter> F = {}"
    using assms(1,2) by (simp_all add: port_inv_def)
  have "?B - {ie_ptr e, ie_data_ptr e} = set (ipc_blocks q) \<union> F" using B(2,3) by auto
  with B(1) assms(3) owned_release [of ?B "slots s" "live s" "next_ptr s" "{ie_ptr e, ie_data_ptr e}"]
  have "net_inv (set (ipc_blocks q) \<union> F) s'" by (simp add: net_inv_def view_def)
  with B(2,3) assms show ?thesis by (auto simp: port_inv_def view_def)
qed

section \<open>The descriptors\<close>

text \<open>
  Every descriptor that the loop will put into a set has room there: those in the blocks of
  the connections, and those of the relays that are waited for.
\<close>

definition fds_ok :: "'x env \<Rightarrow> 'x port \<Rightarrow> bool" where
  "fds_ok E s \<longleftrightarrow> (\<forall>p. Some p \<in> set (slots s) \<longrightarrow> fd_ok E (sock_fd (heap s p))) \<and>
     (\<forall>rc \<in> set (relay_db (core s)). \<forall>fd \<in> relay_reads rc \<union> relay_writes rc. fd_ok E fd)"

definition loop_inv :: "ptr set \<Rightarrow> 'x env \<Rightarrow> 'x port \<Rightarrow> bool" where
  "loop_inv F E s \<longleftrightarrow> port_inv F s \<and> fds_ok E s"

lemma loop_invD: "loop_inv F E s \<Longrightarrow> port_inv F s" "loop_inv F E s \<Longrightarrow> fds_ok E s"
  by (simp_all add: loop_inv_def)

lemma fds_ok_cong:
  "slots s' = slots s \<Longrightarrow> heap s' = heap s \<Longrightarrow> relay_db (core s') = relay_db (core s) \<Longrightarrow> fds_ok E s' = fds_ok E s"
  by (simp add: fds_ok_def)

lemma relay_db_upd_conn [simp]: "relay_db (core (upd_conn i f s)) = relay_db (core s)"
  by (simp add: upd_conn_def)

lemma fds_ok_frames [simp]:
  "fds_ok E (log_call c s) = fds_ok E s" "fds_ok E (s\<lparr>world := w\<rparr>) = fds_ok E s"
  "fds_ok E (s\<lparr>max_fd := m\<rparr>) = fds_ok E s" "fds_ok E (s\<lparr>timestamp := t\<rparr>) = fds_ok E s"
  "fds_ok E (s\<lparr>periodic_timestamp := t\<rparr>) = fds_ok E s" "fds_ok E (s\<lparr>sockaddr_wld := a\<rparr>) = fds_ok E s"
  "fds_ok E (sl_close fd s) = fds_ok E s" "fds_ok E (s\<lparr>live := L\<rparr>) = fds_ok E s" "fds_ok E (s\<lparr>calls := cs\<rparr>) = fds_ok E s"
  "fds_ok E (s\<lparr>port_evq := q\<rparr>) = fds_ok E s" "fds_ok E (s\<lparr>ipc_event_queue := ipcq\<rparr>) = fds_ok E s"
  "fds_ok E (s\<lparr>next_ptr := n\<rparr>) = fds_ok E s" "fds_ok E (post ev s) = fds_ok E s"
  by (rule fds_ok_cong; simp add: slots_def sl_close_def post_def)+

lemma loop_inv_frames [simp]:
  "loop_inv F E (log_call c s) = loop_inv F E s" "loop_inv F E (s\<lparr>world := w\<rparr>) = loop_inv F E s"
  "loop_inv F E (s\<lparr>max_fd := m\<rparr>) = loop_inv F E s" "loop_inv F E (s\<lparr>timestamp := t\<rparr>) = loop_inv F E s"
  "loop_inv F E (s\<lparr>periodic_timestamp := t\<rparr>) = loop_inv F E s" "loop_inv F E (s\<lparr>sockaddr_wld := a\<rparr>) = loop_inv F E s"
  "loop_inv F E (sl_close fd s) = loop_inv F E s"
  by (simp_all add: loop_inv_def)

lemma fds_ok_slot:
  "fds_ok E s \<Longrightarrow> (\<And>p. send_arg (f (conn i s)) = Some p \<Longrightarrow> fd_ok E (sock_fd (heap s p))) \<Longrightarrow> fds_ok E (upd_conn i f s)"
  unfolding fds_ok_def by (auto simp: upd_conn_def slots_def dest!: set_update_subset_insert [THEN subsetD]) (auto simp: map_update conn_def
    dest!: set_update_subset_insert [THEN subsetD])

lemma port_inv_fresh: "port_inv F s \<Longrightarrow> Some q \<in> set (slots s) \<Longrightarrow> q < next_ptr s"
  by (auto simp: port_inv_def net_inv_def owned_def points_def in_set_conv_nth)

lemma fds_ok_open:
  assumes "loop_inv F E s" and "slots u = (slots s)[i := Some (next_ptr s)]"
    and "\<And>q. q \<noteq> next_ptr s \<Longrightarrow> heap u q = heap s q" and "fd_ok E (sock_fd (heap u (next_ptr s)))"
    and "relay_db (core u) = relay_db (core s)"
  shows "fds_ok E u"
proof -
  have "heap u p = heap s p" if "Some p \<in> set (slots s)" for p
    using port_inv_fresh [OF loop_invD(1) [OF assms(1)] that] assms(3) by simp
  with assms(2,4,5) loop_invD(2) [OF assms(1)] show ?thesis
    by (auto simp: fds_ok_def dest!: set_update_subset_insert [THEN subsetD])
qed

lemma loop_inv_post: "loop_inv F E s \<Longrightarrow> loop_inv F E (post ev s)"
  by (simp add: loop_inv_def port_inv_post)

lemma loop_inv_get: "loop_inv F E s \<Longrightarrow> get_next_event (port_evq s) = (k, q) \<Longrightarrow> loop_inv F E (s\<lparr>port_evq := q\<rparr>)"
  by (simp add: loop_inv_def port_inv_get)

text \<open>The descriptors of a turn.\<close>

lemma fds_ok_waited:
  assumes "fds_ok E s"
  shows "j < length (relay_db (core s)) \<Longrightarrow> fd \<in> relay_reads (relay j s) \<Longrightarrow> fd_ok E fd"
    and "j < length (relay_db (core s)) \<Longrightarrow> fd \<in> relay_writes (relay j s) \<Longrightarrow> fd_ok E fd"
    and "i < length (connection_pool (core s)) \<Longrightarrow> send_arg (conn i s) = Some p \<Longrightarrow> fd_ok E (sock_fd (heap s p))"
  using assms nth_mem [of j "relay_db (core s)"] nth_mem [of i "slots s"]
  by (auto simp: fds_ok_def relay_def slots_nth length_slots)

lemma fds_ok_waits:
  "fds_ok E s \<Longrightarrow> fd_ok E server_fd \<Longrightarrow> fd_ok E wld \<Longrightarrow> fd \<in> wait_reads server_fd wld s \<union> wait_writes s \<Longrightarrow> fd_ok E fd"
  using fds_ok_waited [of E s] unfolding wait_reads_def wait_writes_def
  by (auto simp: conn_reads_def conn_writes_def split: option.splits if_splits)

section \<open>The contract of the core\<close>

text \<open>
  A callback of the core keeps the invariant and the size of the pool.  Beyond that:
  signalling only resets the argument of a disconnected connection; feeding a connection
  leaves the arguments of the connections alone; a context handed out for a new connection
  is in the pool and has no argument; recv and recvfrom return no more bytes than they were
  asked for; socket and accept yield descriptors that fit a descriptor set; malloc succeeds;
  and the core does not answer events with new events for ever (its reserve \<open>settle\<close> falls
  with every event).
\<close>

definition keeps :: "ptr set \<Rightarrow> 'x env \<Rightarrow> ('x port \<Rightarrow> 'x port) \<Rightarrow> bool" where
  "keeps F E f \<longleftrightarrow> (\<forall>s. loop_inv F E s \<longrightarrow> loop_inv F E (f s) \<and>
     length (connection_pool (core (f s))) = length (connection_pool (core s)))"

lemma keepsD:
  "keeps F E f \<Longrightarrow> loop_inv F E s \<Longrightarrow> loop_inv F E (f s)"
  "keeps F E f \<Longrightarrow> loop_inv F E s \<Longrightarrow> length (connection_pool (core (f s))) = length (connection_pool (core s))"
  by (simp_all add: keeps_def)

definition ipc_handler_ok :: "ptr set \<Rightarrow> 'x env \<Rightarrow> ('x port \<Rightarrow> 'x port) \<Rightarrow> bool" where
  "ipc_handler_ok F E f \<longleftrightarrow> keeps F E f \<and> (\<forall>s. loop_inv F E s \<longrightarrow> (\<exists>new. ipc_event_queue (f s) = ipc_event_queue s @ new))"

definition signal_only :: "'x env \<Rightarrow> bool" where
  "signal_only E \<longleftrightarrow> signal_contract E \<and>
     (\<forall>i ev s. ipc_event_queue (x_signal E i ev s) = ipc_event_queue s \<and>
        num_curr_events (port_evq (x_signal E i ev s)) = num_curr_events (port_evq s) \<and>
        (fds_ok E s \<longrightarrow> fds_ok E (x_signal E i ev s)))"

definition core_contract :: "ptr set \<Rightarrow> 'x env \<Rightarrow> bool" where
  "core_contract F E \<longleftrightarrow> signal_only E \<and> register_send_stores E \<and> ll_laws E \<and>
     (\<forall>i bs s. keeps F E (x_feed E i bs) \<and> slots (x_feed E i bs s) = slots s) \<and>
     (\<forall>ip p bs. keeps F E (x_ldiscover_feed E ip p bs)) \<and>
     (\<forall>j. keeps F E (x_relay_connected E j) \<and> keeps F E (x_relay_connect_fail E j) \<and> keeps F E (x_relay_disconnect E j) \<and>
        keeps F E (x_relay_periodic E j) \<and> (\<forall>b. keeps F E (x_relay_feed E j b))) \<and>
     keeps F E (x_time_report E) \<and> keeps F E (x_sensors_periodic E) \<and>
     (\<forall>k u d. ipc_handler_ok F E (x_app_to_core E k u d)) \<and> (\<forall>a d. ipc_handler_ok F E (x_core_to_app E a d)) \<and>
     keeps F E (\<lambda>s. snd (x_connection_init E s)) \<and>
     (\<forall>s i s'. x_connection_init E s = (Some i, s') \<longrightarrow> i < length (slots s') \<and> slots s' ! i = None)"

definition library_contract :: "'x env \<Rightarrow> bool" where
  "library_contract E \<longleftrightarrow> (\<forall>w. fst (x_malloc E w)) \<and>
     (\<forall>fd n w. fst (fst (x_recv E fd n w)) \<le> int n) \<and>
     (\<forall>fd n a w. fst (fst (x_recvfrom E fd n a w)) \<le> int n) \<and>
     (\<forall>fd w. fd_ok E (fst (x_accept E fd w))) \<and> (\<forall>t w. fd_ok E (fst (x_socket E t w)))"

definition core_settles :: "ptr set \<Rightarrow> ('x port \<Rightarrow> nat) \<Rightarrow> 'x env \<Rightarrow> bool" where
  "core_settles F settle E \<longleftrightarrow> (\<forall>slot. keeps F E (x_processor E slot)) \<and>
     (\<forall>s slot q. loop_inv F E s \<longrightarrow> get_next_event (port_evq s) = (Some slot, q) \<longrightarrow>
        settle (x_processor E slot (s\<lparr>port_evq := q\<rparr>)) < settle s)"

text \<open>A step of the turn that is defined and keeps the invariant and the size of the pool.\<close>

definition safe_step :: "ptr set \<Rightarrow> 'x env \<Rightarrow> nat \<Rightarrow> 'x port option \<Rightarrow> bool" where
  "safe_step F E n r \<longleftrightarrow> (\<exists>s. r = Some s \<and> loop_inv F E s \<and> length (slots s) = n)"

lemma safe_stepI: "loop_inv F E s \<Longrightarrow> length (slots s) = n \<Longrightarrow> safe_step F E n (Some s)"
  by (simp add: safe_step_def)

lemma keeps_slots: "keeps F E f \<Longrightarrow> loop_inv F E s \<Longrightarrow> length (slots s) = n \<Longrightarrow> loop_inv F E (f s) \<and> length (slots (f s)) = n"
  by (simp add: keeps_def length_slots)

lemma slots_calls [simp]: "slots (s\<lparr>calls := cs\<rparr>) = slots s"
  by (simp add: slots_def)

lemma length_slots_frames [simp]:
  "length (slots (s\<lparr>max_fd := m\<rparr>)) = length (slots s)" "length (slots (s\<lparr>port_evq := q\<rparr>)) = length (slots s)"
  "length (slots (s\<lparr>timestamp := t\<rparr>)) = length (slots s)" "length (slots (s\<lparr>periodic_timestamp := t\<rparr>)) = length (slots s)"
  "length (slots (s\<lparr>sockaddr_wld := a\<rparr>)) = length (slots s)" "length (slots (sl_close fd s)) = length (slots s)"
  "length (slots (s\<lparr>ipc_event_queue := ipcq\<rparr>)) = length (slots s)"
  by (simp_all add: slots_def sl_close_def)

lemma signal_view:
  assumes "signal_only E"
  shows "view (signal E i ev s) = (num_curr_events (port_evq s), ipc_event_queue s,
    if ev = TCP_DISCONNECTED then (slots s)[i := None] else slots s, live s, next_ptr s)"
proof -
  have "signal_contract E" and "ipc_event_queue (x_signal E i ev t) = ipc_event_queue t"
    "num_curr_events (port_evq (x_signal E i ev t)) = num_curr_events (port_evq t)" for t
    using assms by (simp_all add: signal_only_def)
  then show ?thesis using signal_slots [of E i ev s] by (simp add: view_def signal_def)
qed

lemma core_contract_signal: "core_contract F E \<Longrightarrow> signal_only E"
  by (simp add: core_contract_def)

lemma fds_ok_signal: "core_contract F E \<Longrightarrow> fds_ok E s \<Longrightarrow> fds_ok E (signal E i ev s)"
  by (simp add: signal_def core_contract_def signal_only_def)

lemma loop_inv_signal:
  assumes "core_contract F E" and "loop_inv F E s" and "ev \<noteq> TCP_DISCONNECTED"
  shows "loop_inv F E (signal E i ev s)" and "length (slots (signal E i ev s)) = length (slots s)"
proof -
  have v: "view (signal E i ev s) = view s" using assms(3) by (simp add: signal_view [OF core_contract_signal [OF assms(1)]]) (simp add: view_def)
  with assms(2) show "loop_inv F E (signal E i ev s)"
    using port_inv_view [OF v] fds_ok_signal [OF assms(1)] by (simp add: loop_inv_def)
  from v show "length (slots (signal E i ev s)) = length (slots s)" by (simp add: view_def)
qed

section \<open>The steps of a turn\<close>

lemma close_and_signal:
  assumes "core_contract F E" and "loop_inv F E s" and "i < length (slots s)" and "slots s ! i = Some p"
  shows "p \<in> live s" and "loop_inv F E (signal E i TCP_DISCONNECTED (s\<lparr>live := live s - {p}, calls := cs\<rparr>))"
    and "length (slots (signal E i TCP_DISCONNECTED (s\<lparr>live := live s - {p}, calls := cs\<rparr>))) = length (slots s)"
proof -
  let ?t = "s\<lparr>live := live s - {p}, calls := cs\<rparr>"
  have sl: "slots ?t = slots s" by (simp add: slots_def)
  have v: "view (signal E i TCP_DISCONNECTED ?t) =
    (num_curr_events (port_evq s), ipc_event_queue s, (slots s)[i := None], live s - {p}, next_ptr s)"
    by (simp add: signal_view [OF core_contract_signal [OF assms(1)]] sl)
  have "fds_ok E ?t" using loop_invD(2) [OF assms(2)] by simp
  with port_inv_close [OF loop_invD(1) [OF assms(2)] assms(3,4) v] show "loop_inv F E (signal E i TCP_DISCONNECTED ?t)"
    by (simp add: loop_inv_def fds_ok_signal [OF assms(1)])
  from v show "length (slots (signal E i TCP_DISCONNECTED ?t)) = length (slots s)" by (simp add: view_def)
  show "p \<in> live s" using assms(2-4) by (auto simp: loop_inv_def port_inv_def net_inv_def dest: owned_live)
qed

lemma free_and_signal:
  assumes "core_contract F E" and "loop_inv F E s" and "i < length (slots s)" and "slots s ! i = Some p"
  shows "\<exists>s1. free (send_arg (conn i s)) (sl_close fd s) = Some s1 \<and> loop_inv F E (signal E i TCP_DISCONNECTED s1) \<and>
    length (slots (signal E i TCP_DISCONNECTED s1)) = length (slots s)"
  using close_and_signal [OF assms] assms(3,4)
  by (simp add: free_def sl_close_def log_call_def slots_nth length_slots)

lemma connect_fail_safe:
  assumes "core_contract F E" and "loop_inv F E s" and "i < length (slots s)" and "slots s ! i = Some p"
  shows "safe_step F E (length (slots s)) (connect_fail_cb E i s)"
proof -
  have "send_arg (conn i s) = Some p" "p \<in> live s"
    using assms close_and_signal(1) [OF assms] by (simp_all add: slots_nth length_slots)
  with free_and_signal [OF assms, of "sock_fd (heap s p)"] show ?thesis
    by (auto simp: connect_fail_cb_def load_def safe_step_def)
qed

lemma read_conn_safe:
  assumes "core_contract F E" and "library_contract E" and "loop_inv F E s" and "i < length (slots s)" and "slots s ! i = Some p"
  shows "\<exists>b s'. read_conn E i fd s = Some (b, s') \<and> loop_inv F E s' \<and> length (slots s') = length (slots s) \<and>
    (b \<longrightarrow> slots s' = slots s)"
proof -
  let ?n = "unat (read_buf_len (x_rx_buffer_free E i s))"
  obtain r bs w where r: "x_recv E fd ?n (world s) = ((r, bs), w)" by (metis prod.exhaust)
  let ?t = "log_call (CRecv fd ?n r) (s\<lparr>world := w\<rparr>)"
  have le: "r \<le> int ?n" using assms(2) r by (metis fst_conv library_contract_def)
  have t: "loop_inv F E ?t" "slots ?t = slots s" using assms(3) by simp_all
  consider "x_rx_buffer_free E i s = 0" | "x_rx_buffer_free E i s \<noteq> 0" "r > 0" | "x_rx_buffer_free E i s \<noteq> 0" "r = 0"
    | "x_rx_buffer_free E i s \<noteq> 0" "r < 0" by linarith
  then show ?thesis
  proof cases
    case 2
    let ?bs = "take (nat r) bs"
    let ?u = "x_feed E i ?bs (log_call (CFeed i ?bs) ?t)"
    have "keeps F E (x_feed E i ?bs)" "slots ?u = slots s" using assms(1) t(2) by (simp_all add: core_contract_def)
    with t have "loop_inv F E ?u" by (simp add: keeps_def)
    moreover have "\<not> nat r > ?n" using le by (simp only: not_less nat_le_iff)
    moreover have "slots (post ev ?u) = slots s" for ev using \<open>slots ?u = slots s\<close> by (simp add: post_def slots_def)
    ultimately show ?thesis using 2 r
      by (auto simp: read_conn_def Let_def sl_recv_def loop_inv_post)
  next
    case 3
    have "conn i ?t = conn i s" by simp
    with free_and_signal [OF assms(1) t(1), of i p fd] assms(4,5) 3 r show ?thesis
      by (auto simp: read_conn_def Let_def sl_recv_def)
  qed (use assms r t in \<open>auto simp: read_conn_def Let_def sl_recv_def\<close>)
qed

lemma connect_conn_safe:
  assumes "core_contract F E" and "loop_inv F E s" and "i < length (slots s)" and "slots s ! i = Some p"
  shows "safe_step F E (length (slots s)) (connect_conn E i fd s)"
proof -
  have p: "send_arg (conn i s) = Some p" "p \<in> live s"
    using assms close_and_signal(1) [OF assms] by (simp_all add: slots_nth length_slots)
  obtain r w where r: "x_connect E fd (remote_addr (heap s p)) (world s) = (r, w)" by force
  let ?t = "log_call (CConnect fd (remote_addr (heap s p)) r) (s\<lparr>world := w\<rparr>)"
  have t: "loop_inv F E ?t" "slots ?t = slots s" using assms(2) by simp_all
  have f: "safe_step F E (length (slots s)) (connect_fail_cb E i ?t)"
    using connect_fail_safe [OF assms(1) t(1), of i p] t(2) assms(3,4) by simp
  show ?thesis
  proof (cases "r < 0")
    case True
    with f p r show ?thesis by (auto simp: connect_conn_def load_def sl_connect_def safe_step_def)
  next
    case False
    with p r t assms(2) loop_inv_signal [OF assms(1) t(1)] show ?thesis
      by (auto simp: connect_conn_def load_def sl_connect_def connected_cb_def connected_cb_relay_def intro!: safe_stepI)
  qed
qed

lemma dispatch_conn_safe:
  assumes "core_contract F E" and "library_contract E" and "loop_inv F E s" and "i < length (slots s)"
  shows "safe_step F E (length (slots s)) (dispatch_conn E rfds wfds i s)"
proof (cases "context_state (conn i s) = WISH_CONTEXT_FREE \<or> send_arg (conn i s) = None")
  case True
  with assms show ?thesis by (auto simp: dispatch_conn_def safe_step_def)
next
  case False
  then obtain p where p: "slots s ! i = Some p" "send_arg (conn i s) = Some p"
    using assms(4) by (auto simp: slots_nth length_slots)
  have l: "p \<in> live s" using close_and_signal(1) [OF assms(1,3,4) p(1)] .
  let ?fd = "sock_fd (heap s p)"
  have "\<exists>b s1. (if ?fd \<in> rfds then read_conn E i ?fd s else Some (True, s)) = Some (b, s1) \<and>
    loop_inv F E s1 \<and> length (slots s1) = length (slots s) \<and> (b \<longrightarrow> slots s1 = slots s)"
  proof (cases "?fd \<in> rfds")
    case True
    show ?thesis unfolding if_P [OF True] by (rule read_conn_safe [OF assms p(1)])
  next
    case False
    with assms(3) show ?thesis by auto
  qed
  then obtain b s1 where s1: "(if ?fd \<in> rfds then read_conn E i ?fd s else Some (True, s)) = Some (b, s1)"
    "loop_inv F E s1" "length (slots s1) = length (slots s)" "b \<longrightarrow> slots s1 = slots s" by blast
  have "safe_step F E (length (slots s)) (if b \<and> ?fd \<in> wfds then connect_conn E i ?fd s1 else Some s1)"
    using connect_conn_safe [OF assms(1) s1(2), of i p ?fd] s1 p(1) assms(4) by (auto intro: safe_stepI)
  with False p l s1(1) show ?thesis by (simp add: dispatch_conn_def load_def Let_def)
qed

lemma each_safe:
  assumes "\<And>i s. i \<in> set is \<Longrightarrow> loop_inv F E s \<Longrightarrow> length (slots s) = n \<Longrightarrow> safe_step F E n (f i s)"
    and "loop_inv F E s" and "length (slots s) = n"
  shows "safe_step F E n (each f is s)"
  using assms
proof (induction "is" arbitrary: s)
  case (Cons i "is")
  then have "safe_step F E n (f i s)" by simp
  then obtain s1 where "f i s = Some s1" "loop_inv F E s1" "length (slots s1) = n" by (auto simp: safe_step_def)
  with Cons show ?case by simp
qed (simp add: safe_stepI)

section \<open>The turn\<close>

lemma discovery_safe:
  assumes "core_contract F E" and "library_contract E" and "loop_inv F E s"
  shows "safe_step F E (length (slots s)) (read_wish_local_discovery E s)"
proof -
  obtain r bs a w where r: "x_recvfrom E (wld_fd s) 1024 (sockaddr_wld s) (world s) = ((r, bs, a), w)"
    by (metis prod.exhaust)
  then have "r \<le> 1024" using assms(2) by (metis fst_conv library_contract_def of_nat_numeral)
  moreover have "keeps F E (x_ldiscover_feed E ip p bs)" for ip p bs using assms(1) by (simp add: core_contract_def)
  ultimately show ?thesis
    using assms(3) by (auto simp: read_wish_local_discovery_def r Let_def keeps_def length_slots intro!: safe_stepI)
qed

lemma dispatch_relay_safe:
  assumes "core_contract F E" and "loop_inv F E s"
  shows "loop_inv F E (dispatch_relay E rfds wfds j s) \<and> length (slots (dispatch_relay E rfds wfds j s)) = length (slots s)"
proof -
  have k: "keeps F E (x_relay_connected E j)" "keeps F E (x_relay_connect_fail E j)" "keeps F E (x_relay_disconnect E j)"
    "keeps F E (x_relay_periodic E j)" "keeps F E (x_relay_feed E j b)" for b
    using assms(1) by (simp_all add: core_contract_def)
  note d = k [THEN keepsD(1)] k [THEN keepsD(2)]
  obtain r bs w where recv: "x_recv E (sockfd (relay j s)) 1 (world s) = ((r, bs), w)" by (metis prod.exhaust)
  obtain c w2 where connect: "x_connect E (sockfd (relay j s)) \<lparr>sin_family = AF_INET, sin_port = htons (relay_port (relay j s)),
      sin_addr = ucast (htons (ucast (x_ipv4_value E (port_get_relay_ip s))))\<rparr> (world s) = (c, w2)" by force
  show ?thesis using assms(2) recv connect
    by (simp add: dispatch_relay_def Let_def sl_connect_def sl_recv_def sl_close_def d length_slots)
qed

lemma relays_safe:
  "core_contract F E \<Longrightarrow> loop_inv F E s \<Longrightarrow> loop_inv F E (fold (dispatch_relay E rfds wfds) js s) \<and>
     length (slots (fold (dispatch_relay E rfds wfds) js s)) = length (slots s)"
  by (induction js arbitrary: s) (simp_all add: dispatch_relay_safe)

lemma accept_safe:
  assumes "core_contract F E" and "library_contract E" and "loop_inv F E s"
  shows "safe_step F E (length (slots s)) (accept_conn E server_fd s)"
proof -
  obtain fd w where a: "x_accept E server_fd (world s) = (fd, w)" by force
  let ?t = "socket_set_nonblocking fd (log_call (CAccept server_fd fd) (s\<lparr>world := w\<rparr>))"
  obtain c u where c: "x_connection_init E ?t = (c, u)" by force
  have t: "loop_inv F E ?t" "length (slots ?t) = length (slots s)" using assms(3) by (simp_all add: socket_set_nonblocking_def)
  have "keeps F E (\<lambda>s. snd (x_connection_init E s))" using assms(1) by (simp add: core_contract_def)
  from keeps_slots [OF this t] c have u: "loop_inv F E u" "length (slots u) = length (slots s)" by simp_all
  show ?thesis
  proof (cases c)
    case None
    with a c u show ?thesis
      by (simp add: accept_conn_def sl_accept_def Let_def safe_stepI)
  next
    case (Some i)
    have i: "i < length (slots u)" "slots u ! i = None"
      using assms(1) c Some by (simp_all add: core_contract_def)
    obtain w2 where m: "x_malloc E (world u) = (True, w2)" using assms(2) by (metis (full_types) library_contract_def prod.collapse)
    have reg: "x_register_send E i p v = upd_conn i (\<lambda>c. c\<lparr>send_arg := Some p\<rparr>) v" for p v
      using assms(1) by (simp add: core_contract_def register_send_stores_def)
    let ?v = "u\<lparr>world := w2, live := insert (next_ptr u) (live u), next_ptr := Suc (next_ptr u),
      heap := (heap u)(next_ptr u := (x_uninit E (world u))\<lparr>sock_fd := fd\<rparr>)\<rparr>"
    let ?v2 = "upd_conn i (\<lambda>c. c\<lparr>send_arg := Some (next_ptr u)\<rparr>) (log_call (CRegisterSend i (next_ptr u)) ?v)"
    have "view ?v2 = (num_curr_events (port_evq u), ipc_event_queue u, (slots u)[i := Some (next_ptr u)],
           insert (next_ptr u) (live u), Suc (next_ptr u))"
      by (simp add: view_def) (simp add: upd_conn_def)
    from port_inv_open [OF loop_invD(1) [OF u(1)] i this] have "port_inv F ?v2" .
    moreover have "fd_ok E fd" using assms(2) a by (metis fst_conv library_contract_def)
    then have "fds_ok E ?v2" by (intro fds_ok_open [OF u(1), where i = i]) simp_all
    ultimately have v: "loop_inv F E ?v2" by (simp add: loop_inv_def)
    have "length (slots ?v2) = length (slots s)" using u(2) by simp
    with loop_inv_signal [OF assms(1) v, of TCP_CLIENT_CONNECTED i] a c Some m show ?thesis
      by (simp add: accept_conn_def sl_accept_def Let_def malloc_def store_def reg safe_stepI)
  qed
qed

lemma dispatch_safe:
  assumes "core_contract F E" and "library_contract E" and "loop_inv F E s"
  shows "safe_step F E (length (slots s)) (dispatch E server_fd wld rfds wfds s)"
proof -
  have "safe_step F E (length (slots s)) (if wld \<in> rfds then read_wish_local_discovery E s else Some s)"
    using discovery_safe [OF assms] assms(3) by (auto intro: safe_stepI)
  then obtain s1 where s1: "(if wld \<in> rfds then read_wish_local_discovery E s else Some s) = Some s1"
    "loop_inv F E s1" "length (slots s1) = length (slots s)" by (auto simp: safe_step_def)
  let ?s2 = "fold (dispatch_relay E rfds wfds) [0 ..< length (relay_db (core s1))] s1"
  have s2: "loop_inv F E ?s2" "length (slots ?s2) = length (slots s)"
    using relays_safe [OF assms(1) s1(2)] s1(3) by simp_all
  have "safe_step F E (length (slots s)) (each (dispatch_conn E rfds wfds) [0 ..< length (connection_pool (core ?s2))] ?s2)"
  proof (rule each_safe [OF _ s2])
    fix i and u :: "'a port"
    assume "i \<in> set [0 ..< length (connection_pool (core ?s2))]" and u: "loop_inv F E u" "length (slots u) = length (slots s)"
    then have "i < length (slots u)" using s2(2) by (simp add: length_slots)
    from dispatch_conn_safe [OF assms(1,2) u(1) this, of rfds wfds] u(2)
    show "safe_step F E (length (slots s)) (dispatch_conn E rfds wfds i u)" by simp
  qed
  then obtain s3 where s3: "each (dispatch_conn E rfds wfds) [0 ..< length (connection_pool (core ?s2))] ?s2 = Some s3"
    "loop_inv F E s3" "length (slots s3) = length (slots s)" by (auto simp: safe_step_def)
  have "safe_step F E (length (slots s)) (if server_fd \<in> rfds then accept_conn E server_fd s3 else Some s3)"
    using accept_safe [OF assms(1,2) s3(2)] s3 by (auto intro: safe_stepI)
  with s1(1) s3(1) show ?thesis by (simp add: dispatch_def Let_def)
qed

lemma drain_safe:
  assumes "core_settles F settle E"
  shows "loop_inv F E s \<Longrightarrow> safe_step F E (length (slots s)) (drain_events E s)"
proof (induction "settle s" arbitrary: s rule: less_induct)
  case less
  obtain k q where kq: "get_next_event (port_evq s) = (k, q)" by force
  have q: "loop_inv F E (s\<lparr>port_evq := q\<rparr>)" "length (slots (s\<lparr>port_evq := q\<rparr>)) = length (slots s)"
    using loop_inv_get [OF less.prems kq] by simp_all
  show ?case
  proof (cases k)
    case None
    with q kq show ?thesis by (subst drain_events.simps) (simp add: safe_stepI)
  next
    case (Some slot)
    let ?t = "x_processor E slot (s\<lparr>port_evq := q\<rparr>)"
    have "keeps F E (x_processor E slot)" "settle ?t < settle s"
      using assms less.prems kq Some by (simp_all add: core_settles_def)
    from keeps_slots [OF this(1) q] less.hyps [OF this(2)] kq Some show ?thesis
      by (subst drain_events.simps) simp
  qed
qed

lemma periodic_safe:
  assumes "core_contract F E" and "loop_inv F E s"
  shows "loop_inv F E (periodic E sec s) \<and> length (slots (periodic E sec s)) = length (slots s)"
proof -
  have k: "keeps F E (x_time_report E)" "keeps F E (x_sensors_periodic E)" using assms(1) by (simp_all add: core_contract_def)
  from k [THEN keepsD(1)] k [THEN keepsD(2)] assms(2) show ?thesis
    by (simp add: periodic_def Let_def length_slots)
qed

lemma deliver_safe:
  assumes "core_contract F E" and "loop_inv F E s" and "ipc_event_queue s = e # q"
  shows "\<exists>s' new. deliver E e s = Some s' \<and> loop_inv F E s' \<and> ipc_event_queue s' = e # q @ new \<and> length (slots s') = length (slots s)"
proof -
  have h: "ipc_handler_ok F E (x_app_to_core E k u d)" "ipc_handler_ok F E (x_core_to_app E a d)" for k u d a
    using assms(1) by (simp_all add: core_contract_def)
  have f: "\<exists>new. loop_inv F E (f (log_call c s)) \<and> ipc_event_queue (f (log_call c s)) = e # q @ new \<and>
      length (slots (f (log_call c s))) = length (slots s)" if "ipc_handler_ok F E f" for f c
  proof -
    have l: "loop_inv F E (log_call c s)" using assms(2) by simp
    with that obtain new where "ipc_event_queue (f (log_call c s)) = ipc_event_queue (log_call c s) @ new"
      unfolding ipc_handler_ok_def by blast
    moreover have "keeps F E f" using that by (simp add: ipc_handler_ok_def)
    from keeps_slots [OF this l] have "loop_inv F E (f (log_call c s))" "length (slots (f (log_call c s))) = length (slots s)"
      by simp_all
    ultimately show ?thesis using assms(3) by simp
  qed
  show ?thesis
  proof (cases "ie_type e")
    case EVENT_UNKNOWN
    with assms show ?thesis by (simp add: deliver_def)
  next
    case EVENT_APP_TO_CORE
    with assms(2,3) obtain a where "ie_app e = Some a" by (auto simp: loop_inv_def port_inv_def)
    with EVENT_APP_TO_CORE f [OF h(1)] show ?thesis by (simp add: deliver_def receive_app_to_core_def)
  next
    case EVENT_CORE_TO_APP
    with f [OF h(2)] show ?thesis by (simp add: deliver_def receive_core_to_app_def)
  qed
qed

lemma ipc_task_safe:
  assumes "core_contract F E" and "loop_inv F E s"
  shows "safe_step F E (length (slots s)) (port_service_ipc_task E s)"
proof (cases "ipc_event_queue s")
  case Nil
  with assms show ?thesis by (simp add: port_service_ipc_task_def safe_stepI)
next
  case (Cons e q)
  obtain s1 new where s1: "deliver E e s = Some s1" "loop_inv F E s1" "ipc_event_queue s1 = e # q @ new"
    "length (slots s1) = length (slots s)" using deliver_safe [OF assms Cons] by auto
  have del: "x_ll_delete E (e # q @ new) e = q @ new" using assms(1) by (simp add: core_contract_def ll_laws_def)
  have blk: "ie_ptr e \<in> live s1" "ie_data_ptr e \<in> live s1" "ie_ptr e \<noteq> ie_data_ptr e"
    using s1(2,3) by (auto simp: loop_inv_def port_inv_def net_inv_def owned_def)
  let ?t = "log_call (CFree (ie_ptr e)) ((log_call (CFree (ie_data_ptr e)) (s1\<lparr>ipc_event_queue := q @ new,
       live := live s1 - {ie_data_ptr e}\<rparr>))\<lparr>live := live s1 - {ie_data_ptr e} - {ie_ptr e}\<rparr>)"
  have sl: "slots ?t = slots s1" by (simp add: slots_def)
  have "view ?t = (num_curr_events (port_evq s1), q @ new, slots s1, live s1 - {ie_ptr e, ie_data_ptr e}, next_ptr s1)"
    unfolding view_def sl by auto
  from port_inv_unqueue [OF loop_invD(1) [OF s1(2)] s1(3) this] have "port_inv F ?t" .
  moreover have "fds_ok E ?t" using loop_invD(2) [OF s1(2)] by simp
  ultimately have "loop_inv F E ?t" by (simp add: loop_inv_def)
  with s1 Cons del blk sl show ?thesis
    by (simp add: port_service_ipc_task_def Let_def free_def safe_step_def)
qed

lemma turn_safe:
  assumes "core_contract F E" and "library_contract E" and "core_settles F settle E" and "loop_inv F E s"
    and "fd_ok E server_fd" and "fd_ok E wld"
  shows "safe_step F E (length (slots s)) (port_main_turn E server_fd wld s)"
proof -
  have "\<forall>i < length (connection_pool (core s)). \<forall>p. send_arg (conn i s) = Some p \<longrightarrow> p \<in> live s"
    using port_inv_live [OF loop_invD(1) [OF assms(4)]] by blast
  from setup_fds_core [OF this, of server_fd wld E] fds_ok_waits [OF loop_invD(2) [OF assms(4)] assms(5,6)]
  obtain R W m where fds: "setup_fds E server_fd wld s = Some (R, W, s\<lparr>max_fd := m\<rparr>)" by (auto split: if_splits)
  obtain n R' W' w where sel: "x_select E m R W (world s) = ((n, R', W'), w)" by (metis prod.exhaust)
  let ?s1 = "s\<lparr>max_fd := m, world := w\<rparr>"
  have s1: "loop_inv F E ?s1" "length (slots ?s1) = length (slots s)" using assms(4) by simp_all
  have "safe_step F E (length (slots s)) (if n > 0 then dispatch E server_fd wld R' W' ?s1 else Some ?s1)"
    using dispatch_safe [OF assms(1,2) s1(1)] s1 by (auto intro: safe_stepI)
  then obtain s2 where s2: "(if n > 0 then dispatch E server_fd wld R' W' ?s1 else Some ?s1) = Some s2"
    "loop_inv F E s2" "length (slots s2) = length (slots s)" by (auto simp: safe_step_def)
  obtain tick w2 where tk: "x_tick E (world s2) = (tick, w2)" by force
  let ?s3 = "tick10 (seconds E tick) (s2\<lparr>world := w2\<rparr>)"
  have s3: "loop_inv F E ?s3" "length (slots ?s3) = length (slots s)" using s2 by (simp_all add: tick10_def)
  from drain_safe [OF assms(3) s3(1)] obtain s4 where s4: "drain_events E ?s3 = Some s4" "loop_inv F E s4"
    "length (slots s4) = length (slots s)" using s3(2) by (auto simp: safe_step_def)
  from periodic_safe [OF assms(1) s4(2), of "seconds E tick"] s4(3)
  have s5: "loop_inv F E (periodic E (seconds E tick) s4)" "length (slots (periodic E (seconds E tick) s4)) = length (slots s)" by simp_all
  from ipc_task_safe [OF assms(1) s5(1)] s5(2) fds sel s2(1) tk s4(1) show ?thesis
    by (simp add: port_main_turn_def Let_def)
qed

lemma turns_safe:
  assumes "core_contract F E" and "library_contract E" and "core_settles F settle E"
    and "fd_ok E server_fd" and "fd_ok E wld"
  shows "loop_inv F E s \<Longrightarrow> safe_step F E (length (slots s)) (port_main_turns E server_fd wld n s)"
proof (induction n arbitrary: s)
  case 0
  then show ?case by (simp add: safe_stepI)
next
  case (Suc n)
  from turn_safe [OF assms(1-3) Suc.prems assms(4,5)] obtain s1 where
    "port_main_turn E server_fd wld s = Some s1" "loop_inv F E s1" "length (slots s1) = length (slots s)"
    by (auto simp: safe_step_def)
  with Suc.IH [OF this(2)] show ?case by simp
qed

lemma keeps_id: "keeps F E (\<lambda>s. s)" "keeps F E (log_call c)"
  by (simp_all add: keeps_def)

lemma sample_signal_fds: "fds_ok E s \<Longrightarrow> fds_ok E (x_signal sample_env i ev s)"
  by (auto simp: sample_env_def intro: fds_ok_slot)

lemma sample_main_contracts:
  "core_contract F sample_env" "library_contract sample_env"
  "core_settles F (\<lambda>s. nat (num_curr_events (port_evq s))) sample_env"
proof -
  show "core_contract F sample_env"
    using sample_contracts
    by (auto simp: core_contract_def signal_only_def ll_laws_def keeps_id ipc_handler_ok_def sample_signal_fds)
      (simp_all add: sample_env_def keeps_id upd_conn_def)
  show "library_contract sample_env" by (simp add: library_contract_def sample_env_def fd_ok_def)
  show "core_settles F (\<lambda>s. nat (num_curr_events (port_evq s))) sample_env"
    by (auto simp: core_settles_def sample_env_def keeps_id loop_inv_def port_inv_def get_next_event_def split: if_splits)
qed

lemma sample_port_inv: "port_inv {} (sample_port w)"
  by (auto simp: port_inv_def sample_port_def evq_init_def net_inv_def owned_def points_def slots_def sample_core_def
      sample_conn_def nth_Cons split: nat.splits)

lemma sample_loop_inv: "loop_inv {} sample_env (sample_port w)"
  using sample_port_inv [of w]
  by (simp add: loop_inv_def fds_ok_def sample_port_def sample_core_def sample_conn_def slots_def sample_relay_def
      relay_reads_def relay_writes_def)

text \<open>The start of port_main, as far as the invariant is concerned.\<close>

definition identity_keeps :: "ptr set \<Rightarrow> 'x env \<Rightarrow> ('x, 'id) identity_api \<Rightarrow> bool" where
  "identity_keeps F E A \<longleftrightarrow> keeps F E (update_identities A) \<and> (\<forall>n. keeps F E (\<lambda>s. snd (create_local_identity A n s))) \<and>
     (\<forall>i. keeps F E (save_identity_entry A i))"

lemma loop_inv_cong: "view s' = view s \<Longrightarrow> fds_ok E s' = fds_ok E s \<Longrightarrow> loop_inv F E s' = loop_inv F E s"
  using port_inv_view by (auto simp: loop_inv_def)

lemma loop_inv_skip_acl: "loop_inv F E (skip_acl s) = loop_inv F E s"
  by (rule loop_inv_cong) (simp_all add: view_def skip_acl_def slots_def fds_ok_def)

text \<open>The two set-up functions only store the descriptors of their sockets.\<close>

lemma setup_descriptors:
  assumes "library_contract E"
  shows "loop_inv F E (setup_wish_server E s) = loop_inv F E s"
    and "loop_inv F E (setup_wish_local_discovery E s) = loop_inv F E s"
    and "fd_ok E (serverfd (setup_wish_server E s))" and "fd_ok E (wld_fd (setup_wish_local_discovery E s))"
    and "serverfd (setup_wish_local_discovery E s) = serverfd s"
proof -
  have k: "fd_ok E (fst (x_socket E t w))" for t w using assms by (simp add: library_contract_def)
  have v: "view (setup_wish_server E s) = view s" "view (setup_wish_local_discovery E s) = view s"
    "fds_ok E (setup_wish_server E s) = fds_ok E s" "fds_ok E (setup_wish_local_discovery E s) = fds_ok E s"
    by (simp_all add: setup_wish_server_def setup_wish_local_discovery_def sl_socket_def socket_set_nonblocking_def
      view_def slots_def fds_ok_def Let_def split: prod.splits)
  show "loop_inv F E (setup_wish_server E s) = loop_inv F E s" by (rule loop_inv_cong [OF v(1,3)])
  show "loop_inv F E (setup_wish_local_discovery E s) = loop_inv F E s" by (rule loop_inv_cong [OF v(2,4)])
  show "fd_ok E (serverfd (setup_wish_server E s))" "fd_ok E (wld_fd (setup_wish_local_discovery E s))"
    "serverfd (setup_wish_local_discovery E s) = serverfd s"
    by (simp_all add: setup_wish_server_def setup_wish_local_discovery_def sl_socket_def socket_set_nonblocking_def Let_def
      k split_beta)
qed

lemma load_identities_inv:
  assumes "identity_keeps F E A" and "loop_inv F E s"
  shows "loop_inv F E (port_platform_load_identities A s)"
proof -
  let ?s1 = "update_identities A s"
  obtain id s2 where create: "create_local_identity A ''Bosch XDK'' ?s1 = (id, s2)" by force
  have "loop_inv F E ?s1" using assms by (auto simp: identity_keeps_def intro: keepsD)
  moreover from this have "loop_inv F E s2"
    using assms(1) keepsD(1) [of F E "\<lambda>s. snd (create_local_identity A ''Bosch XDK'' s)" ?s1] create
    by (simp add: identity_keeps_def)
  then have "loop_inv F E (update_identities A (save_identity_entry A id s2))"
    using assms(1) by (auto simp: identity_keeps_def intro: keepsD)
  ultimately show ?thesis
    by (simp add: port_platform_load_identities_def Let_def create loop_inv_skip_acl)
qed

lemma start_inv:
  assumes "library_contract E" and "identity_keeps F E A" and "keeps F E apps" and "loop_inv F E (core_init s0)"
    and "port_main_start E A core_init apps s0 = (server_fd, wld, s)"
  shows "loop_inv F E s" and "fd_ok E server_fd" and "fd_ok E wld"
proof -
  let ?s = "port_platform_load_identities A (core_init s0)"
  have "loop_inv F E ?s" by (rule load_identities_inv [OF assms(2,4)])
  then show "loop_inv F E s" "fd_ok E server_fd" "fd_ok E wld"
    using assms(5) keepsD(1) [OF assms(3)]
    by (auto simp: port_main_start_def Let_def get_server_fd_def get_wld_fd_def setup_descriptors [OF assms(1)])
qed

text \<open>What the invariant says of the memory in use.\<close>

lemma port_inv_blocks:
  assumes "port_inv F s"
  shows "live s = {p. Some p \<in> set (slots s)} \<union> set (ipc_blocks (ipc_event_queue s)) \<union> F"
    and "finite F \<Longrightarrow> card (live s) = length (filter (\<lambda>a. a \<noteq> None) (slots s)) + 2 * length (ipc_event_queue s) + card F"
proof -
  let ?C = "{p. Some p \<in> set (slots s)}" and ?M = "set (ipc_blocks (ipc_event_queue s))"
  have o: "owned (?M \<union> F) (slots s) (live s) (next_ptr s)" and d: "distinct (ipc_blocks (ipc_event_queue s))" "?M \<inter> F = {}"
    using assms by (simp_all add: port_inv_def net_inv_def)
  have C: "p \<in> ?C \<longleftrightarrow> (\<exists>k. points (slots s) k p)" for p by (auto simp: points_def in_set_conv_nth)
  show l: "live s = ?C \<union> ?M \<union> F" using o C by (auto simp: owned_def)
  have disj: "?C \<inter> (?M \<union> F) = {}" using o C by (auto simp: owned_def)
  show "card (live s) = length (filter (\<lambda>a. a \<noteq> None) (slots s)) + 2 * length (ipc_event_queue s) + card F" if "finite F"
  proof -
    let ?I = "{k. k < length (slots s) \<and> slots s ! k \<noteq> None}"
    have "inj_on (\<lambda>k. the (slots s ! k)) ?I"
    proof (rule inj_onI)
      fix i k assume "i \<in> ?I" "k \<in> ?I" and "the (slots s ! i) = the (slots s ! k)"
      then obtain p where "points (slots s) i p" "points (slots s) k p" by (auto simp: points_def)
      with o show "i = k" unfolding owned_def by blast
    qed
    moreover have "(\<lambda>k. the (slots s ! k)) ` ?I = ?C" unfolding set_eq_iff C points_def by (force simp: image_iff)
    ultimately have "bij_betw (\<lambda>k. the (slots s ! k)) ?I ?C" by (rule bij_betw_imageI)
    then have "card ?C = length (filter (\<lambda>a. a \<noteq> None) (slots s))"
      by (simp add: bij_betw_same_card [symmetric] length_filter_conv_card)
    moreover have "card ?M = 2 * length (ipc_event_queue s)"
      using distinct_card [OF d(1)] by (simp add: length_ipc_blocks)
    moreover have "finite ?C" by (rule finite_subset [of _ "set (map the (slots s))"]) force+
    ultimately show ?thesis
      using l disj d(2) that by (simp add: card_Un_disjoint Int_Un_distrib Un_assoc)
  qed
qed

text \<open>
  Property C1. The program is safe from its start on, and it leaks no memory. Let the core
  honour its contract, memory be available and the socket library return no more bytes than it
  was asked for, and from socket and accept descriptors that fit a descriptor set; let the core
  and the applications leave the port in order when they are initialised. Then port_main comes
  to its loop, and whatever select, connect, accept, recv and the clock answer, every number of
  turns of the loop is executed to its end without undefined behaviour (no NULL or dangling
  pointer is used, no block freed twice, no buffer overrun, nothing put beside a descriptor set)
  and without the event loop running for ever. Afterwards the blocks in use are one
  for each connection with a send argument, two for each queued message, and the blocks \<open>F\<close>
  that were there before: nothing has been lost.
\<close>

theorem main_loop_safe:
  assumes "core_contract F E" and "library_contract E" and "core_settles F settle E"
    and "identity_keeps F E A" and "keeps F E apps" and "loop_inv F E (core_init s0)" and "finite F"
  shows "\<exists>s'. (case port_main_start E A core_init apps s0 of
      (server_fd, wld, s) \<Rightarrow> port_main_turns E server_fd wld n s) = Some s' \<and> loop_inv F E s' \<and>
    card (live s') = length (filter (\<lambda>a. a \<noteq> None) (slots s')) + 2 * length (ipc_event_queue s') + card F"
proof -
  obtain server_fd wld s where start: "port_main_start E A core_init apps s0 = (server_fd, wld, s)"
    by (metis prod_cases3)
  note s = start_inv [OF assms(2,4-6) start]
  from turns_safe [OF assms(1-3) s(2,3,1), of n] port_inv_blocks(2) [OF loop_invD(1) assms(7)] start
  show ?thesis by (auto simp: safe_step_def)
qed

lemma sample_identity_keeps: "identity_keeps F E sample_identities"
proof -
  have "loop_inv F E s \<Longrightarrow> loop_inv F E (s\<lparr>core := (core s)\<lparr>num_ids := k\<rparr>\<rparr>)" for s k
    by (subst loop_inv_cong [of _ s]) (simp_all add: view_def slots_def fds_ok_def)
  then show ?thesis by (simp add: identity_keeps_def sample_identities_def keeps_def)
qed

theorem main_loop_safe_witness:
  "\<exists>s'. (case port_main_start sample_env sample_identities (\<lambda>s. s) (\<lambda>s. s) (sample_port 0) of
      (server_fd, wld, s) \<Rightarrow> port_main_turns sample_env server_fd wld 100 s) = Some s' \<and> loop_inv {} sample_env s' \<and>
    card (live s') = length (filter (\<lambda>a. a \<noteq> None) (slots s')) + 2 * length (ipc_event_queue s')"
  using main_loop_safe [OF sample_main_contracts sample_identity_keeps keeps_id(1), of "{}" "\<lambda>s. s" "sample_port 0" 100]
    sample_loop_inv [of 0] by simp

section \<open>Draining the event queue\<close>

text \<open>
  A processor that answers each event with the events \<open>rep\<close>, and posts nothing else.
\<close>

definition processor_replies :: "'x env \<Rightarrow> (wish_event \<Rightarrow> wish_event list) \<Rightarrow> bool" where
  "processor_replies E rep \<longleftrightarrow>
     (\<forall>slot s. port_evq (x_processor E slot s) = notify_all (rep (events (port_evq s) ! slot)) (port_evq s))"

lemma notify_all_pending:
  "evq_ok q \<Longrightarrow> length (evq_pending q) + length es \<le> 40 \<Longrightarrow>
     evq_ok (notify_all es q) \<and> evq_pending (notify_all es q) = evq_pending q @ es"
proof (induction es arbitrary: q)
  case (Cons e es)
  then have "evq_ok (notify e q)" "evq_pending (notify e q) = evq_pending q @ [e]"
    using evq.enq_inv evq.enq_pending by simp_all
  with Cons.IH [of "notify e q"] Cons.prems show ?case by (simp add: notify_all_def)
qed (simp add: notify_all_def)

lemma drain_settles_core:
  assumes "processor_replies E rep" and wt: "\<And>e. sum_list (map wt (rep e)) < wt e"
  shows "evq_ok (port_evq s) \<Longrightarrow> sum_list (map wt (evq_pending (port_evq s))) \<le> (40 :: nat) \<Longrightarrow>
    \<exists>s'. drain_events E s = Some s' \<and> evq_ok (port_evq s') \<and> evq_pending (port_evq s') = []"
proof (induction "sum_list (map wt (evq_pending (port_evq s)))" arbitrary: s rule: less_induct)
  case less
  have wt1: "1 \<le> wt e" for e using wt [of e] by simp
  have len: "length es \<le> sum_list (map wt es)" for es
  proof (induction es)
    case (Cons e es)
    with wt1 [of e] show ?case by simp
  qed simp
  show ?case
  proof (cases "evq_pending (port_evq s)")
    case Nil
    with evq.deq_empty [OF less.prems(1)] have "fst (get_next_event (port_evq s)) = None"
      by (auto simp: take_event_def split: prod.splits option.splits)
    then have "get_next_event (port_evq s) = (None, port_evq s)" by (auto simp: get_next_event_def split: if_splits)
    with Nil less.prems show ?thesis by (subst drain_events.simps) simp
  next
    case (Cons x xs)
    from evq.deq_first [OF less.prems(1) Cons] obtain q' where
      q': "take_event (port_evq s) = Some (x, q')" "evq_pending q' = xs" "evq_ok q'" by blast
    then obtain slot where g: "get_next_event (port_evq s) = (Some slot, q')" "events q' ! slot = x"
      by (auto simp: take_event_def split: prod.splits option.splits)
    let ?t = "x_processor E slot (s\<lparr>port_evq := q'\<rparr>)"
    have t: "port_evq ?t = notify_all (rep x) q'" using assms(1) g(2) by (simp add: processor_replies_def)
    have w: "sum_list (map wt (xs @ rep x)) < sum_list (map wt (evq_pending (port_evq s)))" using wt [of x] Cons by simp
    then have "length xs + length (rep x) \<le> 40" using len [of "xs @ rep x"] less.prems(2) by simp
    with notify_all_pending [OF q'(3), of "rep x"] q'(2) t have
      p: "evq_ok (port_evq ?t)" "evq_pending (port_evq ?t) = xs @ rep x" by simp_all
    have "\<exists>s'. drain_events E ?t = Some s' \<and> evq_ok (port_evq s') \<and> evq_pending (port_evq s') = []"
      using less.hyps [of ?t] p w less.prems(2) by simp
    with g(1) show ?thesis by (subst drain_events.simps) simp
  qed
qed

text \<open>
  Property C18. The event loop of a turn ends with an empty queue when the core's answers
  run out: every event has a weight greater than the total weight of the events posted while
  it is processed, and the events waiting weigh at most 40 together, the size of the ring.
\<close>

theorem event_loop_ends:
  assumes "processor_replies E rep" and "\<forall>e. sum_list (map wt (rep e)) < wt e"
    and "evq_ok (port_evq s)" and "sum_list (map wt (evq_pending (port_evq s))) \<le> (40 :: nat)"
  shows "\<exists>s'. drain_events E s = Some s' \<and> evq_ok (port_evq s') \<and> evq_pending (port_evq s') = []"
  using drain_settles_core [OF assms(1)] assms(2-) by blast

definition sample_replies :: "wish_event \<Rightarrow> wish_event list" where
  "sample_replies e = (if ev_context e = None then [] else [sample_event])"

definition replying_env :: "'x env" where
  "replying_env = sample_env\<lparr>x_processor := \<lambda>slot s.
     s\<lparr>port_evq := notify_all (sample_replies (events (port_evq s) ! slot)) (port_evq s)\<rparr>\<rparr>"

theorem event_loop_ends_witness:
  "\<exists>s'. drain_events replying_env (post \<lparr>event_type = WISH_EVENT_NEW_DATA, ev_context = Some 1\<rparr> (sample_port ())) = Some s' \<and>
     evq_ok (port_evq s') \<and> evq_pending (port_evq s') = []"
proof (rule event_loop_ends [where rep = sample_replies and wt = "\<lambda>e. if ev_context e = None then 1 else 2"])
  let ?e = "\<lparr>event_type = WISH_EVENT_NEW_DATA, ev_context = Some 1\<rparr>"
  have p: "port_evq (post ?e (sample_port ())) = notify ?e (evq_init sample_event)" by (simp add: post_def sample_port_def)
  have q: "evq_ok (notify ?e (evq_init sample_event))" "evq_pending (notify ?e (evq_init sample_event)) = [?e]"
    using evq.enq_inv [OF evq_ok_init(1), of sample_event ?e] evq.enq_pending [OF evq_ok_init(1), of sample_event ?e]
    by (simp_all add: evq_ok_init)
  show "evq_ok (port_evq (post ?e (sample_port ())))" unfolding p by (rule q(1))
  show "(\<Sum>e\<leftarrow>evq_pending (port_evq (post ?e (sample_port ()))). if ev_context e = None then 1 else 2) \<le> (40 :: nat)"
    unfolding p q(2) by simp
qed (simp_all add: processor_replies_def replying_env_def sample_replies_def sample_event_def)

text \<open>
  Property C28. The event loop has no bound of its own: if processing an event always leaves
  some event in the queue, a turn that finds one event waiting never ends, and nothing after
  it (timers, the service queue, the next select) is ever reached.
\<close>

theorem event_loop_diverges:
  assumes "\<forall>slot s. num_curr_events (port_evq (x_processor E slot s)) \<noteq> 0"
    and "num_curr_events (port_evq s) \<noteq> 0"
  shows "drain_events E s = None"
proof -
  have "drain_events E s = Some s' \<Longrightarrow> (\<forall>slot s. num_curr_events (port_evq (x_processor E slot s)) \<noteq> 0) \<longrightarrow>
      num_curr_events (port_evq s) = 0" for s'
  proof (rule drain_events.raw_induct [where P = "\<lambda>E s y. (\<forall>slot s. num_curr_events (port_evq (x_processor E slot s)) \<noteq> 0) \<longrightarrow>
      num_curr_events (port_evq s) = 0"])
    fix drain :: "'a env \<Rightarrow> 'a port \<Rightarrow> 'a port option" and E s y
    assume IH: "\<And>E s y. drain E s = Some y \<Longrightarrow> (\<forall>slot s. num_curr_events (port_evq (x_processor E slot s)) \<noteq> 0) \<longrightarrow>
        num_curr_events (port_evq s) = 0"
      and step: "(case get_next_event (port_evq s) of (None, q) \<Rightarrow> Some (s\<lparr>port_evq := q\<rparr>)
        | (Some slot, q) \<Rightarrow> drain E (x_processor E slot (s\<lparr>port_evq := q\<rparr>))) = Some y"
    show "(\<forall>slot s. num_curr_events (port_evq (x_processor E slot s)) \<noteq> 0) \<longrightarrow> num_curr_events (port_evq s) = 0"
    proof (intro impI, rule ccontr)
      assume p: "\<forall>slot s. num_curr_events (port_evq (x_processor E slot s)) \<noteq> 0" and n: "num_curr_events (port_evq s) \<noteq> 0"
      from n obtain slot q where "get_next_event (port_evq s) = (Some slot, q)" by (simp add: get_next_event_def)
      with step IH p show False by simp blast
    qed
  qed
  with assms show ?thesis by (cases "drain_events E s") auto
qed

theorem event_loop_diverges_witness:
  "drain_events (sample_env\<lparr>x_processor := \<lambda>slot s. s\<lparr>port_evq := (port_evq s)\<lparr>num_curr_events := 1\<rparr>\<rparr>\<rparr>)
     (post sample_event (sample_port ())) = None"
  by (rule event_loop_diverges) (simp_all add: post_def notify_def sample_port_def evq_init_def)

end
