(* ===== verification/Turn_Relation.thy ===== *)
theory Turn_Relation
  imports Port_Main
begin

text \<open>
  Relations between the states before and after a turn of the main loop, proved once for all:
  a reflexive and transitive relation that every step into the outside keeps (a call of the
  socket library, a callback of the core) holds between the start of a turn and the run of the
  message task at its end, whatever the sockets, the timers and the events do in between.  The
  theories on the delivery of messages and of received bytes interpret it.
\<close>

section \<open>Registering descriptors changes nothing else\<close>

definition only_max_fd :: "'x port \<Rightarrow> 'x fds option \<Rightarrow> bool" where
  "only_max_fd s r \<longleftrightarrow> (\<forall>z. r = Some z \<longrightarrow> (\<exists>m. snd (snd z) = s\<lparr>max_fd := m\<rparr>))"

lemma only_max_fd_bind:
  "only_max_fd s r \<Longrightarrow> (\<And>z. only_max_fd s (Some z) \<Longrightarrow> only_max_fd s (f z)) \<Longrightarrow> only_max_fd s (r \<bind> f)"
  by (cases r) (auto simp: only_max_fd_def)

lemma only_max_fd_select:
  assumes "only_max_fd s (Some z)"
  shows "only_max_fd s (select_read E fd z)" and "only_max_fd s (select_write E fd z)"
proof -
  obtain R W m where z: "z = (R, W, s\<lparr>max_fd := m\<rparr>)" using assms by (cases z) (auto simp: only_max_fd_def)
  show "only_max_fd s (select_read E fd z)" "only_max_fd s (select_write E fd z)"
    by (auto simp: z only_max_fd_def select_read_def select_write_def update_max_fd_eq)
qed

lemma only_max_fd_each:
  assumes "\<And>i z. only_max_fd s (Some z) \<Longrightarrow> only_max_fd s (f i z)"
  shows "only_max_fd s (Some z) \<Longrightarrow> only_max_fd s (each f is z)"
proof (induction "is" arbitrary: z)
  case (Cons i "is")
  show ?case unfolding each.simps by (rule only_max_fd_bind [OF assms [OF Cons.prems] Cons.IH])
qed simp

lemma setup_fds_frame:
  assumes "setup_fds E server_fd wld s = Some (rfds, wfds, t)"
  shows "\<exists>m. t = s\<lparr>max_fd := m\<rparr>"
proof -
  note sel = only_max_fd_select
  have relay: "only_max_fd s (setup_relay E j z)" if "only_max_fd s (Some z)" for j z
    using that by (simp add: setup_relay_def Let_def sel)
  have conn: "only_max_fd s (setup_conn E i z)" if z: "only_max_fd s (Some z)" for i z
  proof -
    have "only_max_fd s (load p t \<bind> (\<lambda>a. if b then select_write E (sock_fd a) z else select_read E (sock_fd a) z))"
      for p and t :: "'a port" and b by (cases "load p t") (simp_all add: sel [OF z], simp add: only_max_fd_def)
    with z show ?thesis by (simp add: setup_conn_def Let_def)
  qed
  have "only_max_fd s (Some ({}, {}, s))" by (auto simp: only_max_fd_def intro: exI [of _ "max_fd s"])
  then have "only_max_fd s (setup_fds E server_fd wld s)" unfolding setup_fds_def
    by (intro only_max_fd_bind sel only_max_fd_each relay conn)
  with assms show ?thesis by (simp add: only_max_fd_def)
qed

section \<open>The contract\<close>

text \<open>
  \<open>R s t\<close> may hold whenever \<open>t\<close> differs from \<open>s\<close> in neither the log, the world nor the message
  queue; for each call of the port to the outside; and for each callback of the core.  What is
  read from a socket and what the core is fed with it count as one step.
\<close>

fun plain_call :: "call \<Rightarrow> bool" where
  "plain_call (CRecv fd n r) = False"
| "plain_call (CRecvFrom fd n r) = False"
| "plain_call (CFeed i bs) = False"
| "plain_call (CLdiscoverFeed ip p bs) = False"
| "plain_call (CRelayFeed j b) = False"
| "plain_call (CAppToCore u d) = False"
| "plain_call (CCoreToApp a d) = False"
| "plain_call _ = True"

locale turn_preorder =
  fixes E :: "'x env"
    and R :: "'x port \<Rightarrow> 'x port \<Rightarrow> bool"
  assumes R_refl: "R s s"
    and R_trans: "R s t \<Longrightarrow> R t u \<Longrightarrow> R s u"
    and R_inside: "calls t = calls s \<Longrightarrow> world t = world s \<Longrightarrow> ipc_event_queue t = ipc_event_queue s \<Longrightarrow> R s t"
    and R_log: "plain_call c \<Longrightarrow> R s (log_call c s)"
    and R_connect: "x_connect E fd a (world s) = (r, w) \<Longrightarrow> R s (s\<lparr>world := w\<rparr>)"
    and R_accept: "x_accept E fd (world s) = (r, w) \<Longrightarrow> R s (s\<lparr>world := w\<rparr>)"
    and R_select: "x_select E m rd wr (world s) = (res, w) \<Longrightarrow> R s (s\<lparr>world := w\<rparr>)"
    and R_tick: "x_tick E (world s) = (tick, w) \<Longrightarrow> R s (s\<lparr>world := w\<rparr>)"
    and R_malloc: "x_malloc E (world s) = (ok, w) \<Longrightarrow> R s (s\<lparr>world := w\<rparr>)"
    and R_no_data: "x_recv E fd n (world s) = ((r, bs), w) \<Longrightarrow> r \<le> 0 \<Longrightarrow> R s (log_call (CRecv fd n r) (s\<lparr>world := w\<rparr>))"
    and R_data: "x_recv E fd n (world s) = ((r, bs), w) \<Longrightarrow> 0 < r \<Longrightarrow> nat r \<le> n \<Longrightarrow>
        R s (log_call (CFeed i (take (nat r) bs)) (log_call (CRecv fd n r) (s\<lparr>world := w\<rparr>)))"
    and R_relay_data: "x_recv E fd 1 (world s) = ((r, bs), w) \<Longrightarrow> 0 < r \<Longrightarrow>
        R s (log_call (CRelayFeed j (hd bs)) (log_call (CRecv fd 1 r) (s\<lparr>world := w\<rparr>)))"
    and R_no_datagram: "x_recvfrom E fd n a (world s) = ((r, bs, a'), w) \<Longrightarrow> r \<le> 0 \<Longrightarrow>
        R s (log_call (CRecvFrom fd n r) (s\<lparr>world := w, sockaddr_wld := a'\<rparr>))"
    and R_datagram: "x_recvfrom E fd n a (world s) = ((r, bs, a'), w) \<Longrightarrow> 0 < r \<Longrightarrow> nat r \<le> n \<Longrightarrow>
        R s (log_call (CLdiscoverFeed ip pt (take (nat r) bs)) (log_call (CRecvFrom fd n r) (s\<lparr>world := w, sockaddr_wld := a'\<rparr>)))"
    and R_signal: "R s (x_signal E i ev s)"
    and R_register: "R s (x_register_send E i p s)"
    and R_init: "x_connection_init E s = (ctx, t) \<Longrightarrow> R s t"
    and R_feed: "R s (x_feed E i bs s)"
    and R_ldiscover: "R s (x_ldiscover_feed E ip pt bs s)"
    and R_relay: "R s (x_relay_connected E j s)" "R s (x_relay_connect_fail E j s)" "R s (x_relay_disconnect E j s)"
        "R s (x_relay_periodic E j s)" "R s (x_relay_feed E j b s)"
    and R_processor: "R s (x_processor E slot s)"
    and R_periodic: "R s (x_time_report E s)" "R s (x_sensors_periodic E s)"
begin

definition R_step :: "'x port \<Rightarrow> 'x port option \<Rightarrow> bool" where
  "R_step s r \<longleftrightarrow> (\<forall>t. r = Some t \<longrightarrow> R s t)"

lemma R_step_simps [simp]: "R_step s None" "R_step s (Some t) = R s t"
  by (simp_all add: R_step_def)

lemma R_step_bind: "R_step s r \<Longrightarrow> (\<And>t. R s t \<Longrightarrow> R_step s (f t)) \<Longrightarrow> R_step s (r \<bind> f)"
  by (cases r) simp_all

lemma R_step_value: "(\<And>a. R_step s (f a)) \<Longrightarrow> R_step s (v \<bind> f)"
  by (cases v) simp_all

lemma R_step_after: "R_step t r \<Longrightarrow> R s t \<Longrightarrow> R_step s r"
  by (auto simp: R_step_def intro: R_trans)

text \<open>Each law, as a rule that continues a chain of steps.\<close>

lemmas R_then = R_log [THEN [2] R_trans] R_signal [THEN [2] R_trans] R_register [THEN [2] R_trans] R_feed [THEN [2] R_trans]
  R_ldiscover [THEN [2] R_trans] R_relay [THEN [2] R_trans] R_processor [THEN [2] R_trans] R_periodic [THEN [2] R_trans]

lemma R_fields:
  "R s t \<Longrightarrow> R s (t\<lparr>live := L\<rparr>)" "R s t \<Longrightarrow> R s (t\<lparr>heap := h\<rparr>)" "R s t \<Longrightarrow> R s (t\<lparr>next_ptr := n\<rparr>)"
  "R s t \<Longrightarrow> R s (t\<lparr>port_evq := q\<rparr>)" "R s t \<Longrightarrow> R s (t\<lparr>max_fd := m\<rparr>)" "R s t \<Longrightarrow> R s (t\<lparr>timestamp := i\<rparr>)"
  "R s t \<Longrightarrow> R s (t\<lparr>periodic_timestamp := i\<rparr>)" "R s t \<Longrightarrow> R s (post ev t)"
  by (erule R_trans, rule R_inside, simp_all add: post_def)+

lemma R_call_signal: "R s t \<Longrightarrow> R s (signal E i ev t)"
  by (simp add: signal_def R_then)

lemma R_free: "R s t \<Longrightarrow> R_step s (free p t)"
  by (simp add: free_def R_then R_fields split: option.splits)

lemma R_store: "R s t \<Longrightarrow> R_step s (store p f t)"
  by (simp add: store_def R_fields split: option.splits)

lemma R_call_malloc: "malloc E t = (p, u) \<Longrightarrow> R s t \<Longrightarrow> R s u"
proof (erule R_trans)
  assume m: "malloc E t = (p, u)"
  obtain ok w where w: "x_malloc E (world t) = (ok, w)" by force
  with m have "R (t\<lparr>world := w\<rparr>) u" by (intro R_inside) (auto simp: malloc_def split: if_splits)
  with R_malloc [OF w] show "R t u" by (rule R_trans)
qed

section \<open>The steps of a turn\<close>

lemma R_connect_fail: "R_step s (connect_fail_cb E i s)"
  unfolding connect_fail_cb_def
  by (rule R_step_bind) (auto simp: sl_close_def R_refl R_then intro!: R_step_value R_free R_call_signal)

lemma R_read_conn: "read_conn E i fd s = Some (b, s') \<Longrightarrow> R s s'"
proof -
  let ?n = "unat (read_buf_len (x_rx_buffer_free E i s))"
  assume read: "read_conn E i fd s = Some (b, s')"
  obtain r bs w where r: "x_recv E fd ?n (world s) = ((r, bs), w)" by (metis prod.exhaust)
  let ?t = "log_call (CRecv fd ?n r) (s\<lparr>world := w\<rparr>)"
  consider "x_rx_buffer_free E i s = 0" | "x_rx_buffer_free E i s \<noteq> 0" "r > 0" | "x_rx_buffer_free E i s \<noteq> 0" "r \<le> 0"
    by linarith
  then show "R s s'"
  proof cases
    case 1
    with read show ?thesis by (simp add: read_conn_def R_refl)
  next
    case 2
    with read r have n: "nat r \<le> ?n" by (auto simp: read_conn_def sl_recv_def Let_def split: if_splits)
    from R_data [OF r 2(2) n, of i] have "R s (log_call (CFeed i (take (nat r) bs)) ?t)" .
    with read r 2 n show ?thesis
      by (auto simp: read_conn_def sl_recv_def Let_def intro!: R_fields R_then)
  next
    case 3
    note t = R_no_data [OF r 3(2)]
    then have "R_step s (free p (sl_close fd ?t))" for p by (intro R_free) (simp add: sl_close_def R_then)
    with read r 3 t show ?thesis
      by (auto simp: read_conn_def sl_recv_def Let_def bind_eq_Some_conv R_step_def intro!: R_call_signal split: if_splits)
  qed
qed

lemma R_connect_conn: "R_step s (connect_conn E i fd s)"
  unfolding connect_conn_def
proof (rule R_step_value)
  fix a
  obtain r w where r: "x_connect E fd (remote_addr a) (world s) = (r, w)" by force
  let ?t = "log_call (CConnect fd (remote_addr a) r) (s\<lparr>world := w\<rparr>)"
  have t: "R s ?t" using R_connect [OF r] by (simp add: R_then)
  then have "R_step s (connect_fail_cb E i ?t \<bind> (\<lambda>u. Some (sl_close fd u)))"
    by (intro R_step_bind [OF R_step_after [OF R_connect_fail]]) (simp_all add: sl_close_def R_then)
  with r t show "R_step s (let (connect_ret, s) = sl_connect E fd (remote_addr a) s in
     if connect_ret \<ge> 0 then
       Some (if curr_transport_state (conn i s) = TRANSPORT_STATE_CONNECTING then
               (if via_relay (conn i s) then connected_cb_relay E i s else connected_cb E i s)
             else s)
     else connect_fail_cb E i s \<bind> (\<lambda>s. Some (sl_close fd s)))"
    by (simp add: sl_connect_def connected_cb_def connected_cb_relay_def R_call_signal)
qed

lemma R_dispatch_conn: "R_step s (dispatch_conn E rfds wfds i s)"
proof -
  have m: "R_step s (r \<bind> (\<lambda>(b, t). if b \<and> fd \<in> wfds then connect_conn E i fd t else Some t))"
    if "\<And>b t. r = Some (b, t) \<Longrightarrow> R s t" for r fd
    using that R_step_after [OF R_connect_conn] by (cases r) auto
  have "R_step s ((if fd \<in> rfds then read_conn E i fd s else Some (True, s)) \<bind>
      (\<lambda>(b, t). if b \<and> fd \<in> wfds then connect_conn E i fd t else Some t))" for fd
    by (rule m) (auto split: if_splits intro: R_read_conn R_refl)
  then show ?thesis unfolding dispatch_conn_def by (simp add: Let_def R_step_value R_refl)
qed

lemma R_each: "(\<And>i s. R_step s (f i s)) \<Longrightarrow> R_step s (each f is s)"
proof (induction "is" arbitrary: s)
  case (Cons i "is")
  show ?case unfolding each.simps
    by (rule R_step_bind [OF Cons.prems]) (rule R_step_after [OF Cons.IH [OF Cons.prems]])
qed (simp add: R_refl)

lemma R_dispatch_relay: "R s (dispatch_relay E rfds wfds j s)"
proof -
  obtain r bs w where recv: "x_recv E (sockfd (relay j s)) 1 (world s) = ((r, bs), w)" by (metis prod.exhaust)
  obtain c w2 where connect: "x_connect E (sockfd (relay j s)) \<lparr>sin_family = AF_INET, sin_port = htons (relay_port (relay j s)),
      sin_addr = ucast (htons (ucast (x_ipv4_value E (port_get_relay_ip s))))\<rparr> (world s) = (c, w2)" by force
  show ?thesis
  proof (cases "0 < r")
    case True
    from R_relay_data [OF recv True] R_connect [OF connect] recv connect True show ?thesis
      by (simp add: dispatch_relay_def Let_def sl_connect_def sl_recv_def sl_close_def R_refl R_then)
  next
    case False
    with R_no_data [OF recv] R_connect [OF connect] recv connect show ?thesis
      by (cases "r = 0") (simp_all add: dispatch_relay_def Let_def sl_connect_def sl_recv_def sl_close_def R_refl R_then)
  qed
qed

lemma R_fold: "(\<And>j s. R s (f j s)) \<Longrightarrow> R s (fold f js s)"
  by (induction js arbitrary: s) (auto intro: R_trans R_refl)

lemma R_accept_conn: "R_step s (accept_conn E server_fd s)"
proof -
  have new: "R_step s (store p g t \<bind> (\<lambda>u. p \<bind> (\<lambda>q. Some (signal E i ev (x_register_send E i q (log_call (CRegisterSend i q) u))))))"
    if "R s t" for p g t i ev
    by (rule R_step_bind [OF R_store [OF that]]) (auto intro!: R_step_value R_call_signal R_then)
  obtain fd w where a: "x_accept E server_fd (world s) = (fd, w)" by force
  let ?t = "log_call (CNonblock fd) (log_call (CAccept server_fd fd) (s\<lparr>world := w\<rparr>))"
  obtain c u where c: "x_connection_init E ?t = (c, u)" by force
  have "R s ?t" using R_accept [OF a] by (simp add: R_then)
  from R_trans [OF this R_init [OF c]] have u: "R s u" .
  obtain p v where m: "malloc E u = (p, v)" by force
  from a c m u new [OF R_call_malloc [OF m u]] show ?thesis
    by (simp add: accept_conn_def sl_accept_def socket_set_nonblocking_def sl_close_def Let_def R_then split: option.split)
qed

lemma R_discovery: "R_step s (read_wish_local_discovery E s)"
proof -
  obtain r bs a w where r: "x_recvfrom E (wld_fd s) 1024 (sockaddr_wld s) (world s) = ((r, bs, a), w)" by (metis prod.exhaust)
  show ?thesis
  proof (cases "0 < r \<and> nat r \<le> 1024")
    case True
    with R_datagram [OF r] r show ?thesis
      by (auto simp: read_wish_local_discovery_def Let_def R_then)
  next
    case False
    with R_no_datagram [OF r] r show ?thesis by (auto simp: read_wish_local_discovery_def Let_def)
  qed
qed

lemma R_dispatch: "R_step s (dispatch E server_fd wld rfds wfds s)"
  unfolding dispatch_def Let_def
proof (rule R_step_bind)
  show "R_step s (if wld \<in> rfds then read_wish_local_discovery E s else Some s)" by (simp add: R_discovery R_refl)
next
  fix t assume t: "R s t"
  let ?u = "fold (dispatch_relay E rfds wfds) [0 ..< length (relay_db (core t))] t"
  from t have u: "R s ?u" by (rule R_trans) (rule R_fold [OF R_dispatch_relay])
  show "R_step s (each (dispatch_conn E rfds wfds) [0 ..< length (connection_pool (core ?u))] ?u \<bind>
      (\<lambda>s. if server_fd \<in> rfds then accept_conn E server_fd s else Some s))"
    by (rule R_step_bind [OF R_step_after [OF R_each u]])
      (simp_all add: R_dispatch_conn R_step_after [OF R_accept_conn])
qed

lemma R_drain: "R_step s (drain_events E s)"
proof -
  have "drain_events E' s = Some s' \<Longrightarrow> E' = E \<longrightarrow> R s s'" for E' s'
  proof (rule drain_events.raw_induct [where P = "\<lambda>E' s y. E' = E \<longrightarrow> R s y"])
    fix drain :: "'x env \<Rightarrow> 'x port \<Rightarrow> 'x port option" and E' s y
    assume IH: "\<And>E' s y. drain E' s = Some y \<Longrightarrow> E' = E \<longrightarrow> R s y"
      and step: "(case get_next_event (port_evq s) of (None, q) \<Rightarrow> Some (s\<lparr>port_evq := q\<rparr>)
        | (Some slot, q) \<Rightarrow> drain E' (x_processor E' slot (s\<lparr>port_evq := q\<rparr>))) = Some y"
    show "E' = E \<longrightarrow> R s y"
    proof
      assume E': "E' = E"
      obtain k q where kq: "get_next_event (port_evq s) = (k, q)" by force
      have q: "R s (s\<lparr>port_evq := q\<rparr>)" by (rule R_fields(4) [OF R_refl])
      have "R s (x_processor E slot (s\<lparr>port_evq := q\<rparr>))" for slot by (rule R_trans [OF q R_processor])
      then have "drain E (x_processor E slot (s\<lparr>port_evq := q\<rparr>)) = Some y \<Longrightarrow> R s y" for slot
        using IH R_trans by blast
      with kq q step E' show "R s y" by (cases k) auto
    qed
  qed
  then show ?thesis by (simp add: R_step_def)
qed

lemma R_call_periodic: "R s t \<Longrightarrow> R s (periodic E sec t)"
  by (simp add: periodic_def Let_def R_then R_fields)

text \<open>A turn is a chain of steps followed by one run of the task.\<close>

lemma turn_before_task:
  assumes "port_main_turn E server_fd wld s = Some s'"
  shows "\<exists>t. R s t \<and> port_service_ipc_task E t = Some s'"
proof -
  from assms obtain rfds wfds s1 where "setup_fds E server_fd wld s = Some (rfds, wfds, s1)"
    by (auto simp: port_main_turn_def bind_eq_Some_conv)
  with setup_fds_frame obtain m where fds: "setup_fds E server_fd wld s = Some (rfds, wfds, s\<lparr>max_fd := m\<rparr>)" by blast
  obtain n R' W' w where sel: "x_select E m rfds wfds (world s) = ((n, R', W'), w)" by (metis prod.exhaust)
  let ?s2 = "s\<lparr>max_fd := m, world := w\<rparr>"
  have "R (s\<lparr>max_fd := m\<rparr>) ?s2" using R_select [of m rfds wfds "s\<lparr>max_fd := m\<rparr>"] sel by simp
  with R_fields(5) [OF R_refl] have r2: "R s ?s2" by (rule R_trans)
  have q1: "R_step s (if n > 0 then dispatch E server_fd wld R' W' ?s2 else Some ?s2)"
    using R_step_after [OF R_dispatch r2] r2 by simp
  from assms fds sel obtain s3 where
    s3: "(if n > 0 then dispatch E server_fd wld R' W' ?s2 else Some ?s2) = Some s3"
    by (cases "if n > 0 then dispatch E server_fd wld R' W' ?s2 else Some ?s2") (simp_all add: port_main_turn_def)
  with q1 have r3: "R s s3" by simp
  obtain tick w2 where tk: "x_tick E (world s3) = (tick, w2)" by force
  let ?s4 = "tick10 (seconds E tick) (s3\<lparr>world := w2\<rparr>)"
  have "R s ?s4" using R_trans [OF r3 R_tick [OF tk]] by (simp add: tick10_def R_fields)
  from R_step_after [OF R_drain this] have q5: "R_step s (drain_events E ?s4)" .
  from assms fds sel s3 tk obtain s5 where s5: "drain_events E ?s4 = Some s5"
    "port_service_ipc_task E (periodic E (seconds E tick) s5) = Some s'"
    by (auto simp: port_main_turn_def Let_def bind_eq_Some_conv)
  with q5 R_call_periodic show ?thesis by auto
qed

end

text \<open>
  A relation that also survives the task at the end of the turn: the messages it hands over
  and removes.
\<close>

locale run_preorder = turn_preorder +
  assumes R_hand_over: "R s (log_call (CAppToCore u d) s)" "R s (log_call (CCoreToApp app d) s)"
    and R_handlers: "R s (x_app_to_core E k u d s)" "R s (x_core_to_app E app d s)"
    and R_queue: "R s (s\<lparr>ipc_event_queue := q\<rparr>)"
begin

lemma R_task: "R_step s (port_service_ipc_task E s)"
proof (cases "ipc_event_queue s")
  case Nil
  then show ?thesis by (simp add: port_service_ipc_task_def R_refl)
next
  case (Cons e q)
  have "R_step s (deliver E e s)"
    by (auto simp: deliver_def receive_app_to_core_def receive_core_to_app_def R_refl
        intro: R_trans [OF R_hand_over(1) R_handlers(1)] R_trans [OF R_hand_over(2) R_handlers(2)]
        split: ipc_event_type.split option.split)
  with Cons show ?thesis
    by (simp add: port_service_ipc_task_def Let_def)
      (auto intro!: R_step_bind [where r = "deliver E e s"] R_step_bind [where r = "free p u" for p u] R_free
        intro: R_trans [OF _ R_queue])
qed

lemma turns_R: "port_main_turns E server_fd wld n s = Some s' \<Longrightarrow> R s s'"
proof (induction n arbitrary: s)
  case (Suc n)
  then obtain t where t: "port_main_turn E server_fd wld s = Some t" "port_main_turns E server_fd wld n t = Some s'"
    by (auto simp: bind_eq_Some_conv)
  from turn_before_task [OF t(1)] obtain u where "R s u" "port_service_ipc_task E u = Some t" by blast
  with R_task [of u] have "R s t" using R_trans by auto
  then show ?case using Suc.IH [OF t(2)] by (rule R_trans)
qed (simp add: R_refl)

end


end
