(* ===== verification/Main_Liveness.thy ===== *)
theory Main_Liveness
  imports Main_Safety Turn_Relation "HOL-Library.Sublist"
begin

text \<open>
  The service queue inside the main loop: whatever the rest of a turn does, the task at its
  end hands over one message per turn, in order.
\<close>

section \<open>Steps that leave the waiting messages alone\<close>

text \<open>
  A step is quiet when it hands no message over (\<open>handed\<close> of \<open>Service_IPC\<close>) and
  only adds messages behind those that wait.
\<close>

definition quiet :: "'x port \<Rightarrow> 'x port \<Rightarrow> bool" where
  "quiet s s' \<longleftrightarrow> handed s' = handed s \<and> prefix (ipc_event_queue s) (ipc_event_queue s')"

definition quiet_step :: "'x port \<Rightarrow> 'x port option \<Rightarrow> bool" where
  "quiet_step s r \<longleftrightarrow> (\<forall>s'. r = Some s' \<longrightarrow> quiet s s')"

definition quiet_call :: "('x port \<Rightarrow> 'x port) \<Rightarrow> bool" where
  "quiet_call f \<longleftrightarrow> (\<forall>s. quiet s (f s))"

lemma quiet_refl [simp]: "quiet s s"
  by (simp add: quiet_def)

lemma quiet_trans: "quiet s t \<Longrightarrow> quiet t u \<Longrightarrow> quiet s u"
  by (auto simp: quiet_def)

lemma quiet_through: "quiet_call f \<Longrightarrow> quiet s t \<Longrightarrow> quiet s (f t)"
  by (auto simp: quiet_call_def intro: quiet_trans)

lemma handed_frames [simp]:
  "\<not> handover c \<Longrightarrow> handed (log_call c t) = handed t" "handed (t\<lparr>world := w\<rparr>) = handed t"
  "handed (t\<lparr>max_fd := m\<rparr>) = handed t" "handed (t\<lparr>live := L\<rparr>) = handed t" "handed (t\<lparr>heap := h\<rparr>) = handed t"
  "handed (t\<lparr>next_ptr := n\<rparr>) = handed t" "handed (t\<lparr>port_evq := q\<rparr>) = handed t"
  "handed (t\<lparr>timestamp := i\<rparr>) = handed t" "handed (t\<lparr>periodic_timestamp := i\<rparr>) = handed t"
  "handed (t\<lparr>sockaddr_wld := a\<rparr>) = handed t" "handed (t\<lparr>ipc_event_queue := ipcq\<rparr>) = handed t"
  "handed (upd_conn k f t) = handed t"
  by (simp_all add: handed_def upd_conn_def)

lemma quiet_frames [simp]:
  "\<not> handover c \<Longrightarrow> quiet s (log_call c t) = quiet s t" "quiet s (t\<lparr>world := w\<rparr>) = quiet s t"
  "quiet s (t\<lparr>max_fd := m\<rparr>) = quiet s t" "quiet s (t\<lparr>live := L\<rparr>) = quiet s t" "quiet s (t\<lparr>heap := h\<rparr>) = quiet s t"
  "quiet s (t\<lparr>next_ptr := n\<rparr>) = quiet s t" "quiet s (t\<lparr>port_evq := q\<rparr>) = quiet s t"
  "quiet s (t\<lparr>timestamp := i\<rparr>) = quiet s t" "quiet s (t\<lparr>periodic_timestamp := i\<rparr>) = quiet s t"
  "quiet s (t\<lparr>sockaddr_wld := a\<rparr>) = quiet s t" "quiet s (upd_conn k f t) = quiet s t"
  by (simp_all add: quiet_def upd_conn_def) (simp_all add: handed_def)

lemma quiet_post [simp]: "quiet s (post ev t) = quiet s t"
  by (simp add: post_def)

section \<open>The core hands nothing over by itself\<close>

text \<open>
  The callbacks of the core and of the applications call send_core_to_app and
  send_app_to_core to send messages, which append them; they do not call the two receiving
  functions, which are reserved to the task.
\<close>

definition core_sends_only :: "'x env \<Rightarrow> bool" where
  "core_sends_only E \<longleftrightarrow> (\<forall>i ev. quiet_call (x_signal E i ev)) \<and> (\<forall>i bs. quiet_call (x_feed E i bs)) \<and>
     (\<forall>ip p bs. quiet_call (x_ldiscover_feed E ip p bs)) \<and> quiet_call (\<lambda>s. snd (x_connection_init E s)) \<and>
     (\<forall>j. quiet_call (x_relay_connected E j) \<and> quiet_call (x_relay_connect_fail E j) \<and>
        quiet_call (x_relay_disconnect E j) \<and> quiet_call (x_relay_periodic E j) \<and> (\<forall>b. quiet_call (x_relay_feed E j b))) \<and>
     (\<forall>slot. quiet_call (x_processor E slot)) \<and> quiet_call (x_time_report E) \<and> quiet_call (x_sensors_periodic E) \<and>
     (\<forall>k u d. quiet_call (x_app_to_core E k u d)) \<and> (\<forall>a d. quiet_call (x_core_to_app E a d))"

lemma core_sends_onlyD:
  assumes "core_sends_only E"
  shows "quiet_call (x_signal E i ev)" "quiet_call (x_feed E i bs)" "quiet_call (x_ldiscover_feed E ip p bs)"
    "quiet_call (\<lambda>s. snd (x_connection_init E s))" "quiet_call (x_relay_connected E j)"
    "quiet_call (x_relay_connect_fail E j)" "quiet_call (x_relay_disconnect E j)" "quiet_call (x_relay_periodic E j)"
    "quiet_call (x_relay_feed E j b)" "quiet_call (x_processor E slot)" "quiet_call (x_time_report E)"
    "quiet_call (x_sensors_periodic E)" "quiet_call (x_app_to_core E k u d)" "quiet_call (x_core_to_app E a d)"
  using assms by (simp_all add: core_sends_only_def)

lemmas quiet_calls = core_sends_onlyD [THEN quiet_through]

section \<open>A turn up to its task\<close>

lemma quiet_step_simps [simp]: "quiet_step s None" "quiet_step s (Some t) = quiet s t"
  by (simp_all add: quiet_step_def)

lemma quiet_step_after: "quiet_step t r \<Longrightarrow> quiet s t \<Longrightarrow> quiet_step s r"
  by (auto simp: quiet_step_def intro: quiet_trans)

lemma plain_no_handover: "plain_call c \<Longrightarrow> \<not> handover c"
  by (cases c) simp_all

interpretation quiet_turn: turn_preorder E "\<lambda>s t. core_sends_only E \<and> register_send_stores E \<longrightarrow> quiet s t" for E :: "'x env"
proof
  fix s t u :: "'x port"
  show "core_sends_only E \<and> register_send_stores E \<longrightarrow> quiet s s" by simp
  show "core_sends_only E \<and> register_send_stores E \<longrightarrow> quiet s u"
    if "core_sends_only E \<and> register_send_stores E \<longrightarrow> quiet s t" "core_sends_only E \<and> register_send_stores E \<longrightarrow> quiet t u"
    using that quiet_trans by blast
  show "core_sends_only E \<and> register_send_stores E \<longrightarrow> quiet s t"
    if "calls t = calls s" "world t = world s" "ipc_event_queue t = ipc_event_queue s"
    using that by (simp add: quiet_def handed_def)
  show "core_sends_only E \<and> register_send_stores E \<longrightarrow> quiet s t" if "x_connection_init E s = (ctx, t)" for ctx
    using quiet_calls(4) [OF _ quiet_refl, of E s] that by auto
qed (auto simp: plain_no_handover register_send_stores_def intro: quiet_calls [OF _ quiet_refl])

section \<open>Delivery\<close>

text \<open>\<open>hands_over E e c\<close>: the call \<open>c\<close> gives the message \<open>e\<close> to the side it is meant for.\<close>

definition hands_over :: "'x env \<Rightarrow> ipc_event \<Rightarrow> call \<Rightarrow> bool" where
  "hands_over E e c \<longleftrightarrow>
     (ie_type e = EVENT_APP_TO_CORE \<and> (\<exists>a w. ie_app e = Some a \<and> c = CAppToCore (x_app_wsid E a w) (ie_data e))) \<or>
     (ie_type e = EVENT_CORE_TO_APP \<and> c = CCoreToApp (ie_app e) (ie_data e))"

lemma deliver_hands_over:
  assumes "core_sends_only E" and "deliver E e s = Some s'" and "ie_type e \<noteq> EVENT_UNKNOWN"
  shows "\<exists>c. hands_over E e c \<and> handed s' = handed s @ [c] \<and> prefix (ipc_event_queue s) (ipc_event_queue s')"
proof (cases "ie_type e")
  case EVENT_APP_TO_CORE
  with assms(2) obtain a where a: "ie_app e = Some a" by (auto simp: deliver_def split: option.splits)
  let ?c = "CAppToCore (x_app_wsid E a (world s)) (ie_data e)"
  have "quiet (log_call ?c s) s'" using EVENT_APP_TO_CORE a assms(2)
    by (auto simp: deliver_def receive_app_to_core_def intro!: quiet_calls(13) [OF assms(1)])
  with EVENT_APP_TO_CORE a show ?thesis
    by (intro exI [of _ ?c]) (auto simp: quiet_def hands_over_def handed_def)
next
  case EVENT_CORE_TO_APP
  let ?c = "CCoreToApp (ie_app e) (ie_data e)"
  have "quiet (log_call ?c s) s'" using EVENT_CORE_TO_APP assms(2)
    by (auto simp: deliver_def receive_core_to_app_def intro!: quiet_calls(14) [OF assms(1)])
  with EVENT_CORE_TO_APP show ?thesis
    by (intro exI [of _ ?c]) (auto simp: quiet_def hands_over_def handed_def)
qed (use assms(3) in simp)

lemma free_ipc: "free p s = Some s' \<Longrightarrow> handed s' = handed s \<and> ipc_event_queue s' = ipc_event_queue s"
  by (auto simp: free_def split: option.splits if_splits)

lemma task_hands_over:
  assumes "core_sends_only E" and "ll_laws E" and "port_service_ipc_task E s = Some s'"
    and "ipc_event_queue s = e # q" and "ie_type e \<noteq> EVENT_UNKNOWN"
  shows "\<exists>c. hands_over E e c \<and> handed s' = handed s @ [c] \<and> prefix q (ipc_event_queue s')"
proof -
  from assms(3,4) obtain s1 s2 where s1: "deliver E e s = Some s1"
    and s2: "free (Some (ie_data_ptr e)) (s1\<lparr>ipc_event_queue := x_ll_delete E (ipc_event_queue s1) e\<rparr>) = Some s2"
      "free (Some (ie_ptr e)) s2 = Some s'"
    by (auto simp: port_service_ipc_task_def Let_def bind_eq_Some_conv)
  from deliver_hands_over [OF assms(1) s1 assms(5)] obtain c where
    c: "hands_over E e c" "handed s1 = handed s @ [c]" and "prefix (e # q) (ipc_event_queue s1)"
    by (auto simp: assms(4))
  then obtain new where "ipc_event_queue s1 = e # q @ new" by (auto simp: prefix_def)
  moreover from this have "x_ll_delete E (ipc_event_queue s1) e = q @ new" using assms(2) by (simp add: ll_laws_def)
  ultimately have "handed s' = handed s1" "ipc_event_queue s' = q @ new"
    using free_ipc [OF s2(1)] free_ipc [OF s2(2)] by simp_all
  with c show ?thesis by auto
qed

lemma delivered_core:
  assumes "core_contract F E" and "library_contract E" and "core_settles F settle E" and "core_sends_only E"
    and fds: "fd_ok E server_fd" "fd_ok E wld"
  shows "loop_inv F E s \<Longrightarrow> prefix es (ipc_event_queue s) \<Longrightarrow> \<forall>e \<in> set es. ie_type e \<noteq> EVENT_UNKNOWN \<Longrightarrow>
    \<exists>s' cs. port_main_turns E server_fd wld (length es) s = Some s' \<and> loop_inv F E s' \<and>
      handed s' = handed s @ cs \<and> list_all2 (hands_over E) es cs \<and> prefix (drop (length es) (ipc_event_queue s)) (ipc_event_queue s')"
proof (induction es arbitrary: s)
  case (Cons e es)
  have laws: "register_send_stores E" "ll_laws E" using assms(1) by (simp_all add: core_contract_def)
  from Cons.prems(2) obtain q where q: "ipc_event_queue s = e # q" "prefix es q" by (auto simp: prefix_def)
  from turn_safe [OF assms(1-3) Cons.prems(1) fds] obtain s1 where
    s1: "port_main_turn E server_fd wld s = Some s1" "loop_inv F E s1" by (auto simp: safe_step_def)
  from quiet_turn.turn_before_task [OF s1(1)] assms(4) laws(1) obtain t where
    t: "quiet s t" "port_service_ipc_task E t = Some s1" by blast
  then obtain new where tq: "ipc_event_queue t = e # q @ new" using q(1) by (auto simp: quiet_def prefix_def)
  from task_hands_over [OF assms(4) laws(2) t(2) tq] Cons.prems(3) t(1) obtain c where
    c: "hands_over E e c" "handed s1 = handed s @ [c]" "prefix (q @ new) (ipc_event_queue s1)"
    by (auto simp: quiet_def)
  have "prefix es (ipc_event_queue s1)" using q(2) c(3) by (meson append_prefixD prefix_order.trans)
  from Cons.IH [OF s1(2) this] Cons.prems(3) obtain s' cs where
    s': "port_main_turns E server_fd wld (length es) s1 = Some s'" "loop_inv F E s'" "handed s' = handed s1 @ cs"
      "list_all2 (hands_over E) es cs" "prefix (drop (length es) (ipc_event_queue s1)) (ipc_event_queue s')" by auto
  have "prefix (drop (length es) q) (drop (length es) (ipc_event_queue s1))"
    using c(3) by (auto simp: prefix_def)
  with s'(5) have "prefix (drop (length es) q) (ipc_event_queue s')" by (rule prefix_order.trans [rotated])
  with s1(1) s' c q(1) show ?case by (intro exI [of _ s'] exI [of _ "c # cs"]) simp
qed simp

text \<open>
  Property C2. Every message between the core and the applications arrives, in the order in
  which it was sent, and nothing can hold it up: the message that \<open>n - 1\<close> others precede in
  the queue is handed to its receiver in the \<open>n\<close>-th turn of the main loop at the latest. In
  \<open>n\<close> turns exactly the first \<open>n\<close> messages are handed over, each once, whatever the sockets,
  the timers and the events of the core do meanwhile and however many new messages are sent;
  the new ones queue up behind the others.
\<close>

theorem messages_delivered:
  assumes "core_contract F E" and "library_contract E" and "core_settles F settle E" and "core_sends_only E"
    and "fd_ok E server_fd" and "fd_ok E wld" and "loop_inv F E s" and "n \<le> length (ipc_event_queue s)" and "\<forall>e \<in> set (ipc_event_queue s). ie_type e \<noteq> EVENT_UNKNOWN"
  shows "\<exists>s' cs. port_main_turns E server_fd wld n s = Some s' \<and> handed s' = handed s @ cs \<and>
    list_all2 (hands_over E) (take n (ipc_event_queue s)) cs \<and>
    prefix (drop n (ipc_event_queue s)) (ipc_event_queue s')"
proof -
  have "\<forall>e \<in> set (take n (ipc_event_queue s)). ie_type e \<noteq> EVENT_UNKNOWN" using assms(9) by (meson in_set_takeD)
  from delivered_core [OF assms(1-7) take_is_prefix this] assms(8) show ?thesis by (auto 0 4)
qed

definition waiting_port :: "unit port" where
  "waiting_port = (sample_port ())\<lparr>live := {0, 1, 2, 3}, next_ptr := 4, ipc_event_queue :=
     [\<lparr>ie_type = EVENT_CORE_TO_APP, ie_app = Some 5, ie_data = [7], ie_len = 1, ie_ptr = 0, ie_data_ptr = 1\<rparr>,
      \<lparr>ie_type = EVENT_CORE_TO_APP, ie_app = Some 6, ie_data = [8], ie_len = 1, ie_ptr = 2, ie_data_ptr = 3\<rparr>]\<rparr>"

lemma sample_sends_only: "core_sends_only sample_env"
proof -
  have "quiet_call (\<lambda>s. s)" by (simp add: quiet_call_def)
  then show ?thesis by (simp add: core_sends_only_def sample_env_def quiet_call_def)
qed

lemma waiting_port_inv: "loop_inv {} sample_env waiting_port"
proof -
  have "slots waiting_port = [None, None]" by (simp add: waiting_port_def sample_port_def slots_def sample_core_def sample_conn_def)
  then have "\<not> points (slots waiting_port) k p" for k p by (cases k) (auto simp: points_def)
  then have "port_inv {} waiting_port"
    by (auto simp: port_inv_def net_inv_def owned_def waiting_port_def sample_port_def evq_init_def)
  moreover have "fds_ok sample_env waiting_port" using loop_invD(2) [OF sample_loop_inv] by (simp add: waiting_port_def)
  ultimately show ?thesis by (simp add: loop_inv_def)
qed

theorem messages_delivered_witness:
  "\<exists>s'. port_main_turns sample_env 1 2 2 waiting_port = Some s' \<and> handed s' = [CCoreToApp (Some 5) [7], CCoreToApp (Some 6) [8]]"
proof -
  have n: "2 \<le> length (ipc_event_queue waiting_port)"
    and t: "\<forall>e \<in> set (ipc_event_queue waiting_port). ie_type e \<noteq> EVENT_UNKNOWN" by (simp_all add: waiting_port_def)
  have "fd_ok sample_env 1" "fd_ok sample_env 2" by (simp_all add: fd_ok_def sample_env_def)
  from messages_delivered [OF sample_main_contracts sample_sends_only this waiting_port_inv n t] show ?thesis
    by (auto simp: waiting_port_def sample_port_def handed_def hands_over_def numeral_2_eq_2 list_all2_Cons1)
qed

end
