(* ===== verification/Main_Reception.thy ===== *)
theory Main_Reception
  imports Main_Safety Turn_Relation
begin

text \<open>
  What the main loop does with the data it reads.  The bytes that recv and recvfrom hand out
  are gone from the socket library; the theory shows that the loop passes every one of them on
  to the core.
\<close>

section \<open>The bytes handed out and the bytes fed\<close>

text \<open>
  \<open>taken w\<close> is the history of a socket library in the state \<open>w\<close>: the pieces of data that it
  has handed out, each with its descriptor.  A call of recv or recvfrom with a positive answer
  adds the bytes it answers with, and no other call adds any.
\<close>

definition hands_out :: "('x \<Rightarrow> (int \<times> byte list) list) \<Rightarrow> int \<Rightarrow> nat \<Rightarrow> int \<Rightarrow> byte list \<Rightarrow> 'x \<Rightarrow> 'x \<Rightarrow> bool" where
  "hands_out taken fd n r bs w w' \<longleftrightarrow>
     (if 0 < r then nat r \<le> n \<and> nat r \<le> length bs \<and> taken w' = taken w @ [(fd, take (nat r) bs)] else taken w' = taken w)"

definition socket_history :: "'x env \<Rightarrow> ('x \<Rightarrow> (int \<times> byte list) list) \<Rightarrow> bool" where
  "socket_history E taken \<longleftrightarrow>
     (\<forall>fd n w r bs w'. x_recv E fd n w = ((r, bs), w') \<longrightarrow> hands_out taken fd n r bs w w') \<and>
     (\<forall>fd n a w r bs a' w'. x_recvfrom E fd n a w = ((r, bs, a'), w') \<longrightarrow> hands_out taken fd n r bs w w') \<and>
     (\<forall>fd a w. taken (snd (x_connect E fd a w)) = taken w) \<and> (\<forall>fd w. taken (snd (x_accept E fd w)) = taken w) \<and>
     (\<forall>m R W w. taken (snd (x_select E m R W w)) = taken w) \<and> (\<forall>w. taken (snd (x_tick E w)) = taken w) \<and>
     (\<forall>w. taken (snd (x_malloc E w)) = taken w) \<and>
     (\<forall>t w. taken (snd (x_socket E t w)) = taken w) \<and> (\<forall>fd bs w. taken (snd (x_send E fd bs w)) = taken w)"

text \<open>
  What the core has been fed, read off the log: each piece with the descriptor that was read
  last.
\<close>

fun feed_step :: "int \<times> (int \<times> byte list) list \<Rightarrow> call \<Rightarrow> int \<times> (int \<times> byte list) list" where
  "feed_step (k, ps) (CRecv fd n r) = (fd, ps)"
| "feed_step (k, ps) (CRecvFrom fd n r) = (fd, ps)"
| "feed_step (k, ps) (CFeed i bs) = (k, ps @ [(k, bs)])"
| "feed_step (k, ps) (CRelayFeed j b) = (k, ps @ [(k, [b])])"
| "feed_step (k, ps) (CLdiscoverFeed ip p bs) = (k, ps @ [(k, bs)])"
| "feed_step z _ = z"

definition fed :: "'x port \<Rightarrow> (int \<times> byte list) list" where
  "fed s = snd (foldl feed_step (0, []) (calls s))"

text \<open>
  The callbacks of the core and of the applications do not read from the sockets themselves
  and do not call the feeding functions.
\<close>

definition same_data :: "('x \<Rightarrow> (int \<times> byte list) list) \<Rightarrow> 'x port \<Rightarrow> 'x port \<Rightarrow> bool" where
  "same_data taken s t \<longleftrightarrow> taken (world t) = taken (world s) \<and> fed t = fed s"

definition reads_nothing :: "('x \<Rightarrow> (int \<times> byte list) list) \<Rightarrow> ('x port \<Rightarrow> 'x port) \<Rightarrow> bool" where
  "reads_nothing taken f \<longleftrightarrow> (\<forall>s. same_data taken s (f s))"

definition core_reads_nothing :: "'x env \<Rightarrow> ('x \<Rightarrow> (int \<times> byte list) list) \<Rightarrow> bool" where
  "core_reads_nothing E taken \<longleftrightarrow> register_send_stores E \<and>
     (\<forall>i ev. reads_nothing taken (x_signal E i ev)) \<and> (\<forall>i bs. reads_nothing taken (x_feed E i bs)) \<and>
     (\<forall>ip p bs. reads_nothing taken (x_ldiscover_feed E ip p bs)) \<and> reads_nothing taken (\<lambda>s. snd (x_connection_init E s)) \<and>
     (\<forall>j. reads_nothing taken (x_relay_connected E j) \<and> reads_nothing taken (x_relay_connect_fail E j) \<and>
        reads_nothing taken (x_relay_disconnect E j) \<and> reads_nothing taken (x_relay_periodic E j) \<and>
        (\<forall>b. reads_nothing taken (x_relay_feed E j b))) \<and>
     (\<forall>k. reads_nothing taken (x_processor E k)) \<and> reads_nothing taken (x_time_report E) \<and>
     reads_nothing taken (x_sensors_periodic E) \<and>
     (\<forall>k u d. reads_nothing taken (x_app_to_core E k u d)) \<and> (\<forall>a d. reads_nothing taken (x_core_to_app E a d))"

section \<open>Every step passes on what it reads\<close>

definition passes_on :: "('x \<Rightarrow> (int \<times> byte list) list) \<Rightarrow> 'x port \<Rightarrow> 'x port \<Rightarrow> bool" where
  "passes_on taken s t \<longleftrightarrow> (\<exists>new. taken (world t) = taken (world s) @ new \<and> fed t = fed s @ new)"

lemma passes_on_refl: "passes_on taken s s"
  by (simp add: passes_on_def)

lemma passes_on_trans: "passes_on taken s t \<Longrightarrow> passes_on taken t u \<Longrightarrow> passes_on taken s u"
  by (auto simp: passes_on_def)

lemma passes_on_same: "reads_nothing taken f \<Longrightarrow> passes_on taken s (f s)"
  by (simp add: passes_on_def reads_nothing_def same_data_def)

lemma fed_log: "fed (log_call c s) = snd (feed_step (foldl feed_step (0, []) (calls s)) c)"
  by (simp add: fed_def)

lemma feed_step_plain: "plain_call c \<Longrightarrow> feed_step z c = z"
  by (cases z; cases c) simp_all

lemma fed_log_other [simp]:
  "plain_call c \<Longrightarrow> fed (log_call c s) = fed s" "fed (log_call (CRecv fd n r) s) = fed s" "fed (log_call (CRecvFrom fd n r) s) = fed s"
  "fed (log_call (CAppToCore u d) s) = fed s" "fed (log_call (CCoreToApp a d) s) = fed s"
  by (cases "foldl feed_step (0, []) (calls s)"; simp add: fed_log feed_step_plain fed_def)+

lemma fed_log_feed [simp]:
  "fed (log_call (CFeed i bs) (log_call (CRecv fd n r) s)) = fed s @ [(fd, bs)]"
  "fed (log_call (CRelayFeed j b) (log_call (CRecv fd n r) s)) = fed s @ [(fd, [b])]"
  "fed (log_call (CLdiscoverFeed ip p bs) (log_call (CRecvFrom fd n r) s)) = fed s @ [(fd, bs)]"
  by (cases "foldl feed_step (0, []) (calls s)"; simp add: fed_def)+

lemma fed_frames [simp]: "fed (s\<lparr>world := w\<rparr>) = fed s" "fed (s\<lparr>sockaddr_wld := a\<rparr>) = fed s"
  "fed (s\<lparr>ipc_event_queue := q\<rparr>) = fed s" "fed (upd_conn i f s) = fed s"
  by (simp_all add: fed_def)

lemma take_one: "0 < n \<Longrightarrow> n \<le> 1 \<Longrightarrow> n \<le> length bs \<Longrightarrow> take n bs = [hd bs]"
  by (cases bs) (auto simp: le_Suc_eq)

text \<open>The premise of the relation, for use as an implication.\<close>

definition data_contract :: "'x env \<Rightarrow> ('x \<Rightarrow> (int \<times> byte list) list) \<Rightarrow> bool" where
  "data_contract E taken \<longleftrightarrow> socket_history E taken \<and> core_reads_nothing E taken"

lemma data_contractD:
  assumes "data_contract E taken"
  shows "x_recv E fd n w = ((r, bs), w') \<Longrightarrow> hands_out taken fd n r bs w w'"
    and "x_recvfrom E fd n a w = ((r, bs, a'), w') \<Longrightarrow> hands_out taken fd n r bs w w'"
proof -
  from assms have h: "\<forall>fd n w r bs w'. x_recv E fd n w = ((r, bs), w') \<longrightarrow> hands_out taken fd n r bs w w'"
    "\<forall>fd n a w r bs a' w'. x_recvfrom E fd n a w = ((r, bs, a'), w') \<longrightarrow> hands_out taken fd n r bs w w'"
    by (auto simp: data_contract_def socket_history_def)
  from h(1) show "x_recv E fd n w = ((r, bs), w') \<Longrightarrow> hands_out taken fd n r bs w w'" by simp
  from h(2) show "x_recvfrom E fd n a w = ((r, bs, a'), w') \<Longrightarrow> hands_out taken fd n r bs w w'" by metis
qed

lemma data_contract_callbacks:
  assumes "data_contract E taken"
  shows "passes_on taken s (x_signal E i ev s)" "passes_on taken s (x_feed E i bs s)" "passes_on taken s (x_ldiscover_feed E ip p bs s)"
    "passes_on taken s (snd (x_connection_init E s))" "passes_on taken s (x_relay_connected E j s)"
    "passes_on taken s (x_relay_connect_fail E j s)" "passes_on taken s (x_relay_disconnect E j s)"
    "passes_on taken s (x_relay_periodic E j s)" "passes_on taken s (x_relay_feed E j b s)" "passes_on taken s (x_processor E k s)"
    "passes_on taken s (x_time_report E s)" "passes_on taken s (x_sensors_periodic E s)"
    "passes_on taken s (x_app_to_core E b' u d s)" "passes_on taken s (x_core_to_app E x d s)"
    "passes_on taken s (x_register_send E i q s)"
proof -
  from assms have c: "core_reads_nothing E taken" by (simp add: data_contract_def)
  then have "reads_nothing taken (\<lambda>s. snd (x_connection_init E s))" by (simp add: core_reads_nothing_def)
  from passes_on_same [OF this] show "passes_on taken s (snd (x_connection_init E s))" .
  from c show "passes_on taken s (x_register_send E i q s)"
    by (simp add: core_reads_nothing_def passes_on_def register_send_stores_def)
qed (use assms in \<open>simp_all add: data_contract_def core_reads_nothing_def passes_on_same\<close>)

lemma history_world:
  assumes "socket_history E taken"
  shows "x_connect E fd a w = (r, w') \<Longrightarrow> taken w' = taken w" "x_accept E fd w = (r, w') \<Longrightarrow> taken w' = taken w"
    "x_select E m R W w = (z, w') \<Longrightarrow> taken w' = taken w" "x_tick E w = (tick, w') \<Longrightarrow> taken w' = taken w"
    "x_malloc E w = (ok, w') \<Longrightarrow> taken w' = taken w" "x_socket E t w = (r, w') \<Longrightarrow> taken w' = taken w"
    "x_send E fd bs w = (r, w') \<Longrightarrow> taken w' = taken w"
proof -
  from assms have "taken (snd (x_connect E fd a w)) = taken w" "taken (snd (x_accept E fd w)) = taken w"
    "taken (snd (x_select E m R W w)) = taken w" "taken (snd (x_tick E w)) = taken w" "taken (snd (x_malloc E w)) = taken w"
    "taken (snd (x_socket E t w)) = taken w" "taken (snd (x_send E fd bs w)) = taken w"
    by (simp_all add: socket_history_def)
  then show "x_connect E fd a w = (r, w') \<Longrightarrow> taken w' = taken w" "x_accept E fd w = (r, w') \<Longrightarrow> taken w' = taken w"
    "x_select E m R W w = (z, w') \<Longrightarrow> taken w' = taken w" "x_tick E w = (tick, w') \<Longrightarrow> taken w' = taken w"
    "x_malloc E w = (ok, w') \<Longrightarrow> taken w' = taken w" "x_socket E t w = (r, w') \<Longrightarrow> taken w' = taken w"
    "x_send E fd bs w = (r, w') \<Longrightarrow> taken w' = taken w" by simp_all
qed

lemma data_contract_history: "data_contract E taken \<Longrightarrow> socket_history E taken"
  by (simp add: data_contract_def)

lemmas data_contract_world = history_world [OF data_contract_history]

interpretation reception: run_preorder E "\<lambda>s t. data_contract E taken \<longrightarrow> passes_on taken s t"
  for E :: "'x env" and taken
proof
  fix s t u :: "'x port"
  show "data_contract E taken \<longrightarrow> passes_on taken s s" by (simp add: passes_on_refl)
  show "data_contract E taken \<longrightarrow> passes_on taken s u"
    if "data_contract E taken \<longrightarrow> passes_on taken s t" "data_contract E taken \<longrightarrow> passes_on taken t u"
    using that passes_on_trans by blast
  show "data_contract E taken \<longrightarrow> passes_on taken s t"
    if "calls t = calls s" "world t = world s" "ipc_event_queue t = ipc_event_queue s"
    using that by (simp add: passes_on_def fed_def)
  show "data_contract E taken \<longrightarrow> passes_on taken s t" if "x_connection_init E s = (ctx, t)" for ctx
    using data_contract_callbacks(4) [of E taken s] that by auto
  show "data_contract E taken \<longrightarrow> passes_on taken s (log_call (CRelayFeed j (hd bs)) (log_call (CRecv fd 1 r) (s\<lparr>world := w\<rparr>)))"
    if "x_recv E fd 1 (world s) = ((r, bs), w)" "0 < r" for fd r bs w j
    using data_contractD(1) [OF _ that(1), of taken] that(2) take_one [of "nat r" bs]
    by (auto simp: passes_on_def hands_out_def)
qed (auto simp: passes_on_def hands_out_def dest: data_contractD data_contract_world
      intro: data_contract_callbacks [unfolded passes_on_def])

section \<open>Nothing received is lost\<close>

text \<open>
  Property C3. Every byte that the device takes from the network reaches the core: over any
  number of turns of the main loop, the pieces of data fed to the core (to a connection, to the
  local discovery, or byte by byte to a relay) are exactly the pieces that recv and recvfrom
  have handed out, unchanged, each once, in the order in which they were read and together with
  the descriptor they came from. Nothing is dropped, repeated or cut short between the socket
  library and the core, whatever the sockets answer and the core does meanwhile.
\<close>

theorem received_bytes_delivered:
  assumes "core_contract F E" and "library_contract E" and "core_settles F settle E"
    and "fd_ok E server_fd" and "fd_ok E wld" and "loop_inv F E s" and "data_contract E taken"
  shows "\<exists>s' new. port_main_turns E server_fd wld n s = Some s' \<and>
    taken (world s') = taken (world s) @ new \<and> fed s' = fed s @ new"
proof -
  from turns_safe [OF assms(1-6), of n] obtain s' where "port_main_turns E server_fd wld n s = Some s'"
    by (auto simp: safe_step_def)
  with reception.turns_R [OF this] assms(7) show ?thesis by (auto simp: passes_on_def)
qed

text \<open>
  A socket library that has some pieces of data waiting for whoever reads first, and that
  remembers what it has handed out; and a port with an open relay.
\<close>

type_synonym script = "byte list list \<times> (int \<times> byte list) list"

definition script_env :: "script env" where
  "script_env = sample_env\<lparr>
     x_select := \<lambda>m R W w. ((1, R, {}), w),
     x_recv := \<lambda>fd n (ps, h). case ps of
         [] \<Rightarrow> ((-11, []), (ps, h))
       | p # ps \<Rightarrow> ((int (length (take n p)), take n p), (ps, h @ (if take n p = [] then [] else [(fd, take n p)])))\<rparr>"

definition script_port :: "script port" where
  "script_port = upd_relay 0 (\<lambda>r. r\<lparr>curr_state := WISH_RELAY_CLIENT_OPEN, sockfd := 6\<rparr>) (sample_port ([[65], [66]], []))"

lemma script_contracts:
  "core_contract {} script_env" "library_contract script_env"
  "core_settles {} (\<lambda>s. nat (num_curr_events (port_evq s))) script_env" "data_contract script_env snd" "loop_inv {} script_env script_port"
proof -
  have f: "fds_ok script_env = fds_ok sample_env" by (simp add: fun_eq_iff fds_ok_def fd_ok_def script_env_def)
  then have k: "keeps F script_env = keeps F sample_env" "loop_inv F script_env = loop_inv F sample_env" for F
    by (simp_all add: fun_eq_iff keeps_def loop_inv_def)
  have same: "x_signal script_env = x_signal sample_env" "x_register_send script_env = x_register_send sample_env"
    "x_ll_append script_env = x_ll_append (sample_env :: script env)" "x_ll_delete script_env = x_ll_delete (sample_env :: script env)"
    "x_feed script_env = x_feed sample_env" "x_ldiscover_feed script_env = x_ldiscover_feed sample_env"
    "x_relay_connected script_env = x_relay_connected sample_env" "x_relay_connect_fail script_env = x_relay_connect_fail sample_env"
    "x_relay_disconnect script_env = x_relay_disconnect sample_env" "x_relay_periodic script_env = x_relay_periodic sample_env"
    "x_relay_feed script_env = x_relay_feed sample_env" "x_time_report script_env = x_time_report sample_env"
    "x_sensors_periodic script_env = x_sensors_periodic sample_env" "x_app_to_core script_env = x_app_to_core sample_env"
    "x_core_to_app script_env = x_core_to_app sample_env" "x_connection_init script_env = x_connection_init sample_env"
    "x_processor script_env = x_processor sample_env"
    by (simp_all add: script_env_def)
  have c: "core_contract {} (sample_env :: script env)" "library_contract (sample_env :: script env)"
    "core_settles {} (\<lambda>s. nat (num_curr_events (port_evq s))) (sample_env :: script env)" by (rule sample_main_contracts)+
  from c(1) show "core_contract {} script_env"
    by (simp add: core_contract_def signal_only_def signal_contract_def register_send_stores_def ll_laws_def ipc_handler_ok_def k f same)
  from c(2) show "library_contract script_env"
    by (simp add: library_contract_def script_env_def sample_env_def fd_ok_def split: list.split)
  from c(3) show "core_settles {} (\<lambda>s. nat (num_curr_events (port_evq s))) script_env"
    by (simp add: core_settles_def k same)
  show "data_contract script_env snd"
    by (auto simp: data_contract_def socket_history_def core_reads_nothing_def hands_out_def reads_nothing_def same_data_def script_env_def
      sample_env_def register_send_stores_def min_def split: list.splits if_splits)
  have "fds_ok script_env script_port"
    by (simp add: fds_ok_def script_port_def sample_port_def sample_core_def sample_conn_def slots_def upd_relay_def
      relay_reads_def relay_writes_def fd_ok_def script_env_def sample_env_def)
  moreover have "view script_port = view (sample_port ([[65], [66]], []) :: script port)" by (simp add: script_port_def)
  from port_inv_view [OF this, of "{}"] sample_port_inv have "port_inv {} script_port" by simp
  ultimately show "loop_inv {} script_env script_port" by (simp add: loop_inv_def)
qed

text \<open>Two turns of this device: the relay reads one byte in each.\<close>

lemma script_turns:
  "map_option (\<lambda>s. (fed s, world s)) (port_main_turns script_env 1 2 2 script_port) =
     Some ([(6, [65]), (6, [66])], ([], [(6, [65]), (6, [66])]))"
  unfolding numeral_2_eq_2
  by (simp add: port_main_turn_def setup_fds_def select_read_def fd_ok_def script_env_def sample_simps script_port_def
      upd_relay_def update_max_fd_def setup_relay_def relay_def setup_conn_def conn_def dispatch_def Let_def
      read_wish_local_discovery_def dispatch_relay_def sl_recv_def dispatch_conn_def accept_conn_def sl_accept_def
      socket_set_nonblocking_def sl_close_def tick10_def seconds_def drain_events.simps get_next_event_def evq_init_def
      periodic_def port_service_ipc_task_def fed_def load_def)

theorem received_bytes_delivered_witness:
  "\<exists>s' new. port_main_turns script_env 1 2 2 script_port = Some s' \<and> snd (world s') = new \<and> fed s' = new \<and>
     new = [(6, [65]), (6, [66])]"
proof -
  have "fd_ok script_env 1" "fd_ok script_env 2" by (simp_all add: fd_ok_def script_env_def sample_env_def)
  from received_bytes_delivered [OF script_contracts(1-3) this script_contracts(5,4), of 2] obtain s' new where
    "port_main_turns script_env 1 2 2 script_port = Some s'" "snd (world s') = snd (world script_port) @ new" "fed s' = fed script_port @ new"
    by blast
  moreover have "fed script_port = []" "snd (world script_port) = []"
    by (simp_all add: script_port_def sample_port_def fed_def upd_relay_def)
  ultimately show ?thesis using script_turns by auto
qed

end
