(* ===== verification/Core_Contract.thy ===== *)
theory Core_Contract
  imports Main_Liveness Main_Reception Relay_Client
begin

text \<open>
  The other direction of the interface between port and core: the functions of the port that
  the core calls from within its callbacks.  Each of them keeps the port's invariant, hands no
  message over and reads nothing from a socket, so a core that acts through them meets the
  contracts of \<open>Main_Safety\<close>, \<open>Main_Liveness\<close> and \<open>Main_Reception\<close>.
\<close>

section \<open>The functions the core calls\<close>

text \<open>
  Beside them, the core may change its own tables as long as it leaves the send arguments of
  the connections, which belong to the port, as they are (\<open>Core_Change\<close>), and the rest of its state, which the
  model keeps in \<open>world\<close> beside that of the libraries (\<open>Core_World\<close>).
\<close>

datatype 'x port_op =
  Net_Op net_op | Core_Change "wish_core \<Rightarrow> wish_core" | Core_World "'x \<Rightarrow> 'x" | Send_To_Core "byte list" "byte list"
| Send_To_App "byte list" "byte list" | Post_Event wish_event | Advertise "byte list" u32
| Relay_Open nat "byte list" u32 | Relay_Close nat | Set_Host_Port u16

fun port_call :: "'x env \<Rightarrow> 'x port_op \<Rightarrow> 'x port \<Rightarrow> 'x port option" where
  "port_call E (Net_Op x) s = net_run1 E x s"
| "port_call E (Core_Change g) s = Some (s\<lparr>core := g (core s)\<rparr>)"
| "port_call E (Core_World h) s = Some (s\<lparr>world := h (world s)\<rparr>)"
| "port_call E (Send_To_Core u d) s = Some (send_app_to_core E u d s)"
| "port_call E (Send_To_App u d) s = Some (send_core_to_app E u d s)"
| "port_call E (Post_Event ev) s = Some (post ev s)"
| "port_call E (Advertise msg a) s = Some (snd (wish_send_advertizement msg a s))"
| "port_call E (Relay_Open j uid a) s = wish_relay_client_open E j uid a s"
| "port_call E (Relay_Close j) s = Some (wish_relay_client_close E j s)"
| "port_call E (Set_Host_Port p) s = Some (wish_set_host_port p s)"

text \<open>
  What the caller must respect: contexts are opened when free and closed or written when
  open, a relay that waits for its socket has a descriptor that fits a set, an application
  that sends to the core is registered, and the core's own state is no part of the record \<open>taken\<close> of what
  the sockets have handed out.
\<close>

fun port_allowed :: "'x env \<Rightarrow> ('x \<Rightarrow> (int \<times> byte list) list) \<Rightarrow> 'x port_op \<Rightarrow> 'x port \<Rightarrow> bool" where
  "port_allowed E taken (Net_Op x) s \<longleftrightarrow> net_allowed E x s"
| "port_allowed E taken (Core_Change g) s \<longleftrightarrow> map send_arg (connection_pool (g (core s))) = map send_arg (connection_pool (core s)) \<and>
     (\<forall>rc \<in> set (relay_db (g (core s))). \<forall>fd \<in> relay_reads rc \<union> relay_writes rc. fd_ok E fd)"
| "port_allowed E taken (Core_World h) s \<longleftrightarrow> taken (h (world s)) = taken (world s)"
| "port_allowed E taken (Send_To_Core u d) s \<longleftrightarrow>
     x_app_find_by_wsid E u (snd (x_malloc E (snd (x_malloc E (world s))))) \<noteq> None"
| "port_allowed E taken _ s \<longleftrightarrow> True"

definition port_step :: "'x env \<Rightarrow> ('x \<Rightarrow> (int \<times> byte list) list) \<Rightarrow> 'x port_op \<Rightarrow> 'x port option \<Rightarrow> 'x port option" where
  "port_step E taken x r = (case r of None \<Rightarrow> None | Some s \<Rightarrow> if port_allowed E taken x s then port_call E x s else Some s)"

text \<open>
  What is left to demand of the core itself: the three functions that the port's own functions
  call back.
\<close>

definition callbacks_ok :: "ptr set \<Rightarrow> 'x env \<Rightarrow> bool" where
  "callbacks_ok F E \<longleftrightarrow> signal_only E \<and> (\<forall>i ev. quiet_call (x_signal E i ev)) \<and> register_send_stores E \<and> ll_laws E \<and>
     (\<forall>j. keeps F E (x_relay_disconnect E j) \<and> quiet_call (x_relay_disconnect E j))"

section \<open>The calls keep the invariant\<close>

text \<open>What no call of a connection or relay function changes.\<close>

definition still :: "'x port \<Rightarrow> int \<times> ipc_event list \<times> nat \<times> call list" where
  "still s = (num_curr_events (port_evq s), ipc_event_queue s, length (slots s), handed s)"

lemma still_frames [simp]:
  "\<not> handover c \<Longrightarrow> still (log_call c t) = still t" "still (t\<lparr>world := w\<rparr>) = still t"
  "still (t\<lparr>live := L\<rparr>) = still t" "still (t\<lparr>heap := h\<rparr>) = still t" "still (t\<lparr>next_ptr := n\<rparr>) = still t"
  "still (upd_conn k f t) = still t" "still (upd_relay k g t) = still t" "still (t\<lparr>port_relay_ip := ip\<rparr>) = still t"
  by (simp_all add: still_def slots_def handed_def upd_conn_def upd_relay_def)

lemma still_quiet: "still s' = still s \<Longrightarrow> quiet s s'"
  by (simp add: still_def quiet_def)

lemma still_signal:
  assumes "signal_only E" and "quiet_call (x_signal E i ev)"
  shows "still (signal E i ev s) = still s"
proof -
  have "quiet s (signal E i ev s)" using quiet_through [OF assms(2), of s "log_call (CSignal i ev) s"] by (simp add: signal_def)
  with signal_view [OF assms(1), of i ev s] show ?thesis by (simp add: view_def still_def quiet_def)
qed

lemma net_still:
  assumes "callbacks_ok F E" and "net_run1 E x s = Some s'"
  shows "still s' = still s"
proof -
  have sg: "still (signal E i ev t) = still t" for i ev t
    by (rule still_signal) (use assms(1) in \<open>simp_all add: callbacks_ok_def\<close>)
  have reg: "x_register_send E i p = upd_conn i (\<lambda>c. c\<lparr>send_arg := Some p\<rparr>)" for i p
    using assms(1) by (simp add: callbacks_ok_def register_send_stores_def fun_eq_iff)
  show ?thesis
  proof (cases x)
    case (Open i ip p)
    with assms(2) show ?thesis
      by (auto simp: wish_open_connection_def malloc_def sl_socket_def sl_connect_def store_def load_def sg reg
        socket_set_nonblocking_def quad.snprintf_whole aton_into_quad Let_def connected_cb_def connected_cb_relay_def
        split: prod.splits if_splits)
  next
    case (Close i)
    with assms(2) show ?thesis
      by (auto simp: wish_close_connection_def load_def free_def Let_def sl_close_def sg split: option.splits if_splits)
  next
    case (Connect_Fail i)
    with assms(2) show ?thesis
      by (auto simp: connect_fail_cb_def load_def free_def Let_def sl_close_def sg bind_eq_Some_conv split: option.splits if_splits)
  next
    case (Write i bs)
    with assms(2) show ?thesis
      by (auto simp: write_to_socket_def load_def sl_send_def Let_def split: option.splits if_splits prod.splits)
  qed
qed

lemma fds_ok_same_arg [simp]: "(\<And>c. send_arg (f c) = send_arg c) \<Longrightarrow> fds_ok E (upd_conn i f s) = fds_ok E s"
  by (rule fds_ok_cong) simp_all

lemma callbacks_fds: "callbacks_ok F E \<Longrightarrow> fds_ok E s \<Longrightarrow> fds_ok E (signal E i ev s)"
  by (simp add: callbacks_ok_def signal_only_def signal_def)

lemma open_fds:
  assumes "callbacks_ok F E" and "library_contract E" and "loop_inv F E s"
    and "i < length (slots s)" and "wish_open_connection E i ip p b s = Some (r, s')"
  shows "fds_ok E s'"
proof -
  obtain w1 where m: "x_malloc E (world s) = (True, w1)" using assms(2) by (metis (full_types) library_contract_def prod.collapse)
  obtain fd w2 where k: "x_socket E SOCK_STREAM w1 = (fd, w2)" by force
  have fd: "fd_ok E fd" using assms(2) k by (metis fst_conv library_contract_def)
  then have "\<not> fd < 0" by (simp add: fd_ok_def)
  have reg: "x_register_send E i p = upd_conn i (\<lambda>c. c\<lparr>send_arg := Some p\<rparr>)" for i p
    using assms(1) by (simp add: callbacks_ok_def register_send_stores_def fun_eq_iff)
  note new = fds_ok_open [OF assms(3), where i = i]
  from assms(4,5) m k fd \<open>\<not> fd < 0\<close> show ?thesis
    apply (auto simp: length_slots wish_open_connection_def malloc_def sl_socket_def sl_connect_def store_def load_def reg
        socket_set_nonblocking_def quad.snprintf_whole aton_into_quad connected_cb_def connected_cb_relay_def Let_def
        split: prod.splits if_splits)
    by ((rule callbacks_fds [OF assms(1)])?, rule new; simp add: length_slots)+
qed

lemma net_fds:
  assumes "callbacks_ok F E" and "library_contract E" and "loop_inv F E s" and "net_allowed E x s" and "net_run1 E x s = Some s'"
  shows "fds_ok E s'"
proof (cases x)
  case (Open i ip p)
  with open_fds [OF assms(1-3)] assms(4,5) show ?thesis by auto
next
  case (Close i)
  with assms(5) loop_invD(2) [OF assms(3)] show ?thesis
    by (auto simp: wish_close_connection_def load_def free_def Let_def split: option.splits if_splits
        intro!: callbacks_fds [OF assms(1)])
next
  case (Connect_Fail i)
  with assms(5) loop_invD(2) [OF assms(3)] show ?thesis
    by (auto simp: connect_fail_cb_def load_def free_def Let_def bind_eq_Some_conv split: option.splits if_splits
        intro!: callbacks_fds [OF assms(1)])
next
  case (Write i bs)
  with assms(5) loop_invD(2) [OF assms(3)] show ?thesis
    by (auto simp: write_to_socket_def load_def sl_send_def Let_def split: option.splits if_splits prod.splits)
qed

lemma net_call_safe:
  assumes "callbacks_ok F E" and "library_contract E" and "loop_inv F E s" and "net_allowed E x s"
  shows "safe_step F E (length (slots s)) (net_run1 E x s)"
proof -
  let ?B = "set (ipc_blocks (ipc_event_queue s)) \<union> F"
  have E: "signal_contract E" "register_send_stores E"
    using assms(1) by (simp_all add: callbacks_ok_def signal_only_def)
  have p: "port_inv F s" by (rule loop_invD(1) [OF assms(3)])
  then have "net_inv ?B s" by (simp add: port_inv_def)
  from net_step_safe [OF E this assms(4)] obtain s' where s': "net_run1 E x s = Some s'" "net_inv ?B s'" by blast
  note f = net_still [OF assms(1) s'(1)]
  then have "loop_inv F E s'" using p s'(2) net_fds [OF assms(1-4) s'(1)] by (simp add: loop_inv_def port_inv_def still_def)
  with s'(1) f show ?thesis by (simp add: safe_stepI still_def)
qed

lemma owned_two:
  assumes "owned B xs L n"
  shows "owned (insert n (insert (Suc n) B)) xs (insert n (insert (Suc n) L)) (Suc (Suc n))"
proof -
  have n: "p \<in> L \<Longrightarrow> p < n" "points xs k p \<Longrightarrow> p \<in> L" for p k using assms unfolding owned_def by blast+
  then have "points xs k p \<Longrightarrow> p < n" for k p by blast
  with assms n(1) show ?thesis unfolding owned_def by (fastforce dest: less_imp_not_less)
qed

lemma send_safe:
  assumes "ll_laws E" and "library_contract E" and "loop_inv F E s"
    and "t = EVENT_APP_TO_CORE \<longrightarrow> x_app_find_by_wsid E u (snd (x_malloc E (snd (x_malloc E (world s))))) \<noteq> None"
  shows "safe_step F E (length (slots s)) (Some (send_ipc E t u d s))"
proof -
  obtain w1 w2 where m: "x_malloc E (world s) = (True, w1)" "x_malloc E w1 = (True, w2)"
    using assms(2) by (metis (full_types) library_contract_def prod.collapse)
  let ?e = "\<lparr>ie_type = t, ie_app = x_app_find_by_wsid E u w2, ie_data = d, ie_len = length d, ie_ptr = next_ptr s,
              ie_data_ptr = Suc (next_ptr s)\<rparr>"
  let ?s' = "send_ipc E t u d s" and ?B = "set (ipc_blocks (ipc_event_queue s)) \<union> F"
  have q: "ipc_event_queue ?s' = ipc_event_queue s @ [?e]" "num_curr_events (port_evq ?s') = num_curr_events (port_evq s)"
    "slots ?s' = slots s" "live ?s' = insert (next_ptr s) (insert (Suc (next_ptr s)) (live s))"
    "next_ptr ?s' = Suc (Suc (next_ptr s))"
    using assms(1) m by (auto simp: send_ipc_def malloc_def ll_laws_def slots_def)
  note inv = loop_invD [OF assms(3)]
  have o: "owned ?B (slots s) (live s) (next_ptr s)" using inv(1) by (simp add: port_inv_def net_inv_def)
  then have "p < next_ptr s" if "p \<in> ?B" for p using that unfolding owned_def by blast
  from this [of "next_ptr s"] this [of "Suc (next_ptr s)"] have fresh: "next_ptr s \<notin> ?B" "Suc (next_ptr s) \<notin> ?B" by linarith+
  from owned_two [OF o] have "net_inv (set (ipc_blocks (ipc_event_queue s @ [?e])) \<union> F) ?s'"
    by (simp add: net_inv_def q(3-5) insert_commute Un_commute)
  with inv(1) assms(4) m fresh have "port_inv F ?s'" unfolding port_inv_def q(1,2) by auto
  moreover have "heap ?s' p = heap s p" if "p < next_ptr s" for p using m that by (simp add: send_ipc_def malloc_def)
  moreover have "relay_db (core ?s') = relay_db (core s)" using m by (simp add: send_ipc_def malloc_def)
  then have "fds_ok E ?s'" using inv(2) port_inv_fresh [OF inv(1)] calculation(2) by (simp add: fds_ok_def q(3))
  ultimately have "loop_inv F E ?s'" by (simp add: loop_inv_def)
  with q show ?thesis by (simp add: safe_stepI)
qed

lemma relay_open_still:
  "\<exists>t. wish_relay_client_open E j uid a s = Some t \<and> view t = view s \<and> still t = still s \<and> heap t = heap s"
proof -
  have "\<exists>t. port_relay_client_open E j ip a s = Some t \<and> view t = view s \<and> still t = still s \<and> heap t = heap s" for ip s
    by (auto simp: port_relay_client_open_def sl_socket_def sl_connect_def socket_set_nonblocking_def quad.sprintf_whole
        Let_def split: prod.split)
  from this [of _ "upd_relay j (\<lambda>r. r\<lparr>relay_uid := uid\<rparr>) (log_call (CRingBufferInit j)
      (upd_relay j (\<lambda>r. r\<lparr>curr_state := WISH_RELAY_CLIENT_OPEN\<rparr>) s))"] show ?thesis
    by (simp add: wish_relay_client_open_def port_dns_start_resolving_relay_client_def Let_def split: option.split)
qed

text \<open>Opening a relay leaves it waiting for a new socket, or for none.\<close>

lemma relay_open_relays:
  assumes "library_contract E" and "wish_relay_client_open E j uid a s = Some t"
  shows "relay_db (core t) = (relay_db (core s))[j := relay j t]"
    and "j < length (relay_db (core s)) \<Longrightarrow> fd \<in> relay_reads (relay j t) \<union> relay_writes (relay j t) \<Longrightarrow> fd_ok E fd"
proof -
  obtain k w where k: "x_socket E SOCK_STREAM (world s) = (k, w)" by force
  then have fd: "fd_ok E k" using assms(1) by (metis fst_conv library_contract_def)
  have upd: "relay_db (core (upd_relay j f s)) = (relay_db (core s))[j := f (relay j s)]" for f s
    by (simp add: upd_relay_def relay_def)
  have same: "relay j (upd_relay j f s) = (if j < length (relay_db (core s)) then f (relay j s) else relay j s)" for f s
    by (simp add: relay_def upd_relay_def list_update_beyond)
  note defs = wish_relay_client_open_def port_relay_client_open_def sl_socket_def sl_connect_def quad.sprintf_whole
      port_dns_start_resolving_relay_client_def socket_set_nonblocking_def Let_def upd same k
  from assms(2) show "relay_db (core t) = (relay_db (core s))[j := relay j t]"
    by (auto simp: defs list_update_beyond split: prod.splits option.splits if_splits)
  from assms(2) fd show "fd_ok E fd" if "j < length (relay_db (core s))" "fd \<in> relay_reads (relay j t) \<union> relay_writes (relay j t)"
    using that by (auto simp: defs relay_reads_def relay_writes_def split: prod.splits option.splits if_splits)
qed

lemma relay_open_safe:
  assumes "library_contract E" and "loop_inv F E s" and "wish_relay_client_open E j uid a s = Some t"
  shows "loop_inv F E t \<and> slots t = slots s"
proof -
  have t: "view t = view s" "heap t = heap s" using relay_open_still [of E j uid a s] assms(3) by auto
  then have sl: "slots t = slots s" by (simp add: view_def)
  note r = relay_open_relays [OF assms(1,3)]
  have "rc \<in> set (relay_db (core s)) \<or> j < length (relay_db (core s)) \<and> rc = relay j t" if "rc \<in> set (relay_db (core t))" for rc
    using that r(1) by (cases "j < length (relay_db (core s))")
      (auto simp: list_update_beyond dest: set_update_subset_insert [THEN subsetD])
  with r(2) loop_invD(2) [OF assms(2)] have "fds_ok E t" unfolding fds_ok_def sl t(2) by blast
  with sl loop_invD(1) [OF assms(2)] port_inv_view [OF t(1)] show ?thesis by (simp add: loop_inv_def)
qed

lemma port_call_safe:
  assumes "callbacks_ok F E" and "library_contract E" and "loop_inv F E s" and "port_allowed E taken x s"
  shows "safe_step F E (length (slots s)) (port_call E x s)"
proof -
  have ll: "ll_laws E" using assms(1) by (simp add: callbacks_ok_def)
  have same: "safe_step F E (length (slots s)) (Some t)" if "view t = view s" "fds_ok E t = fds_ok E s" for t
  proof -
    have "slots t = slots s" using that by (simp add: view_def)
    with assms(3) loop_inv_cong [OF that] show ?thesis by (simp add: safe_stepI)
  qed
  show ?thesis
  proof (cases x)
    case (Net_Op y)
    with net_call_safe assms show ?thesis by auto
  next
    case (Core_Change g)
    with assms(4) have v: "view (s\<lparr>core := g (core s)\<rparr>) = view s" and sl: "slots (s\<lparr>core := g (core s)\<rparr>) = slots s"
      by (simp_all add: view_def slots_def)
    have "fds_ok E (s\<lparr>core := g (core s)\<rparr>)" using assms(4) Core_Change loop_invD(2) [OF assms(3)] by (simp add: fds_ok_def sl)
    with same [OF v] Core_Change loop_invD(2) [OF assms(3)] show ?thesis by simp
  next
    case (Core_World h)
    have "view (s\<lparr>world := h (world s)\<rparr>) = view s" "fds_ok E (s\<lparr>world := h (world s)\<rparr>) = fds_ok E s"
      by (simp_all add: view_def slots_def fds_ok_def)
    from same [OF this] Core_World show ?thesis by simp
  next
    case (Send_To_Core u d)
    with send_safe [OF ll assms(2,3), of EVENT_APP_TO_CORE u d] assms(4) show ?thesis by (simp add: send_is_ipc)
  next
    case (Send_To_App u d)
    with send_safe [OF ll assms(2,3), of EVENT_CORE_TO_APP u d] show ?thesis by (simp add: send_is_ipc)
  next
    case (Post_Event ev)
    have "slots (post ev s) = slots s" by (simp add: post_def slots_def)
    with Post_Event loop_inv_post [OF assms(3), of ev] show ?thesis by (simp add: safe_stepI)
  next
    case (Advertise msg a)
    then show ?thesis by (auto intro: same simp: wish_send_advertizement_def Let_def)
  next
    case (Relay_Open j uid a)
    with relay_open_still [of E j uid a s] relay_open_safe [OF assms(2,3)] show ?thesis by (auto intro!: safe_stepI)
  next
    case (Relay_Close j)
    let ?t = "log_call (CRelayDisconnect j) (sl_close (sockfd (relay j s)) s)"
    have "keeps F E (x_relay_disconnect E j)" using assms(1) by (simp add: callbacks_ok_def)
    from keeps_slots [OF this, of ?t] assms(3) Relay_Close show ?thesis
      by (simp add: wish_relay_client_close_def safe_stepI)
  next
    case (Set_Host_Port p)
    have "view (wish_set_host_port p s) = view s" "fds_ok E (wish_set_host_port p s) = fds_ok E s"
      by (simp_all add: view_def slots_def wish_set_host_port_def fds_ok_def)
    from same [OF this] Set_Host_Port show ?thesis by simp
  qed
qed

lemma send_quiet: "ll_laws E \<Longrightarrow> quiet s (send_ipc E t u d s)"
  by (auto simp: send_ipc_def malloc_def ll_laws_def quiet_def split: prod.split)

lemma port_call_quiet:
  assumes "callbacks_ok F E"
  shows "quiet_step s (port_call E x s)"
proof (cases x)
  case (Net_Op y)
  with still_quiet [OF net_still [OF assms]] show ?thesis by (simp add: quiet_step_def)
next
  case (Relay_Open j uid a)
  with relay_open_still [of E j uid a s] still_quiet show ?thesis by auto
next
  case (Relay_Close j)
  have "quiet_call (x_relay_disconnect E j)" using assms by (simp add: callbacks_ok_def)
  from quiet_through [OF this] Relay_Close show ?thesis by (simp add: wish_relay_client_close_def sl_close_def)
qed (use assms send_quiet [of E s] in \<open>simp_all add: callbacks_ok_def send_is_ipc wish_send_advertizement_def
    wish_set_host_port_def post_def quiet_def handed_def Let_def\<close>)

section \<open>The calls read nothing\<close>

text \<open>Each call leaves the data taken from the sockets and the data fed to the core as they are.\<close>

definition callbacks_silent :: "'x env \<Rightarrow> ('x \<Rightarrow> (int \<times> byte list) list) \<Rightarrow> bool" where
  "callbacks_silent E taken \<longleftrightarrow> socket_history E taken \<and> register_send_stores E \<and>
     (\<forall>i ev. reads_nothing taken (x_signal E i ev)) \<and> (\<forall>j. reads_nothing taken (x_relay_disconnect E j))"

lemma same_data_refl [simp]: "same_data taken s s"
  by (simp add: same_data_def)

lemma same_data_trans: "same_data taken s t \<Longrightarrow> same_data taken t u \<Longrightarrow> same_data taken s u"
  by (simp add: same_data_def)

lemma fed_inside [simp]:
  "fed (t\<lparr>live := L\<rparr>) = fed t" "fed (t\<lparr>heap := h\<rparr>) = fed t" "fed (t\<lparr>next_ptr := n\<rparr>) = fed t"
  "fed (upd_relay j g t) = fed t" "fed (t\<lparr>port_relay_ip := ip\<rparr>) = fed t" "fed (t\<lparr>core := c\<rparr>) = fed t" "fed (t\<lparr>port_evq := q\<rparr>) = fed t"
  by (simp_all add: fed_def upd_relay_def)

lemma silent_signal: "callbacks_silent E taken \<Longrightarrow> same_data taken s (signal E i ev t) = same_data taken s t"
proof -
  assume "callbacks_silent E taken"
  then have "same_data taken (log_call (CSignal i ev) t) (signal E i ev t)"
    by (simp add: callbacks_silent_def reads_nothing_def signal_def)
  then show ?thesis by (simp add: same_data_def)
qed

lemma net_silent:
  assumes "callbacks_silent E taken" and "net_run1 E x s = Some s'"
  shows "same_data taken s s'"
proof -
  have h: "socket_history E taken" using assms(1) by (simp add: callbacks_silent_def)
  have reg: "x_register_send E i p = upd_conn i (\<lambda>c. c\<lparr>send_arg := Some p\<rparr>)" for i p
    using assms(1) by (simp add: callbacks_silent_def register_send_stores_def fun_eq_iff)
  note defs = silent_signal [OF assms(1)] load_def free_def Let_def sl_close_def
  show ?thesis
  proof (cases x)
    case (Open i ip p)
    with assms(2) show ?thesis
      by (auto simp: wish_open_connection_def malloc_def sl_socket_def sl_connect_def store_def defs reg
        socket_set_nonblocking_def quad.snprintf_whole aton_into_quad connected_cb_def connected_cb_relay_def
        split: prod.splits if_splits)
        (auto simp: same_data_def dest!: history_world [OF h])
  next
    case (Close i)
    with assms(2) show ?thesis
      by (auto simp: wish_close_connection_def defs split: option.splits if_splits) (auto simp: same_data_def)
  next
    case (Connect_Fail i)
    with assms(2) show ?thesis
      by (auto simp: connect_fail_cb_def defs bind_eq_Some_conv split: option.splits if_splits) (auto simp: same_data_def)
  next
    case (Write i bs)
    with assms(2) show ?thesis
      by (auto simp: write_to_socket_def sl_send_def same_data_def defs split: option.splits if_splits prod.splits
        dest!: history_world [OF h])
  qed
qed

lemma relay_open_silent:
  assumes "callbacks_silent E taken" and "wish_relay_client_open E j uid a s = Some t"
  shows "same_data taken s t"
proof -
  have h: "socket_history E taken" using assms(1) by (simp add: callbacks_silent_def)
  from assms(2) show ?thesis
    by (auto simp: wish_relay_client_open_def port_relay_client_open_def sl_socket_def sl_connect_def quad.sprintf_whole same_data_def
      port_dns_start_resolving_relay_client_def socket_set_nonblocking_def Let_def split: prod.splits option.splits if_splits
      dest!: history_world [OF h])
qed

lemma send_silent:
  assumes "callbacks_silent E taken"
  shows "same_data taken s (send_ipc E t u d s)"
proof -
  have h: "socket_history E taken" using assms by (simp add: callbacks_silent_def)
  show ?thesis by (auto simp: send_ipc_def malloc_def same_data_def split: prod.split dest!: history_world [OF h])
qed

lemma port_call_silent:
  assumes "callbacks_silent E taken" and "port_allowed E taken x s" and "port_call E x s = Some t"
  shows "same_data taken s t"
proof (cases x)
  case (Net_Op y)
  with net_silent [OF assms(1)] assms(3) show ?thesis by simp
next
  case (Core_World h)
  with assms(2,3) show ?thesis by (auto simp: same_data_def fed_def)
next
  case (Relay_Open j uid a)
  with relay_open_silent [OF assms(1)] assms(3) show ?thesis by simp
next
  case (Relay_Close j)
  have "same_data taken u (x_relay_disconnect E j u)" for u using assms(1) by (simp add: callbacks_silent_def reads_nothing_def)
  then have "same_data taken (log_call (CRelayDisconnect j) (sl_close (sockfd (relay j s)) s)) t"
    using Relay_Close assms(3) by (simp add: wish_relay_client_close_def) (metis)
  then show ?thesis by (simp add: same_data_def sl_close_def)
qed (use assms send_silent [OF assms(1), of s] in \<open>auto simp: send_is_ipc wish_send_advertizement_def wish_set_host_port_def
    same_data_def post_def Let_def\<close>)

section \<open>Calls that leave the connections or the event queue alone\<close>

text \<open>
  Opening and closing changes the send arguments of the connections, and so may the disconnect function of a relay.
  What posts no event leaves the number of waiting events as it is.
\<close>

fun leaves_connections :: "'x port_op \<Rightarrow> bool" where
  "leaves_connections (Net_Op (Write i bs)) \<longleftrightarrow> True"
| "leaves_connections (Net_Op x) \<longleftrightarrow> False"
| "leaves_connections (Relay_Close j) \<longleftrightarrow> False"
| "leaves_connections x \<longleftrightarrow> True"

fun posts_nothing :: "'x port_op \<Rightarrow> bool" where
  "posts_nothing (Post_Event ev) \<longleftrightarrow> False"
| "posts_nothing (Relay_Close j) \<longleftrightarrow> False"
| "posts_nothing x \<longleftrightarrow> True"

fun own_tables :: "'x port_op \<Rightarrow> bool" where
  "own_tables (Core_Change g) \<longleftrightarrow> True"
| "own_tables (Core_World h) \<longleftrightarrow> True"
| "own_tables x \<longleftrightarrow> False"

lemma own_tables_leave: "own_tables x \<Longrightarrow> leaves_connections x"
  by (cases x) simp_all

lemma send_frames: "slots (send_ipc E t u d s) = slots s" "port_evq (send_ipc E t u d s) = port_evq s"
  by (auto simp: send_ipc_def malloc_def slots_def split: prod.split)

lemma port_call_slots:
  assumes "leaves_connections x" and "port_allowed E taken x s" and "port_call E x s = Some t"
  shows "slots t = slots s"
proof (cases x)
  case (Net_Op y)
  with assms(1,3) show ?thesis
    by (cases y) (auto simp: write_to_socket_def load_def sl_send_def Let_def split: option.splits if_splits prod.splits)
next
  case (Relay_Open j uid a)
  with relay_open_still [of E j uid a s] assms(3) show ?thesis by (auto simp: view_def)
qed (use assms in \<open>auto simp: send_is_ipc send_frames [unfolded slots_def] post_def wish_send_advertizement_def
    wish_set_host_port_def slots_def Let_def split: prod.splits\<close>)

lemma port_call_events:
  assumes "callbacks_ok F E" and "posts_nothing x" and "port_call E x s = Some t"
  shows "num_curr_events (port_evq t) = num_curr_events (port_evq s)"
proof (cases x)
  case (Net_Op y)
  with net_still [OF assms(1)] assms(3) show ?thesis by (simp add: still_def)
next
  case (Relay_Open j uid a)
  with relay_open_still [of E j uid a s] assms(3) show ?thesis by (auto simp: still_def)
qed (use assms in \<open>auto simp: send_is_ipc send_frames wish_send_advertizement_def
    wish_set_host_port_def Let_def split: prod.splits\<close>)

section \<open>A core that acts through these calls\<close>

interpretation core_safe: kept_by_steps "port_step E taken" "\<lambda>r. callbacks_ok F E \<and> library_contract E \<longrightarrow> safe_step F E n r"
  for E :: "'x env" and taken F n
proof
  fix r :: "'x port option" and x
  assume "callbacks_ok F E \<and> library_contract E \<longrightarrow> safe_step F E n r"
  then show "callbacks_ok F E \<and> library_contract E \<longrightarrow> safe_step F E n (port_step E taken x r)"
    using port_call_safe [of F E _ taken x] by (auto simp: safe_step_def port_step_def)
qed

interpretation core_quiet: kept_by_steps "port_step E taken" "\<lambda>r. callbacks_ok F E \<longrightarrow> quiet_step s r"
  for E :: "'x env" and taken F s
proof
  fix r :: "'x port option" and x
  assume "callbacks_ok F E \<longrightarrow> quiet_step s r"
  then show "callbacks_ok F E \<longrightarrow> quiet_step s (port_step E taken x r)"
    using quiet_step_after [OF port_call_quiet [of F E _ x]] by (auto simp: port_step_def split: option.split)
qed

interpretation core_silent: kept_by_steps "port_step E taken"
  "\<lambda>r. callbacks_silent E taken \<longrightarrow> (\<forall>t. r = Some t \<longrightarrow> same_data taken s t)"
  for E :: "'x env" and taken s
proof
  fix r :: "'x port option" and x
  assume "callbacks_silent E taken \<longrightarrow> (\<forall>t. r = Some t \<longrightarrow> same_data taken s t)"
  then show "callbacks_silent E taken \<longrightarrow> (\<forall>t. port_step E taken x r = Some t \<longrightarrow> same_data taken s t)"
    by (auto simp: port_step_def split: option.splits if_splits intro: same_data_trans [OF _ port_call_silent [of E taken x]])
qed

interpretation core_slots: kept_by_steps "\<lambda>x r. if leaves_connections x then port_step E taken x r else r"
  "\<lambda>r. \<forall>t. r = Some t \<longrightarrow> slots t = ps"
  for E :: "'x env" and taken ps
proof
  fix r :: "'x port option" and x
  assume "\<forall>t. r = Some t \<longrightarrow> slots t = ps"
  then show "\<forall>t. (if leaves_connections x then port_step E taken x r else r) = Some t \<longrightarrow> slots t = ps"
    using port_call_slots [of x E taken] by (auto simp: port_step_def split: option.splits if_splits)
qed

interpretation core_events: kept_by_steps "\<lambda>x r. if posts_nothing x then port_step E taken x r else r"
  "\<lambda>r. callbacks_ok F E \<longrightarrow> (\<forall>t. r = Some t \<longrightarrow> num_curr_events (port_evq t) = n)"
  for E :: "'x env" and taken F n
proof
  fix r :: "'x port option" and x
  assume "callbacks_ok F E \<longrightarrow> (\<forall>t. r = Some t \<longrightarrow> num_curr_events (port_evq t) = n)"
  then show "callbacks_ok F E \<longrightarrow>
      (\<forall>t. (if posts_nothing x then port_step E taken x r else r) = Some t \<longrightarrow> num_curr_events (port_evq t) = n)"
    using port_call_events [of F E x] by (auto simp: port_step_def split: option.splits if_splits)
qed

text \<open>Whatever the state is, the function makes some sequence of calls of a kind, and nothing else.\<close>

definition acts_within :: "('x port_op \<Rightarrow> bool) \<Rightarrow> 'x env \<Rightarrow> ('x \<Rightarrow> (int \<times> byte list) list) \<Rightarrow> ('x port \<Rightarrow> 'x port) \<Rightarrow> bool" where
  "acts_within P E taken f \<longleftrightarrow> (\<forall>s. \<exists>ops. list_all P ops \<and> run_ops (port_step E taken) ops (Some s) = Some (f s))"

abbreviation "acts_through \<equiv> acts_within (\<lambda>x. True)"

lemma acts_withinE:
  assumes "acts_within P E taken f"
  obtains ops where "list_all P ops" "run_ops (port_step E taken) ops (Some s) = Some (f s)"
  using assms unfolding acts_within_def by blast

lemma acts_within_mono: "acts_within P E taken f \<Longrightarrow> (\<And>x. P x \<Longrightarrow> Q x) \<Longrightarrow> acts_within Q E taken f"
  unfolding acts_within_def by (meson list.pred_mono_strong)

lemma acts_keeps:
  assumes "acts_within P E taken f" and "callbacks_ok F E" and "library_contract E"
  shows "keeps F E f" and "quiet_call f"
proof -
  have safe: "loop_inv F E (f s) \<and> length (slots (f s)) = length (slots s)" if "loop_inv F E s" for s
  proof -
    obtain ops where "run_ops (port_step E taken) ops (Some s) = Some (f s)" using assms(1) by (rule acts_withinE)
    with core_safe.run_ok [of F E "length (slots s)" "Some s" taken ops] assms(2,3) safe_stepI [OF that refl] show ?thesis
      by (simp add: safe_step_def)
  qed
  then show "keeps F E f" by (simp add: keeps_def length_slots)
  show "quiet_call f" unfolding quiet_call_def
  proof
    fix s
    obtain ops where "run_ops (port_step E taken) ops (Some s) = Some (f s)" using assms(1) by (rule acts_withinE)
    with core_quiet.run_ok [of F E s "Some s" taken ops] assms(2) show "quiet s (f s)" by simp
  qed
qed

lemma acts_silent:
  assumes "acts_within P E taken f" and "callbacks_silent E taken"
  shows "reads_nothing taken f"
  unfolding reads_nothing_def
proof
  fix s
  obtain ops where "run_ops (port_step E taken) ops (Some s) = Some (f s)" using assms(1) by (rule acts_withinE)
  with core_silent.run_ok [of E taken "Some s" s ops] assms(2) show "same_data taken s (f s)" by simp
qed

lemma acts_slots:
  assumes "acts_within leaves_connections E taken f"
  shows "slots (f s) = slots s"
proof -
  obtain ops where "list_all leaves_connections ops" "run_ops (port_step E taken) ops (Some s) = Some (f s)"
    using assms by (rule acts_withinE)
  with core_slots.run_ok [of "Some s" "slots s" E taken ops] show ?thesis by (simp add: run_ops_within)
qed

text \<open>A processor that posts nothing works off the events: the number of those that wait is its reserve.\<close>

lemma acts_settles:
  assumes "\<forall>slot. acts_within posts_nothing E taken (x_processor E slot)" and "callbacks_ok F E" and "library_contract E"
  shows "core_settles F (\<lambda>s. nat (num_curr_events (port_evq s))) E"
proof -
  have num: "num_curr_events (port_evq (x_processor E slot t)) = num_curr_events (port_evq t)" for slot t
  proof -
    obtain ops where "list_all posts_nothing ops" "run_ops (port_step E taken) ops (Some t) = Some (x_processor E slot t)"
      using assms(1) by (meson acts_withinE)
    with core_events.run_ok [of F E "Some t" "num_curr_events (port_evq t)" taken ops] assms(2) show ?thesis
      by (simp add: run_ops_within)
  qed
  have "keeps F E (x_processor E slot)" for slot using acts_keeps(1) [OF _ assms(2,3)] assms(1) by blast
  moreover have "nat (num_curr_events q) < nat (num_curr_events (port_evq s))"
    if "loop_inv F E s" "get_next_event (port_evq s) = (Some slot, q)" for s slot q
    using that loop_invD(1) [OF that(1)] by (auto simp: get_next_event_def port_inv_def split: if_splits)
  ultimately show ?thesis by (simp add: core_settles_def num)
qed

text \<open>
  The functions of the core: the ones that may make any call, the feeding function, which opens and closes no connection, and
  the choice of a context, which changes the core's own tables only and picks one without send argument.
\<close>

definition core_acts_through :: "'x env \<Rightarrow> ('x \<Rightarrow> (int \<times> byte list) list) \<Rightarrow> bool" where
  "core_acts_through E taken \<longleftrightarrow> (\<forall>ip p bs. acts_through E taken (x_ldiscover_feed E ip p bs)) \<and>
     (\<forall>j. acts_through E taken (x_relay_connected E j) \<and> acts_through E taken (x_relay_connect_fail E j) \<and>
        acts_through E taken (x_relay_periodic E j) \<and> (\<forall>b. acts_through E taken (x_relay_feed E j b))) \<and>
     (\<forall>slot. acts_through E taken (x_processor E slot)) \<and> acts_through E taken (x_time_report E) \<and>
     acts_through E taken (x_sensors_periodic E) \<and>
     (\<forall>k u d. acts_through E taken (x_app_to_core E k u d)) \<and> (\<forall>a d. acts_through E taken (x_core_to_app E a d)) \<and>
     (\<forall>i bs. acts_within leaves_connections E taken (x_feed E i bs)) \<and>
     acts_within own_tables E taken (\<lambda>s. snd (x_connection_init E s)) \<and>
     (\<forall>s i. fst (x_connection_init E s) = Some i \<longrightarrow> i < length (slots s) \<and> slots s ! i = None)"

text \<open>
  Property C5. The contracts that the theorems on safety, on the delivery of messages and on the
  received data ask of the core are met by every core that acts on the port only by calling the port's functions (opening a free
  context, closing or writing an open one, sending messages for registered applications,
  posting events, opening and closing relays, sending advertizements), by changing its own
  tables without touching the send arguments, and by changing the rest of its own state, in any order and number, as its state may
  decide: such a core keeps the invariant, hands no message over by itself, and neither takes
  data from a socket nor feeds itself. If its event processor posts no events and closes no relay, the event loop also ends in
  every turn; the end of the loop for a processor that posts is a demand of its own, which this theorem does not settle
  (\<open>event_loop_ends\<close>, \<open>event_loop_diverges\<close>).
  The demands on such a core and on the libraries are: the feeding function opens and closes no connection and closes no relay; the function that
  provides a context for an accepted connection only changes the core's own tables and state and picks a context of the pool that has no send argument; of the signalling and
  of the relay's disconnect function, which the port's functions call back, the contracts are demanded as such; registering a send argument stores it;
  the list macros append and delete; malloc succeeds, recv and recvfrom answer at most as much as they were asked for, sockets fit a
  descriptor set; and \<open>taken\<close> records what recv and recvfrom hand out, which no other library function and no part of the core changes.
\<close>

theorem calling_core_meets_contract:
  assumes "callbacks_ok F E" and "library_contract E" and "core_acts_through E taken" and "callbacks_silent E taken"
  shows "core_contract F E \<and> core_sends_only E \<and> data_contract E taken \<and> (\<forall>slot. keeps F E (x_processor E slot)) \<and>
    ((\<forall>slot. acts_within posts_nothing E taken (x_processor E slot)) \<longrightarrow>
       core_settles F (\<lambda>s. nat (num_curr_events (port_evq s))) E)"
proof -
  note k = acts_keeps [OF _ assms(1,2)]
  note acts = assms(3) [unfolded core_acts_through_def]
  have h: "ipc_handler_ok F E f" if "acts_within P E taken f" for P f
    using k [OF that] by (auto simp: ipc_handler_ok_def quiet_call_def quiet_def prefix_def)
  have feed: "slots (x_feed E i bs s) = slots s" for i bs s
    using acts by (intro acts_slots [of E taken]) blast
  have init: "i < length (slots s') \<and> slots s' ! i = None" if "x_connection_init E s = (Some i, s')" for s i s'
  proof -
    have "acts_within leaves_connections E taken (\<lambda>s. snd (x_connection_init E s))"
      using acts own_tables_leave by (blast intro: acts_within_mono)
    from acts_slots [OF this, of s] that acts show ?thesis by (metis fst_conv snd_conv)
  qed
  have "core_contract F E" using assms(1) acts init
    by (simp add: core_contract_def callbacks_ok_def feed) (blast intro: k h)
  moreover have "core_sends_only E" using assms(1) acts
    by (simp add: core_sends_only_def callbacks_ok_def) (blast intro: k)
  moreover have "keeps F E (x_processor E slot)" for slot using acts k(1) by blast
  moreover have "data_contract E taken" using assms(4) acts
    by (simp add: data_contract_def core_reads_nothing_def callbacks_silent_def [of E taken]) (blast intro: acts_silent [OF _ assms(4)])
  ultimately show ?thesis using acts_settles [OF _ assms(1,2)] by blast
qed

text \<open>A core that counts the time reports in its own state and sends a message in each of them.\<close>

definition reporting_env :: "nat env" where
  "reporting_env = sample_env\<lparr>x_time_report := \<lambda>s. send_core_to_app sample_env [1] [2] (s\<lparr>world := Suc (world s)\<rparr>)\<rparr>"

lemma reporting_callbacks:
  "callbacks_ok F reporting_env" "library_contract reporting_env" "core_acts_through reporting_env (\<lambda>w. [])"
  "acts_within posts_nothing reporting_env (\<lambda>w. []) (x_processor reporting_env slot)"
proof -
  have "core_contract F (sample_env :: nat env)" by (rule sample_main_contracts)
  moreover have "quiet_call (x_signal sample_env i ev :: nat port \<Rightarrow> nat port)" for i ev
    by (rule core_sends_onlyD(1) [OF sample_sends_only])
  moreover have "quiet_call (\<lambda>s :: nat port. s)" by (simp add: quiet_call_def)
  moreover have "fds_ok reporting_env = fds_ok (sample_env :: nat env)"
    by (simp add: fun_eq_iff fds_ok_def fd_ok_def reporting_env_def)
  moreover have "x_relay_disconnect reporting_env j = (\<lambda>s. s)" for j
    by (simp add: reporting_env_def sample_env_def)
  moreover have "x_signal reporting_env = x_signal sample_env" "x_register_send reporting_env = x_register_send sample_env"
    "x_ll_append reporting_env = x_ll_append (sample_env :: nat env)"
    "x_ll_delete reporting_env = x_ll_delete (sample_env :: nat env)"
    by (simp_all add: reporting_env_def)
  ultimately show "callbacks_ok F reporting_env"
    by (simp add: core_contract_def callbacks_ok_def signal_only_def signal_contract_def
        register_send_stores_def ll_laws_def keeps_id)
  show "library_contract reporting_env" by (simp add: library_contract_def reporting_env_def sample_env_def fd_ok_def)
  have i: "acts_within P reporting_env (\<lambda>w. []) (\<lambda>s. s)" for P
    unfolding acts_within_def by (intro allI exI [of _ "[]"]) simp
  then show "acts_within posts_nothing reporting_env (\<lambda>w. []) (x_processor reporting_env slot)"
    by (simp add: reporting_env_def sample_env_def)
  have "acts_through reporting_env (\<lambda>w. []) (\<lambda>s. send_core_to_app sample_env [1] [2] (s\<lparr>world := Suc (world s)\<rparr>))"
    unfolding acts_within_def
    by (intro allI exI [of _ "[Core_World Suc, Send_To_App [1] [2]]"])
      (simp add: port_step_def reporting_env_def send_core_to_app_def malloc_def sample_env_def)
  with i show "core_acts_through reporting_env (\<lambda>w. [])"
    by (simp add: core_acts_through_def reporting_env_def sample_env_def)
qed

theorem calling_core_meets_contract_witness:
  "core_contract {} reporting_env \<and> core_sends_only reporting_env \<and> data_contract reporting_env (\<lambda>w. []) \<and>
   core_settles {} (\<lambda>s. nat (num_curr_events (port_evq s))) reporting_env"
proof -
  have "callbacks_silent reporting_env (\<lambda>w. [])"
    by (auto simp: callbacks_silent_def socket_history_def hands_out_def reads_nothing_def same_data_def register_send_stores_def reporting_env_def
      sample_env_def)
  from calling_core_meets_contract [OF reporting_callbacks(1-3) this] reporting_callbacks(4) show ?thesis by blast
qed

end
