(* ===== verification/Macros.thy ===== *)
theory Macros
  imports Prelude
begin

text \<open>
  The part of the C preprocessor that the configuration headers use.  A header is a list of
  directives, in the order of the file, and \<open>preprocess\<close> maps the macros that are defined
  before it, such as those the Makefile passes with -D, to the macros defined after it.  A
  define that is commented out is kept as a \<open>Commented\<close> directive, which does nothing.
\<close>

section \<open>Directives\<close>

datatype body = Empty | Num int | Text string

type_synonym macros = "string \<rightharpoonup> body"

datatype directive =
    is_Define: Define string body
  | Commented string
  | IfNdef string "directive list"
  | IfDef string "directive list"
  | If string "directive list"
  | If0 "directive list"

text \<open>In \<open>#if X\<close> an identifier that is no macro counts as 0.\<close>

fun truth :: "body option \<Rightarrow> bool" where
  "truth (Some (Num k)) \<longleftrightarrow> k \<noteq> 0"
| "truth _ \<longleftrightarrow> False"

fun preprocess :: "directive list \<Rightarrow> macros \<Rightarrow> macros" where
  "preprocess [] m = m"
| "preprocess (Define n b # ds) m = preprocess ds (m(n \<mapsto> b))"
| "preprocess (Commented n # ds) m = preprocess ds m"
| "preprocess (IfNdef n body # ds) m = preprocess ds (if m n = None then preprocess body m else m)"
| "preprocess (IfDef n body # ds) m = preprocess ds (if m n = None then m else preprocess body m)"
| "preprocess (If n body # ds) m = preprocess ds (if truth (m n) then preprocess body m else m)"
| "preprocess (If0 body # ds) m = preprocess ds m"

text \<open>The usual form of an overridable default, and of a header that is read only once.\<close>

definition default_of :: "string \<Rightarrow> body \<Rightarrow> directive" where
  "default_of n b = IfNdef n [Define n b]"

definition include_once :: "string \<Rightarrow> directive list \<Rightarrow> directive list" where
  "include_once n ds = [IfNdef n (Define n Empty # ds)]"

lemma preprocess_append: "preprocess (ds @ es) m = preprocess es (preprocess ds m)"
  by (induction ds m rule: preprocess.induct) (auto simp: fun_upd_def)

text \<open>Outside conditionals only the defines matter.\<close>

fun unconditional :: "directive \<Rightarrow> bool" where
  "unconditional (Define n b) \<longleftrightarrow> True"
| "unconditional (Commented n) \<longleftrightarrow> True"
| "unconditional (If0 body) \<longleftrightarrow> True"
| "unconditional _ \<longleftrightarrow> False"

lemma preprocess_unconditional:
  "list_all unconditional ds \<Longrightarrow> preprocess ds m = preprocess (filter is_Define ds) m"
proof (induction ds arbitrary: m)
  case (Cons d ds)
  then show ?case by (cases d) auto
qed simp

section \<open>Definitions only grow\<close>

lemma preprocess_keeps_defined: "m n \<noteq> None \<Longrightarrow> preprocess ds m n \<noteq> None"
  by (induction ds m rule: preprocess.induct) auto

lemma include_once_idem:
  "preprocess (include_once n ds) (preprocess (include_once n ds) m) = preprocess (include_once n ds) m"
  using preprocess_keeps_defined [of "m(n \<mapsto> Empty)" n ds] by (auto simp: include_once_def)

section \<open>A definition made before the header wins\<close>

text \<open>
  \<open>guarded S ds\<close>: every define of \<open>ds\<close> is of a name in \<open>S\<close> or stands under an \<open>#ifndef\<close> of its
  own name.
\<close>

fun guarded :: "string list \<Rightarrow> directive list \<Rightarrow> bool" where
  "guarded S [] \<longleftrightarrow> True"
| "guarded S (Define n b # ds) \<longleftrightarrow> n \<in> set S \<and> guarded S ds"
| "guarded S (Commented n # ds) \<longleftrightarrow> guarded S ds"
| "guarded S (IfNdef n body # ds) \<longleftrightarrow> guarded (n # S) body \<and> guarded S ds"
| "guarded S (IfDef n body # ds) \<longleftrightarrow> guarded S body \<and> guarded S ds"
| "guarded S (If n body # ds) \<longleftrightarrow> guarded S body \<and> guarded S ds"
| "guarded S (If0 body # ds) \<longleftrightarrow> guarded S ds"

lemma guarded_keeps: "guarded S ds \<Longrightarrow> k \<notin> set S \<Longrightarrow> m k = Some b \<Longrightarrow> preprocess ds m k = Some b"
proof (induction ds m arbitrary: S rule: preprocess.induct)
  case (2 n b' ds m)
  then have "k \<noteq> n" "guarded S ds" by auto
  with 2 show ?case by (simp add: fun_upd_def)
next
  case (4 n body ds m)
  have "(if m n = None then preprocess body m else m) k = Some b"
    using "4.IH"(1) [of "n # S"] "4.prems" by (cases "k = n") auto
  with "4.IH"(2) [of S] "4.prems" show ?case by simp
next
  case (5 n body ds m)
  have "(if m n = None then m else preprocess body m) k = Some b"
    using "5.IH"(1) [of S] "5.prems" by auto
  with "5.IH"(2) [of S] "5.prems" show ?case by simp
next
  case (6 n body ds m)
  have "(if truth (m n) then preprocess body m else m) k = Some b"
    using "6.IH"(1) [of S] "6.prems" by auto
  with "6.IH"(2) [of S] "6.prems" show ?case by simp
qed auto

section \<open>The result depends on the macros of the header only\<close>

fun names :: "directive list \<Rightarrow> string list" where
  "names [] = []"
| "names (Define n b # ds) = n # names ds"
| "names (Commented n # ds) = n # names ds"
| "names (IfNdef n body # ds) = n # names body @ names ds"
| "names (IfDef n body # ds) = n # names body @ names ds"
| "names (If n body # ds) = n # names body @ names ds"
| "names (If0 body # ds) = names body @ names ds"

lemma names_append: "names (ds @ es) = names ds @ names es"
  by (induction ds rule: names.induct) auto

lemma preprocess_other: "k \<notin> set (names ds) \<Longrightarrow> preprocess ds m k = m k"
  by (induction ds m rule: preprocess.induct) auto

lemma preprocess_agree:
  "\<forall>k \<in> set N. m k = m' k \<Longrightarrow> set (names ds) \<subseteq> set N \<Longrightarrow> \<forall>k \<in> set N. preprocess ds m k = preprocess ds m' k"
proof (induction ds m arbitrary: m' rule: preprocess.induct)
  case (2 n b ds m)
  show ?case using "2.prems" "2.IH" [of "m'(n \<mapsto> b)"] by (simp add: fun_upd_def)
next
  case (4 n body ds m)
  have "m n = m' n" using "4.prems" by simp
  with "4.IH"(1) [of m'] "4.IH"(2) [of "if m' n = None then preprocess body m' else m'"] "4.prems"
  show ?case by (cases "m n") simp_all
next
  case (5 n body ds m)
  have "m n = m' n" using "5.prems" by simp
  with "5.IH"(1) [of m'] "5.IH"(2) [of "if m' n = None then m' else preprocess body m'"] "5.prems"
  show ?case by (cases "m n") simp_all
next
  case (6 n body ds m)
  have "m n = m' n" using "6.prems" by simp
  with "6.IH"(1) [of m'] "6.IH"(2) [of "if truth (m' n) then preprocess body m' else m'"] "6.prems"
  show ?case by (cases "truth (m n)") simp_all
qed auto

text \<open>For a build that predefines no macro of the header, the header alone decides.\<close>

lemma preprocess_fresh:
  assumes "\<forall>k \<in> set (names ds). m k = None" and "k \<in> set (names ds)"
  shows "preprocess ds m k = preprocess ds Map.empty k"
  using preprocess_agree [of "names ds" m Map.empty ds] assms by simp

end
