(* ===== verification/Xdk_Config.thy ===== *)
theory Xdk_Config
  imports Macros
begin

text \<open>
  \<open>source/mist-port-bosch-xdk.h\<close> and \<open>source/XDKAppInfo.h\<close>: the constants of the start-up and
  of the network set-up, and the module identifiers.  The macros UINT8_C, UINT16_C and
  UINT32_C of the C library leave their argument as it is, so a constant is its number.
\<close>

section \<open>The headers as written\<close>

definition mist_port_bosch_xdk_h :: "directive list" where
  "mist_port_bosch_xdk_h = include_once ''XDK110_WLANNETWORKMANAGEMENT_H_'' [
     Define ''WIFI_NW_SCAN_DELAY'' (Num 5000),
     Define ''TIMER_BLOCK_TIME'' (Num 0xFFFFFFFF),
     Define ''TIMER_NO_ERROR'' (Num 0),
     Define ''TIMER_AUTORELOAD_ON'' (Num 1),
     Define ''TIMER_AUTORELOAD_OFF'' (Num 0),
     Define ''MINUS_ONE'' (Num (-1)),
     Define ''ZERO'' (Num 0),
     Define ''ONE'' (Num 1),
     Define ''TWO'' (Num 2),
     Define ''THREE'' (Num 3),
     Define ''TASK_PRIORITY'' (Num 1),
     Define ''TASK_STACK_DEPTH'' (Num 768),
     Define ''DELAY_500_MSEC'' (Num 500),
     Define ''DELAY_5_SEC'' (Num 5000),
     Define ''DELAY_10_SEC'' (Num 10000),
     Define ''DELAY_20_SEC'' (Num 20000),
     Define ''DELAY_60_SEC'' (Num 60000),
     Define ''MAX_SIZE_BUFFER'' (Num 10),
     Define ''NCI_DHCP_MODE'' (Num 2),
     Define ''SCAN_INTERVAL'' (Num 5),
     Define ''WLAN_CONNECT_WPA_SSID'' (Text ''4G-Gateway-B9C7''),
     Define ''WLAN_CONNECT_WPA_PASS'' (Text ''G598M6853B5'')]"

definition XDKAppInfo_h :: "directive list" where
  "XDKAppInfo_h = include_once ''XDK_APPINFO_H_'' [
     Define ''TASK_PRIO_MAIN_CMD_PROCESSOR'' (Num 1),
     Define ''TASK_STACK_SIZE_MAIN_CMD_PROCESSOR'' (Num 700),
     Define ''TASK_Q_LEN_MAIN_CMD_PROCESSOR'' (Num 10)]"

section \<open>The constants the code uses\<close>

definition WIFI_NW_SCAN_DELAY :: nat where "WIFI_NW_SCAN_DELAY = 5000"
definition TIMER_BLOCK_TIME :: nat where "TIMER_BLOCK_TIME = 0xFFFFFFFF"
definition TIMER_AUTORELOAD_OFF :: bool where "TIMER_AUTORELOAD_OFF = False"
definition DELAY_500_MSEC :: nat where "DELAY_500_MSEC = 500"
definition DELAY_5_SEC :: nat where "DELAY_5_SEC = 5000"
definition SCAN_INTERVAL :: nat where "SCAN_INTERVAL = 5"
definition MAX_SIZE_BUFFER :: nat where "MAX_SIZE_BUFFER = 10"
definition NCI_DHCP_MODE :: nat where "NCI_DHCP_MODE = 2"
definition WLAN_CONNECT_WPA_SSID :: string where "WLAN_CONNECT_WPA_SSID = ''4G-Gateway-B9C7''"
definition WLAN_CONNECT_WPA_PASS :: string where "WLAN_CONNECT_WPA_PASS = ''G598M6853B5''"
definition TASK_PRIO_MAIN_CMD_PROCESSOR :: nat where "TASK_PRIO_MAIN_CMD_PROCESSOR = 1"
definition TASK_STACK_SIZE_MAIN_CMD_PROCESSOR :: nat where "TASK_STACK_SIZE_MAIN_CMD_PROCESSOR = 700"
definition TASK_Q_LEN_MAIN_CMD_PROCESSOR :: nat where "TASK_Q_LEN_MAIN_CMD_PROCESSOR = 10"

text \<open>They are what the preprocessor makes of the two headers.\<close>

lemma xdk_constants:
  "map (preprocess (mist_port_bosch_xdk_h @ XDKAppInfo_h) Map.empty)
     [''WIFI_NW_SCAN_DELAY'', ''TIMER_BLOCK_TIME'', ''TIMER_AUTORELOAD_OFF'', ''DELAY_500_MSEC'', ''DELAY_5_SEC'', ''SCAN_INTERVAL'',
      ''MAX_SIZE_BUFFER'', ''NCI_DHCP_MODE'', ''WLAN_CONNECT_WPA_SSID'', ''WLAN_CONNECT_WPA_PASS'', ''TASK_PRIO_MAIN_CMD_PROCESSOR'',
      ''TASK_STACK_SIZE_MAIN_CMD_PROCESSOR'', ''TASK_Q_LEN_MAIN_CMD_PROCESSOR'']
   = map Some [Num (int WIFI_NW_SCAN_DELAY), Num (int TIMER_BLOCK_TIME), Num (of_bool TIMER_AUTORELOAD_OFF), Num (int DELAY_500_MSEC),
      Num (int DELAY_5_SEC), Num (int SCAN_INTERVAL), Num (int MAX_SIZE_BUFFER), Num (int NCI_DHCP_MODE), Text WLAN_CONNECT_WPA_SSID,
      Text WLAN_CONNECT_WPA_PASS, Num (int TASK_PRIO_MAIN_CMD_PROCESSOR), Num (int TASK_STACK_SIZE_MAIN_CMD_PROCESSOR),
      Num (int TASK_Q_LEN_MAIN_CMD_PROCESSOR)]"
  by (simp add: mist_port_bosch_xdk_h_def XDKAppInfo_h_def include_once_def WIFI_NW_SCAN_DELAY_def TIMER_BLOCK_TIME_def
      TIMER_AUTORELOAD_OFF_def DELAY_500_MSEC_def DELAY_5_SEC_def SCAN_INTERVAL_def MAX_SIZE_BUFFER_def NCI_DHCP_MODE_def
      WLAN_CONNECT_WPA_SSID_def WLAN_CONNECT_WPA_PASS_def TASK_PRIO_MAIN_CMD_PROCESSOR_def
      TASK_STACK_SIZE_MAIN_CMD_PROCESSOR_def TASK_Q_LEN_MAIN_CMD_PROCESSOR_def)

section \<open>Module identifiers\<close>

text \<open>The identifiers of the application follow those of the SDK, which end before \<open>overflow\<close>.\<close>

datatype XDK_App_ModuleID_E = XDK_APP_MODULE_ID_MAIN | XDK_APP_MODULE_ID_SCAN_WIFI_NW

fun module_id :: "int \<Rightarrow> XDK_App_ModuleID_E \<Rightarrow> int" where
  "module_id overflow XDK_APP_MODULE_ID_MAIN = overflow"
| "module_id overflow XDK_APP_MODULE_ID_SCAN_WIFI_NW = overflow + 1"

lemma module_ids_new: "inj (module_id overflow)" "common < overflow \<Longrightarrow> module_id overflow m \<noteq> common"
proof -
  show "inj (module_id overflow)"
  proof (rule injI)
    fix x y assume "module_id overflow x = module_id overflow y"
    then show "x = y" by (cases x; cases y) simp_all
  qed
  show "common < overflow \<Longrightarrow> module_id overflow m \<noteq> common" by (cases m) simp_all
qed

end
