(* ===== verification/Network_Setup.thy ===== *)
theory Network_Setup
  imports Xdk_Config
begin

text \<open>
  \<open>source/mist-port-bosch-xdk.c\<close> and \<open>source/Main.c\<close>: the way from power-up to the main
  loop.  main queues appInitSystem with the command processor and starts the scheduler;
  appInitSystem arms a timer and creates the Mist task; when the timer expires, its callback
  queues the scan and the connection set-up, once; the Mist task waits until the device has an
  address and then enters port_main.  The board's libraries are the record \<open>board\<close>; a
  failed assertion stops the device (\<open>None\<close>).
\<close>

section \<open>State\<close>

datatype nw_status = DISCONNECTED_IP_NOT_ACQUIRED | DISCONNECTED_AND_IPV4_ACQUIRED | NW_OTHER nat

datatype retcode = RETCODE_OK | RETCODE_CONNECTION_ERROR | RETCODE_ERROR_WRONG_PASSWORD
  | RETCODE_NO_NW_AVAILABLE | RETCODE_OTHER nat

record ip_settings =
  isDHCP :: bool
  ipV4 :: "nat list"
  ipV4DnsServer :: "nat list"
  ipV4Gateway :: "nat list"
  ipV4Mask :: "nat list"

datatype board_call =
  B_Disconnect | B_SetIpStatic ip_settings | B_SetIpDhcp bool | B_WPA string string | B_GetIpSettings
| B_Led bool | B_Scan nat | B_Delay nat | B_WlanInit | B_TimerCreate nat bool | B_TimerStart nat | B_Enqueue
| B_TaskCreate nat | B_PortMain | B_Startup | B_CmdInit nat nat nat | B_EnqueueInit | B_Scheduler

datatype command = Scan_And_Get_Ip | App_Init_System

record 'w net =
  network_init :: bool
  once :: bool
  dhcp_flag :: bool
  scan_timer :: bool
  timer_armed :: bool
  commands :: "command list"
  task_created :: bool
  in_port_main :: bool
  board_calls :: "board_call list"
  board_world :: 'w

record 'w board =
  b_nw_status :: "'w \<Rightarrow> nw_status \<times> 'w"
  b_disconnect :: "'w \<Rightarrow> retcode \<times> 'w"
  b_set_ip_static :: "ip_settings \<Rightarrow> 'w \<Rightarrow> retcode \<times> 'w"
  b_set_ip_dhcp :: "bool \<Rightarrow> 'w \<Rightarrow> retcode \<times> 'w"
  b_wpa :: "'w \<Rightarrow> retcode \<times> 'w"
  b_get_ip :: "'w \<Rightarrow> retcode \<times> 'w"
  b_dhcp_callback :: "'w \<Rightarrow> bool"
  b_led :: "bool \<Rightarrow> 'w \<Rightarrow> retcode \<times> 'w"
  b_scan :: "'w \<Rightarrow> (retcode \<times> nat list) \<times> 'w"
  b_wlan_init :: "'w \<Rightarrow> retcode \<times> 'w"
  b_timer_create :: "'w \<Rightarrow> bool \<times> 'w"
  b_timer_start :: "'w \<Rightarrow> bool \<times> 'w"
  b_enqueue :: "'w \<Rightarrow> retcode \<times> 'w"
  b_retcode_init :: "'w \<Rightarrow> retcode \<times> 'w"
  b_startup :: "'w \<Rightarrow> retcode \<times> 'w"
  b_cmd_init :: "'w \<Rightarrow> retcode \<times> 'w"
  b_stack_type_size :: nat

definition log_board :: "board_call \<Rightarrow> 'w net \<Rightarrow> 'w net" where
  "log_board c s = s\<lparr>board_calls := board_calls s @ [c]\<rparr>"

text \<open>A library call: its answer, with the call logged.\<close>

definition ask :: "('w \<Rightarrow> 'r \<times> 'w) \<Rightarrow> board_call \<Rightarrow> 'w net \<Rightarrow> 'r \<times> 'w net" where
  "ask f c s = (case f (board_world s) of (r, w) \<Rightarrow> (r, log_board c (s\<lparr>board_world := w\<rparr>)))"

section \<open>Connecting\<close>

text \<open>
  setAndGetIp is compiled for one mode (\<open>NCI_DHCP_MODE\<close>); here the mode is an argument. The
  callback of mode 1 runs while the function waits: \<open>b_dhcp_callback\<close> says whether it has
  reported an address by then.
\<close>

definition disconnect_previous :: "'w board \<Rightarrow> 'w net \<Rightarrow> 'w net" where
  "disconnect_previous B s0 =
     (let (st, w) = b_nw_status B (board_world s0); s = s0\<lparr>board_world := w\<rparr> in
      if st \<noteq> DISCONNECTED_IP_NOT_ACQUIRED then
        (let (st2, w) = b_nw_status B (board_world s); s = s\<lparr>board_world := w\<rparr> in
         if st2 \<noteq> DISCONNECTED_AND_IPV4_ACQUIRED then snd (ask (b_disconnect B) B_Disconnect s) else s)
      else s)"

definition static_settings :: ip_settings where
  "static_settings = \<lparr>isDHCP = False, ipV4 = [192, 168, 1, 111], ipV4DnsServer = [192, 168, 1, 1],
     ipV4Gateway = [192, 168, 1, 1], ipV4Mask = [255, 255, 255, 0]\<rparr>"

definition set_ip :: "'w board \<Rightarrow> nat \<Rightarrow> 'w net \<Rightarrow> 'w net" where
  "set_ip B mode s =
     (if mode = 0 then snd (ask (b_set_ip_static B static_settings) (B_SetIpStatic static_settings) s)
      else if mode = 1 then snd (ask (b_set_ip_dhcp B True) (B_SetIpDhcp True) (s\<lparr>dhcp_flag := False\<rparr>))
      else if mode = 2 then snd (ask (b_set_ip_dhcp B False) (B_SetIpDhcp False) s)
      else s)"

definition connect_wpa :: "'w board \<Rightarrow> 'w net \<Rightarrow> 'w net" where
  "connect_wpa B s = snd (ask (b_wpa B) (B_WPA WLAN_CONNECT_WPA_SSID WLAN_CONNECT_WPA_PASS) s)"

definition myDhcpIpCallbackFunc :: "bool \<Rightarrow> 'w net \<Rightarrow> 'w net" where
  "myDhcpIpCallbackFunc acquired s = (if acquired then s\<lparr>dhcp_flag := True\<rparr> else s)"

definition get_ip :: "'w board \<Rightarrow> nat \<Rightarrow> 'w net \<Rightarrow> 'w net" where
  "get_ip B mode s =
     (if mode = 0 then snd (ask (b_get_ip B) B_GetIpSettings s)
      else if mode = 1 then
        (let s = myDhcpIpCallbackFunc (b_dhcp_callback B (board_world s)) (log_board (B_Delay DELAY_5_SEC) s)
         in if dhcp_flag s then snd (ask (b_get_ip B) B_GetIpSettings s) else s)
      else if mode = 2 then
        (let (r, s) = ask (b_get_ip B) B_GetIpSettings s
         in if r = RETCODE_OK then s\<lparr>network_init := True\<rparr> else s)
      else s)"

definition setAndGetIp :: "'w board \<Rightarrow> nat \<Rightarrow> 'w net \<Rightarrow> 'w net" where
  "setAndGetIp B mode s = get_ip B mode (connect_wpa B (set_ip B mode (disconnect_previous B s)))"

definition scanNetwork :: "'w board \<Rightarrow> 'w net \<Rightarrow> 'w net" where
  "scanNetwork B s0 =
     (let (_, s) = ask (b_led B True) (B_Led True) s0;
          ((r, ssid_lengths), s) = ask (b_scan B) (B_Scan SCAN_INTERVAL) s;
          s = (if r = RETCODE_OK then
                 fold (\<lambda>n s. if n \<noteq> 0 then log_board (B_Delay DELAY_500_MSEC) s else s) ssid_lengths s
               else s)
      in snd (ask (b_led B False) (B_Led False) s))"

definition start_timer :: "'w board \<Rightarrow> 'w net \<Rightarrow> 'w net option" where
  "start_timer B s = (let (ok, s) = ask (b_timer_start B) (B_TimerStart TIMER_BLOCK_TIME) s
     in if \<not> ok then None else Some (s\<lparr>timer_armed := True\<rparr>))"

definition ScanAndGetIp :: "'w board \<Rightarrow> 'w net \<Rightarrow> 'w net option" where
  "ScanAndGetIp B s = start_timer B (setAndGetIp B NCI_DHCP_MODE (scanNetwork B s))"

definition EnqueueScanwifiNetwork :: "'w board \<Rightarrow> 'w net \<Rightarrow> 'w net" where
  "EnqueueScanwifiNetwork B s =
     (if \<not> once s then
        (let s = s\<lparr>once := True\<rparr>;
             (r, s) = ask (b_enqueue B) B_Enqueue s
         in if r = RETCODE_OK then s\<lparr>commands := commands s @ [Scan_And_Get_Ip]\<rparr> else s)
      else s)"

section \<open>Start-up\<close>

definition init :: "'w board \<Rightarrow> 'w net \<Rightarrow> 'w net option" where
  "init B s = do {
     let (r, s) = ask (b_wlan_init B) B_WlanInit s;
     let s = (if r = RETCODE_OK then
                (let (ok, s) = ask (b_timer_create B) (B_TimerCreate WIFI_NW_SCAN_DELAY TIMER_AUTORELOAD_OFF) s
                 in s\<lparr>scan_timer := ok\<rparr>)
              else s);
     if r \<noteq> RETCODE_OK \<or> \<not> scan_timer s then None else start_timer B s
   }"

text \<open>The stack of the Mist task, in units of the stack type of the system.\<close>

definition CALC_STACKSIZE :: "'w board \<Rightarrow> nat \<Rightarrow> nat" where
  "CALC_STACKSIZE B kbytes = (kbytes div b_stack_type_size B) * 1024"

definition MIST_TASK_STACKSIZE :: "'w board \<Rightarrow> nat" where
  "MIST_TASK_STACKSIZE B = CALC_STACKSIZE B 8"

lemma mist_task_stack_bytes: "b_stack_type_size B dvd 8 \<Longrightarrow> MIST_TASK_STACKSIZE B * b_stack_type_size B = 8 * 1024"
  by (auto simp: MIST_TASK_STACKSIZE_def CALC_STACKSIZE_def elim!: dvdE)

definition appInitSystem :: "'w board \<Rightarrow> bool \<Rightarrow> 'w net \<Rightarrow> 'w net option" where
  "appInitSystem B handle_is_null s =
     (if handle_is_null then None
      else do {
        s \<leftarrow> init B s;
        Some (log_board (B_TaskCreate (MIST_TASK_STACKSIZE B)) (s\<lparr>task_created := True\<rparr>))
      })"

text \<open>
  One look of the Mist task at the flag: it sleeps for a second or goes on into port_main.
\<close>

definition mist_task_poll :: "'w net \<Rightarrow> 'w net" where
  "mist_task_poll s =
     (if \<not> network_init s then log_board (B_Delay 1000) s
      else log_board B_PortMain (s\<lparr>in_port_main := True\<rparr>))"

text \<open>\<open>Main.c\<close>: the first failure skips the rest, and then the assertion fails.\<close>

definition main_startup :: "'w board \<Rightarrow> 'w net \<Rightarrow> 'w net option" where
  "main_startup B s0 = do {
     let (r, w) = b_retcode_init B (board_world s0);
     let s = s0\<lparr>board_world := w\<rparr>;
     let (r, s) = (if r = RETCODE_OK then ask (b_startup B) B_Startup s else (r, s));
     let (r, s) = (if r = RETCODE_OK
                   then ask (b_cmd_init B) (B_CmdInit TASK_PRIO_MAIN_CMD_PROCESSOR
                          TASK_STACK_SIZE_MAIN_CMD_PROCESSOR TASK_Q_LEN_MAIN_CMD_PROCESSOR) s else (r, s));
     let (r, s) = (if r = RETCODE_OK
                   then (let (r, s) = ask (b_enqueue B) B_EnqueueInit s
                         in (r, if r = RETCODE_OK then s\<lparr>commands := commands s @ [App_Init_System]\<rparr> else s))
                   else (r, s));
     if r \<noteq> RETCODE_OK then None else Some (log_board B_Scheduler s)
   }"

section \<open>What the parts change\<close>

definition gets :: "'w net \<Rightarrow> nat" where
  "gets s = count_list (board_calls s) B_GetIpSettings"

definition scans :: "'w net \<Rightarrow> nat" where
  "scans s = count_list (commands s) Scan_And_Get_Ip"

text \<open>The part of the state on which the rest depends.\<close>

definition stage :: "'w net \<Rightarrow> bool \<times> bool \<times> bool \<times> command list \<times> nat" where
  "stage s = (network_init s, once s, in_port_main s, commands s, gets s)"

lemma stage_log [simp]: "c \<noteq> B_GetIpSettings \<Longrightarrow> stage (log_board c s) = stage s"
  by (simp add: stage_def gets_def log_board_def)

lemma stage_frames [simp]:
  "stage (s\<lparr>board_world := w\<rparr>) = stage s" "stage (s\<lparr>dhcp_flag := b\<rparr>) = stage s" "stage (s\<lparr>scan_timer := b\<rparr>) = stage s"
  "stage (s\<lparr>timer_armed := b\<rparr>) = stage s" "stage (s\<lparr>task_created := b\<rparr>) = stage s"
  by (simp_all add: stage_def gets_def)

lemma stage_ask [simp]: "c \<noteq> B_GetIpSettings \<Longrightarrow> stage (snd (ask f c s)) = stage s"
  by (simp add: ask_def split: prod.splits)

lemma stage_scan: "stage (scanNetwork B s) = stage s"
proof -
  have "stage (fold (\<lambda>n s. if n \<noteq> 0 then log_board (B_Delay DELAY_500_MSEC) s else s) ns t) = stage t" for ns :: "nat list" and t :: "'a net"
    by (induction ns arbitrary: t) simp_all
  then show ?thesis by (auto simp: scanNetwork_def ask_def Let_def split: prod.splits)
qed

lemma stage_parts: "stage (disconnect_previous B s) = stage s" "stage (set_ip B mode s) = stage s" "stage (connect_wpa B s) = stage s"
  by (simp_all add: disconnect_previous_def set_ip_def connect_wpa_def Let_def split: prod.splits)

lemma stage_start_timer: "start_timer B s = Some s' \<Longrightarrow> stage s' = stage s"
  by (auto simp: start_timer_def ask_def split: prod.splits if_splits)

lemma stage_setAndGetIp:
  "stage (setAndGetIp B 2 s) =
     (network_init s \<or> fst (b_get_ip B (board_world (connect_wpa B (set_ip B 2 (disconnect_previous B s))))) = RETCODE_OK,
      once s, in_port_main s, commands s, Suc (gets s))"
proof -
  let ?t = "connect_wpa B (set_ip B 2 (disconnect_previous B s))"
  have "stage ?t = stage s" by (simp add: stage_parts)
  then show ?thesis unfolding setAndGetIp_def
    by (auto simp: get_ip_def ask_def stage_def gets_def log_board_def split: prod.splits)
qed

section \<open>The device as a state machine\<close>

text \<open>
  Steps: the command processor takes the next command, the one-shot timer expires, the Mist
  task looks at the flag.
\<close>

inductive dev_step :: "'w board \<Rightarrow> 'w net \<Rightarrow> 'w net \<Rightarrow> bool" for B where
  boot: "commands s = App_Init_System # cs \<Longrightarrow> appInitSystem B False (s\<lparr>commands := cs\<rparr>) = Some s' \<Longrightarrow> dev_step B s s'"
| scan: "commands s = Scan_And_Get_Ip # cs \<Longrightarrow> ScanAndGetIp B (s\<lparr>commands := cs\<rparr>) = Some s' \<Longrightarrow> dev_step B s s'"
| expire: "timer_armed s \<Longrightarrow> dev_step B s (EnqueueScanwifiNetwork B (s\<lparr>timer_armed := False\<rparr>))"
| poll: "task_created s \<Longrightarrow> \<not> in_port_main s \<Longrightarrow> dev_step B s (mist_task_poll s)"

definition power_up :: "'w \<Rightarrow> 'w net" where
  "power_up w = \<lparr>network_init = False, once = False, dhcp_flag = False, scan_timer = False, timer_armed = False,
     commands = [], task_created = False, in_port_main = False, board_calls = [], board_world = w\<rparr>"

inductive dev_reach :: "'w board \<Rightarrow> 'w net \<Rightarrow> bool" for B where
  start: "main_startup B (power_up w) = Some s \<Longrightarrow> dev_reach B s"
| step: "dev_reach B s \<Longrightarrow> dev_step B s s' \<Longrightarrow> dev_reach B s'"

definition dev_inv :: "'w net \<Rightarrow> bool" where
  "dev_inv s \<longleftrightarrow> gets s + scans s \<le> (if once s then 1 else 0) \<and> (in_port_main s \<longrightarrow> network_init s) \<and>
     (network_init s \<longrightarrow> gets s = 1) \<and> length (commands s) \<le> (if once s then 2 else 1)"

lemma dev_inv_stage: "stage s = stage s' \<Longrightarrow> dev_inv s \<longleftrightarrow> dev_inv s'"
  by (auto simp: dev_inv_def stage_def scans_def)

lemma dev_inv_start:
  assumes "main_startup B (power_up w) = Some s"
  shows "dev_inv s"
  using assms
  by (auto simp: main_startup_def power_up_def ask_def log_board_def Let_def dev_inv_def gets_def scans_def
      split: prod.splits if_splits)

lemma stage_after:
  "commands s = App_Init_System # cs \<Longrightarrow> appInitSystem B False (s\<lparr>commands := cs\<rparr>) = Some s' \<Longrightarrow>
     stage s' = (network_init s, once s, in_port_main s, cs, gets s)"
  "commands s = Scan_And_Get_Ip # cs \<Longrightarrow> ScanAndGetIp B (s\<lparr>commands := cs\<rparr>) = Some s' \<Longrightarrow>
     \<exists>w. stage s' = (network_init s \<or> fst (b_get_ip B w) = RETCODE_OK, once s, in_port_main s, cs, Suc (gets s))"
proof -
  assume "appInitSystem B False (s\<lparr>commands := cs\<rparr>) = Some s'"
  then obtain s1 where "init B (s\<lparr>commands := cs\<rparr>) = Some s1" "stage s' = stage s1"
    by (auto simp: appInitSystem_def split: bind_split_asm)
  then show "stage s' = (network_init s, once s, in_port_main s, cs, gets s)"
    by (auto simp: init_def ask_def Let_def stage_def gets_def log_board_def dest!: stage_start_timer split: prod.splits if_splits)
next
  let ?t = "scanNetwork B (s\<lparr>commands := cs\<rparr>)"
  have t: "stage ?t = (network_init s, once s, in_port_main s, cs, gets s)"
    by (simp add: stage_scan) (simp add: stage_def gets_def)
  assume "ScanAndGetIp B (s\<lparr>commands := cs\<rparr>) = Some s'"
  then have "stage s' = stage (setAndGetIp B 2 ?t)" by (simp add: ScanAndGetIp_def NCI_DHCP_MODE_def stage_start_timer)
  then show "\<exists>w. stage s' = (network_init s \<or> fst (b_get_ip B w) = RETCODE_OK, once s, in_port_main s, cs, Suc (gets s))"
    using t unfolding stage_setAndGetIp by (auto simp: stage_def)
qed

lemma stage_expire:
  "stage (EnqueueScanwifiNetwork B (s\<lparr>timer_armed := False\<rparr>)) = stage s \<and> once s \<or>
   \<not> once s \<and> (\<exists>cs \<in> {[], [Scan_And_Get_Ip]}.
     stage (EnqueueScanwifiNetwork B (s\<lparr>timer_armed := False\<rparr>)) = (network_init s, True, in_port_main s, commands s @ cs, gets s))"
  by (auto simp: EnqueueScanwifiNetwork_def ask_def Let_def log_board_def stage_def gets_def split: prod.splits)

lemma stage_poll: "stage (mist_task_poll s) = (network_init s, once s, in_port_main s \<or> network_init s, commands s, gets s)"
  by (simp add: mist_task_poll_def log_board_def stage_def gets_def)

lemma dev_inv_step:
  assumes "dev_step B s s'" and inv: "dev_inv s"
  shows "dev_inv s'"
  using assms(1)
proof cases
  case (boot cs)
  from stage_after(1) [OF this] boot(1) inv show ?thesis by (auto simp: dev_inv_def stage_def scans_def)
next
  case (scan cs)
  from stage_after(2) [OF this] scan(1) inv show ?thesis by (auto simp: dev_inv_def stage_def scans_def split: if_splits)
next
  case expire
  with stage_expire [of B s] inv show ?thesis by (auto simp: dev_inv_def stage_def scans_def split: if_splits)
next
  case poll
  with stage_poll [of s] inv show ?thesis by (auto simp: dev_inv_def stage_def scans_def split: if_splits)
qed

lemma dev_reach_inv: "dev_reach B s \<Longrightarrow> dev_inv s"
  by (induction rule: dev_reach.induct) (auto intro: dev_inv_start dev_inv_step)

text \<open>
  Property C24. In every run of the device, from power-up and in whatever order the timer,
  the command processor and the Mist task take their turns, the network is set up at most
  once, and port_main is entered only after that one attempt has brought the device an
  address; and the command processor's queue, which has room for ten commands, never holds
  more than two.
\<close>

theorem port_main_needs_address:
  assumes "dev_reach B s"
  shows "gets s \<le> 1 \<and> (in_port_main s \<longrightarrow> network_init s) \<and> (network_init s \<longrightarrow> gets s = 1) \<and>
    length (commands s) \<le> 2 \<and> 2 \<le> TASK_Q_LEN_MAIN_CMD_PROCESSOR"
  using dev_reach_inv [OF assms] by (auto simp: dev_inv_def TASK_Q_LEN_MAIN_CMD_PROCESSOR_def split: if_splits)

text \<open>
  A board on which everything succeeds except, possibly, getting the address.
\<close>

definition sample_board :: "retcode \<Rightarrow> 'w board" where
  "sample_board r = \<lparr>b_nw_status = Pair DISCONNECTED_IP_NOT_ACQUIRED, b_disconnect = Pair RETCODE_OK,
     b_set_ip_static = (\<lambda>p. Pair RETCODE_OK), b_set_ip_dhcp = (\<lambda>c. Pair RETCODE_OK), b_wpa = Pair RETCODE_OK,
     b_get_ip = Pair r, b_dhcp_callback = (\<lambda>w. False), b_led = (\<lambda>b. Pair RETCODE_OK), b_scan = Pair (RETCODE_OK, []),
     b_wlan_init = Pair RETCODE_OK, b_timer_create = Pair True, b_timer_start = Pair True, b_enqueue = Pair RETCODE_OK,
     b_retcode_init = Pair RETCODE_OK, b_startup = Pair RETCODE_OK, b_cmd_init = Pair RETCODE_OK, b_stack_type_size = 4\<rparr>"

text \<open>The device after its start, one timer expiry and the scan command.\<close>

definition after_attempt :: "retcode \<Rightarrow> unit net" where
  "after_attempt r = (let B = sample_board r;
     s = the (main_startup B (power_up ()));
     s = the (appInitSystem B False (s\<lparr>commands := []\<rparr>));
     s = EnqueueScanwifiNetwork B (s\<lparr>timer_armed := False\<rparr>)
   in the (ScanAndGetIp B (s\<lparr>commands := []\<rparr>)))"

lemmas net_eval = main_startup_def power_up_def sample_board_def ask_def log_board_def appInitSystem_def init_def
  start_timer_def EnqueueScanwifiNetwork_def ScanAndGetIp_def scanNetwork_def setAndGetIp_def disconnect_previous_def
  set_ip_def connect_wpa_def get_ip_def NCI_DHCP_MODE_def Let_def

lemma after_attempt_reach: "dev_reach (sample_board r) (after_attempt r)"
proof -
  let ?B = "sample_board r :: unit board"
  let ?s1 = "the (main_startup ?B (power_up ()))"
  let ?s2 = "the (appInitSystem ?B False (?s1\<lparr>commands := []\<rparr>))"
  let ?s3 = "EnqueueScanwifiNetwork ?B (?s2\<lparr>timer_armed := False\<rparr>)"
  have "dev_reach ?B ?s1" by (rule dev_reach.start [of _ "()"]) (simp add: net_eval)
  moreover have "dev_step ?B ?s1 ?s2" by (rule dev_step.boot [of _ "[]"]) (simp_all add: net_eval)
  moreover have "dev_step ?B ?s2 ?s3" by (rule dev_step.expire) (simp add: net_eval)
  moreover have "dev_step ?B ?s3 (after_attempt r)"
    unfolding after_attempt_def by (rule dev_step.scan [of _ "[]"]) (simp_all add: net_eval)
  ultimately show ?thesis by (blast intro: dev_reach.step)
qed

theorem port_main_needs_address_witness:
  "network_init (after_attempt RETCODE_OK) \<and> gets (after_attempt RETCODE_OK) = 1"
proof -
  have "network_init (after_attempt RETCODE_OK)" by (simp add: after_attempt_def net_eval)
  with port_main_needs_address [OF after_attempt_reach [of RETCODE_OK]] show ?thesis by blast
qed

lemma stuck_step:
  assumes "dev_step B s s'" and "once s \<and> scans s = 0 \<and> \<not> network_init s \<and> \<not> in_port_main s"
  shows "once s' \<and> scans s' = 0 \<and> \<not> network_init s' \<and> \<not> in_port_main s'"
  using assms(1)
proof cases
  case (boot cs)
  from stage_after(1) [OF this] boot(1) assms(2) show ?thesis by (auto simp: stage_def scans_def)
next
  case (scan cs)
  with assms(2) show ?thesis by (simp add: scans_def)
next
  case expire
  with stage_expire [of B s] assms(2) show ?thesis by (auto simp: stage_def scans_def)
next
  case poll
  with stage_poll [of s] assms(2) show ?thesis by (auto simp: stage_def scans_def)
qed

text \<open>
  Property C25. There is no second attempt: once the single call that reads the address has
  been made and has failed, the flag stays false in every continuation of the run, and the
  device waits for ever in the loop before port_main.
\<close>

theorem no_second_attempt:
  assumes "dev_reach B s" and "gets s = 1" and "\<not> network_init s" and "(dev_step B)\<^sup>*\<^sup>* s s'"
  shows "\<not> network_init s' \<and> \<not> in_port_main s'"
proof -
  have "once s \<and> scans s = 0 \<and> \<not> network_init s \<and> \<not> in_port_main s"
    using dev_reach_inv [OF assms(1)] assms(2,3) by (auto simp: dev_inv_def split: if_splits)
  with assms(4) have "once s' \<and> scans s' = 0 \<and> \<not> network_init s' \<and> \<not> in_port_main s'"
    by (induction rule: rtranclp_induct) (use stuck_step in blast)+
  then show ?thesis by blast
qed

theorem no_second_attempt_witness:
  "\<not> network_init (mist_task_poll (after_attempt (RETCODE_OTHER 1))) \<and> \<not> in_port_main (mist_task_poll (after_attempt (RETCODE_OTHER 1)))"
proof (rule no_second_attempt [OF after_attempt_reach])
  show "gets (after_attempt (RETCODE_OTHER 1)) = 1" "\<not> network_init (after_attempt (RETCODE_OTHER 1))"
    by (simp_all add: after_attempt_def gets_def net_eval)
  show "(dev_step (sample_board (RETCODE_OTHER 1)))\<^sup>*\<^sup>* (after_attempt (RETCODE_OTHER 1)) (mist_task_poll (after_attempt (RETCODE_OTHER 1)))"
    by (rule r_into_rtranclp, rule dev_step.poll) (simp_all add: after_attempt_def net_eval)
qed

end
