(* ===== verification/Start_Up.thy ===== *)
theory Start_Up
  imports Network_Setup
begin

text \<open>
  The good case of the start-up: on a board on which no call fails, the start passes through
  four phases, and from each of them the network set-up can be completed.
\<close>

section \<open>A board on which nothing fails\<close>

definition all_well :: "'w board \<Rightarrow> bool" where
  "all_well B \<longleftrightarrow> (\<forall>w. fst (b_wlan_init B w) = RETCODE_OK \<and> fst (b_timer_create B w) \<and> fst (b_timer_start B w) \<and>
     fst (b_enqueue B w) = RETCODE_OK \<and> fst (b_get_ip B w) = RETCODE_OK)"

lemma all_wellD:
  assumes "all_well B"
  shows "b_wlan_init B w = (r, w') \<Longrightarrow> r = RETCODE_OK" "b_timer_create B w = (ok, w') \<Longrightarrow> ok"
    "b_timer_start B w = (ok, w') \<Longrightarrow> ok" "b_enqueue B w = (r, w') \<Longrightarrow> r = RETCODE_OK" "b_get_ip B w = (r, w') \<Longrightarrow> r = RETCODE_OK"
  using assms by (metis all_well_def fst_conv)+

lemma boot_well:
  assumes "all_well B"
  shows "\<exists>s'. appInitSystem B False s = Some s' \<and> task_created s' \<and> timer_armed s' \<and> stage s' = stage s"
  using all_wellD [OF assms]
  by (auto simp: appInitSystem_def init_def start_timer_def ask_def log_board_def Let_def stage_def gets_def split: prod.split)

lemma task_created_parts [simp]:
  "task_created (log_board c s) = task_created s" "task_created (snd (ask f c s)) = task_created s"
  by (simp_all add: log_board_def ask_def split: prod.split)

lemma task_created_scan: "task_created (scanNetwork B s) = task_created s"
proof -
  have "task_created (fold (\<lambda>n s. if n \<noteq> 0 then log_board (B_Delay DELAY_500_MSEC) s else s) ns t) = task_created t"
    for ns :: "nat list" and t :: "'a net"
    by (induction ns arbitrary: t) simp_all
  then show ?thesis by (auto simp: scanNetwork_def ask_def Let_def split: prod.splits)
qed

lemma task_created_get: "task_created (setAndGetIp B 2 s) = task_created s"
proof -
  have "task_created (disconnect_previous B t) = task_created t" "task_created (set_ip B 2 t) = task_created t"
    "task_created (connect_wpa B t) = task_created t" "task_created (get_ip B 2 t) = task_created t" for t
    by (auto simp: disconnect_previous_def set_ip_def connect_wpa_def get_ip_def ask_def Let_def split: prod.splits)
  then show ?thesis by (simp add: setAndGetIp_def)
qed

lemma scan_well:
  assumes "all_well B"
  shows "\<exists>s'. ScanAndGetIp B s = Some s' \<and> task_created s' = task_created s \<and>
    stage s' = (True, once s, in_port_main s, commands s, Suc (gets s))"
proof -
  let ?t = "setAndGetIp B 2 (scanNetwork B s)"
  have "stage (scanNetwork B s) = stage s" by (rule stage_scan)
  then have t: "stage ?t = (True, once s, in_port_main s, commands s, Suc (gets s))"
    unfolding stage_setAndGetIp using assms by (simp add: all_well_def stage_def)
  have "\<exists>s'. start_timer B ?t = Some s' \<and> task_created s' = task_created ?t"
    using all_wellD(3) [OF assms] by (auto simp: start_timer_def ask_def split: prod.split)
  then show ?thesis using t stage_start_timer [of B ?t]
    by (auto simp: ScanAndGetIp_def NCI_DHCP_MODE_def task_created_get task_created_scan)
qed

section \<open>The phases of the start\<close>

text \<open>
  Powered up; waiting for the timer; waiting for the command processor to run the set-up; set
  up.
\<close>

definition phase_ok :: "'w net \<Rightarrow> bool" where
  "phase_ok s \<longleftrightarrow>
     (\<not> task_created s \<and> \<not> timer_armed s \<and> commands s = [App_Init_System] \<and> \<not> once s \<and> \<not> network_init s) \<or>
     (task_created s \<and> timer_armed s \<and> commands s = [] \<and> \<not> once s \<and> \<not> network_init s) \<or>
     (task_created s \<and> commands s = [Scan_And_Get_Ip] \<and> once s \<and> \<not> network_init s) \<or>
     (task_created s \<and> commands s = [] \<and> once s \<and> network_init s)"

lemma expire_well:
  assumes "all_well B"
  shows "let s' = EnqueueScanwifiNetwork B (s\<lparr>timer_armed := False\<rparr>) in task_created s' = task_created s \<and>
    network_init s' = network_init s \<and> in_port_main s' = in_port_main s \<and> once s' \<and>
    commands s' = commands s @ (if once s then [] else [Scan_And_Get_Ip])"
  using all_wellD(4) [OF assms] by (auto simp: EnqueueScanwifiNetwork_def ask_def log_board_def Let_def split: prod.split)

lemma phase_start: "main_startup B (power_up w) = Some s \<Longrightarrow> phase_ok s \<and> \<not> in_port_main s"
  by (auto simp: main_startup_def power_up_def ask_def log_board_def Let_def phase_ok_def split: prod.splits if_splits)

lemma phase_step:
  assumes "all_well B" and "dev_step B s s'" and "phase_ok s"
  shows "phase_ok s'"
  using assms(2)
proof cases
  case (boot cs)
  from boot_well [OF assms(1), of "s\<lparr>commands := cs\<rparr>"] boot assms(3) show ?thesis
    by (auto simp: phase_ok_def stage_def)
next
  case (scan cs)
  from scan_well [OF assms(1), of "s\<lparr>commands := cs\<rparr>"] scan assms(3) show ?thesis
    by (auto simp: phase_ok_def stage_def)
next
  case expire
  with expire_well [OF assms(1), of s] assms(3) show ?thesis by (auto simp: phase_ok_def Let_def)
next
  case poll
  with assms(3) show ?thesis by (auto simp: phase_ok_def mist_task_poll_def log_board_def)
qed

lemma phase_reach: "dev_reach B s \<Longrightarrow> all_well B \<Longrightarrow> phase_ok s"
  by (induction rule: dev_reach.induct) (auto dest: phase_start phase_step)

text \<open>From every phase the remaining ones can be passed through, without entering port_main.\<close>

definition setup_step :: "'w board \<Rightarrow> 'w net \<Rightarrow> 'w net \<Rightarrow> bool" where
  "setup_step B s s' \<longleftrightarrow> dev_step B s s' \<and> in_port_main s' = in_port_main s"

lemma pass_scan:
  assumes "all_well B" and "task_created s" and "commands s = [Scan_And_Get_Ip]"
  shows "\<exists>s'. setup_step B s s' \<and> network_init s' \<and> task_created s'"
proof -
  from scan_well [OF assms(1), of "s\<lparr>commands := []\<rparr>"] obtain s' where
    s': "ScanAndGetIp B (s\<lparr>commands := []\<rparr>) = Some s'" "task_created s'" "network_init s'" "in_port_main s' = in_port_main s"
    using assms(2) by (auto simp: stage_def)
  with dev_step.scan [OF assms(3) s'(1)] show ?thesis by (auto simp: setup_step_def)
qed

lemma pass_expire:
  assumes "all_well B" and "task_created s" and "timer_armed s" and "commands s = []" and "\<not> once s"
  shows "\<exists>s'. (setup_step B)\<^sup>*\<^sup>* s s' \<and> network_init s' \<and> task_created s'"
proof -
  let ?t = "EnqueueScanwifiNetwork B (s\<lparr>timer_armed := False\<rparr>)"
  have "setup_step B s ?t" "task_created ?t" "commands ?t = [Scan_And_Get_Ip]"
    using expire_well [OF assms(1), of s] dev_step.expire [OF assms(3)] assms(2,4,5) by (simp_all add: setup_step_def Let_def)
  with pass_scan [OF assms(1) this(2,3)] show ?thesis by (meson converse_rtranclp_into_rtranclp r_into_rtranclp)
qed

lemma pass_boot:
  assumes "all_well B" and "commands s = [App_Init_System]" and "\<not> once s"
  shows "\<exists>s'. (setup_step B)\<^sup>*\<^sup>* s s' \<and> network_init s' \<and> task_created s'"
proof -
  from boot_well [OF assms(1), of "s\<lparr>commands := []\<rparr>"] obtain t where
    t: "appInitSystem B False (s\<lparr>commands := []\<rparr>) = Some t" "task_created t" "timer_armed t" "commands t = []" "\<not> once t"
      "in_port_main t = in_port_main s"
    using assms(3) by (auto simp: stage_def)
  with dev_step.boot [OF assms(2) t(1)] have "setup_step B s t" by (simp add: setup_step_def)
  with pass_expire [OF assms(1) t(2-5)] show ?thesis by (meson converse_rtranclp_into_rtranclp)
qed

lemma set_up_reachable:
  assumes "all_well B" and "phase_ok s"
  shows "\<exists>s'. (setup_step B)\<^sup>*\<^sup>* s s' \<and> network_init s' \<and> task_created s'"
  using assms(2) unfolding phase_ok_def
proof (elim disjE conjE)
  assume "task_created s" "commands s = [Scan_And_Get_Ip]"
  with pass_scan [OF assms(1)] show ?thesis by blast
next
  assume "task_created s" "network_init s"
  then show ?thesis by blast
qed (use pass_boot [OF assms(1)] pass_expire [OF assms(1)] in blast)+

lemma setup_steps_port: "(setup_step B)\<^sup>*\<^sup>* s s' \<Longrightarrow> in_port_main s' = in_port_main s"
  by (induction rule: rtranclp_induct) (auto simp: setup_step_def)

end
