(* ===== verification/Device.thy ===== *)
theory Device
  imports Main_Safety Start_Up
begin

text \<open>
  The device as a whole: the start-up and network set-up of \<open>mist-port-bosch-xdk.c\<close> together
  with \<open>port_main\<close>, which the Mist task calls.  The two parts share no data; they meet in the
  call of port_main and in the network connection, which the set-up command would tear down.
\<close>

section \<open>The Mist task and the rest of the device\<close>

text \<open>
  The Mist task waits with the port in its initial state, then runs the loop, or has run into
  undefined behaviour or an endless event loop.  \<open>B\<close> is the board, \<open>E\<close> the environment of the
  port, \<open>A\<close> the identity database, \<open>core_init\<close> and \<open>apps\<close> the core's and the applications'
  part of the start.
\<close>

datatype 'x mist_task = Polling "'x port" | In_Loop int int "'x port" | Undefined

fun enter_port_main ::
  "'x env \<Rightarrow> ('x, 'id) identity_api \<Rightarrow> ('x port \<Rightarrow> 'x port) \<Rightarrow> ('x port \<Rightarrow> 'x port) \<Rightarrow> 'x mist_task \<Rightarrow> 'x mist_task" where
  "enter_port_main E A core_init apps (Polling s) =
     (case port_main_start E A core_init apps s of (server_fd, wld, s) \<Rightarrow> In_Loop server_fd wld s)"
| "enter_port_main E A core_init apps t = t"

fun loop_turn :: "'x env \<Rightarrow> 'x mist_task \<Rightarrow> 'x mist_task" where
  "loop_turn E (In_Loop server_fd wld s) =
     (case port_main_turn E server_fd wld s of Some s \<Rightarrow> In_Loop server_fd wld s | None \<Rightarrow> Undefined)"
| "loop_turn E t = t"

text \<open>
  The steps interleave: a step of the start-up (timer, command processor, the poll of the
  Mist task; the poll that finds the flag set enters port_main), or a turn of the main loop.
\<close>

inductive device_step ::
  "'w board \<Rightarrow> 'x env \<Rightarrow> ('x, 'id) identity_api \<Rightarrow> ('x port \<Rightarrow> 'x port) \<Rightarrow> ('x port \<Rightarrow> 'x port) \<Rightarrow>
     'w net \<times> 'x mist_task \<Rightarrow> 'w net \<times> 'x mist_task \<Rightarrow> bool" for B E A core_init apps where
  board: "dev_step B n n' \<Longrightarrow> in_port_main n' = in_port_main n \<Longrightarrow> device_step B E A core_init apps (n, t) (n', t)"
| enter: "dev_step B n n' \<Longrightarrow> \<not> in_port_main n \<Longrightarrow> in_port_main n' \<Longrightarrow>
    device_step B E A core_init apps (n, t) (n', enter_port_main E A core_init apps t)"
| turn: "in_port_main n \<Longrightarrow> device_step B E A core_init apps (n, t) (n, loop_turn E t)"

inductive_cases device_stepE: "device_step B E A core_init apps (n, t) d"

inductive device_reach ::
  "'w board \<Rightarrow> 'x env \<Rightarrow> ('x, 'id) identity_api \<Rightarrow> ('x port \<Rightarrow> 'x port) \<Rightarrow> ('x port \<Rightarrow> 'x port) \<Rightarrow> 'x port \<Rightarrow>
     'w net \<times> 'x mist_task \<Rightarrow> bool" for B E A core_init apps s0 where
  power: "main_startup B (power_up w) = Some n \<Longrightarrow> device_reach B E A core_init apps s0 (n, Polling s0)"
| next_step: "device_reach B E A core_init apps s0 d \<Longrightarrow> device_step B E A core_init apps d d' \<Longrightarrow>
    device_reach B E A core_init apps s0 d'"

section \<open>The invariant\<close>

definition task_inv :: "ptr set \<Rightarrow> 'x env \<Rightarrow> 'x port \<Rightarrow> bool \<Rightarrow> 'x mist_task \<Rightarrow> bool" where
  "task_inv F E s0 running t \<longleftrightarrow> (case t of
     Polling s \<Rightarrow> \<not> running \<and> s = s0 | In_Loop server_fd wld s \<Rightarrow> running \<and> loop_inv F E s \<and> fd_ok E server_fd \<and> fd_ok E wld | Undefined \<Rightarrow> False)"

lemma in_port_main_start:
  "main_startup B (power_up w) = Some n \<Longrightarrow> \<not> in_port_main n"
  by (auto simp: main_startup_def power_up_def ask_def log_board_def Let_def split: prod.splits if_splits)

lemma device_net_reach: "device_reach B E A core_init apps s0 d \<Longrightarrow> dev_reach B (fst d)"
proof (induction rule: device_reach.induct)
  case (next_step d d')
  then show ?case by (cases d) (auto elim!: device_stepE intro: dev_reach.step)
qed (auto intro: dev_reach.start)

lemma loop_turn_inv:
  assumes "core_contract F E" and "library_contract E" and "core_settles F settle E" and "task_inv F E s0 True t"
  shows "task_inv F E s0 True (loop_turn E t)"
proof -
  from assms(4) obtain server_fd wld s where t: "t = In_Loop server_fd wld s" "loop_inv F E s" "fd_ok E server_fd" "fd_ok E wld"
    by (cases t) (auto simp: task_inv_def)
  from turn_safe [OF assms(1-3) t(2-4)] t show ?thesis
    by (auto simp: task_inv_def safe_step_def)
qed

lemma device_task_inv:
  assumes "core_contract F E" and "library_contract E" and "core_settles F settle E"
    and "identity_keeps F E A" and "keeps F E apps" and "loop_inv F E (core_init s0)"
  shows "device_reach B E A core_init apps s0 d \<Longrightarrow> task_inv F E s0 (in_port_main (fst d)) (snd d)"
proof (induction rule: device_reach.induct)
  case (power w n)
  then show ?case by (simp add: task_inv_def in_port_main_start)
next
  case (next_step d d')
  obtain n t where d: "d = (n, t)" by force
  from next_step.hyps(2) next_step.IH show ?case unfolding d
  proof (elim device_stepE)
    fix n' assume "d' = (n', enter_port_main E A core_init apps t)" "\<not> in_port_main n" "in_port_main n'"
      and "task_inv F E s0 (in_port_main (fst (n, t))) (snd (n, t))"
    then show "task_inv F E s0 (in_port_main (fst d')) (snd d')"
      using start_inv [OF assms(2,4,5), of core_init s0] assms(6) by (cases t) (auto simp: task_inv_def split: prod.splits)
  next
    assume "d' = (n, loop_turn E t)" "in_port_main n" and "task_inv F E s0 (in_port_main (fst (n, t))) (snd (n, t))"
    then show "task_inv F E s0 (in_port_main (fst d')) (snd d')"
      using loop_turn_inv [OF assms(1-3)] by simp
  qed simp
qed

text \<open>
  Property C4. The parts of the device fit together. In every state that the device can reach
  from power-up, in whatever order the timer, the command processor, the Mist task and the
  turns of the main loop follow each other: the port is untouched until the network is there;
  the main loop runs only on a device that has an address and has no command waiting that
  would disconnect it again; it keeps the invariant of the port; and neither undefined
  behaviour nor an endless event loop is ever met.
\<close>

theorem device_safe:
  assumes "core_contract F E" and "library_contract E" and "core_settles F settle E"
    and "identity_keeps F E A" and "keeps F E apps" and "loop_inv F E (core_init s0)"
    and "device_reach B E A core_init apps s0 (n, t)"
  shows "case t of
      Polling s \<Rightarrow> s = s0 \<and> \<not> in_port_main n
    | In_Loop server_fd wld s \<Rightarrow> network_init n \<and> gets n = 1 \<and> scans n = 0 \<and> loop_inv F E s
    | Undefined \<Rightarrow> False"
proof -
  have "dev_inv n" using dev_reach_inv [OF device_net_reach [OF assms(7)]] by simp
  with device_task_inv [OF assms] show ?thesis
    by (auto simp: task_inv_def dev_inv_def split: mist_task.splits if_splits)
qed

text \<open>The sample device: powered up, configured, and in its first turn of the loop.\<close>

definition sample_device :: "nat port \<Rightarrow> unit net \<times> nat mist_task" where
  "sample_device s0 = (mist_task_poll (after_attempt RETCODE_OK),
     enter_port_main sample_env sample_identities (\<lambda>s. s) (\<lambda>s. s) (Polling s0))"

lemma sample_device_reach:
  "device_reach (sample_board RETCODE_OK) sample_env sample_identities (\<lambda>s. s) (\<lambda>s. s) s0 (sample_device s0)"
proof -
  let ?B = "sample_board RETCODE_OK :: unit board"
  let ?s1 = "the (main_startup ?B (power_up ()))"
  let ?s2 = "the (appInitSystem ?B False (?s1\<lparr>commands := []\<rparr>))"
  let ?s3 = "EnqueueScanwifiNetwork ?B (?s2\<lparr>timer_armed := False\<rparr>)"
  let ?R = "device_reach ?B sample_env sample_identities (\<lambda>s. s) (\<lambda>s. s) s0 :: unit net \<times> nat mist_task \<Rightarrow> bool"
  have "?R (?s1, Polling s0)" by (rule device_reach.power [of _ "()"]) (simp add: net_eval)
  moreover have "dev_step ?B ?s1 ?s2" by (rule dev_step.boot [of _ "[]"]) (simp_all add: net_eval)
  moreover have "dev_step ?B ?s2 ?s3" by (rule dev_step.expire) (simp add: net_eval)
  moreover have "dev_step ?B ?s3 (after_attempt RETCODE_OK)"
    unfolding after_attempt_def by (rule dev_step.scan [of _ "[]"]) (simp_all add: net_eval)
  moreover have "dev_step ?B (after_attempt RETCODE_OK) (mist_task_poll (after_attempt RETCODE_OK))"
    by (rule dev_step.poll) (simp_all add: after_attempt_def net_eval)
  moreover have "\<not> in_port_main ?s1" "\<not> in_port_main ?s2" "\<not> in_port_main ?s3" "\<not> in_port_main (after_attempt RETCODE_OK)"
    "in_port_main (mist_task_poll (after_attempt RETCODE_OK))"
    by (simp_all add: after_attempt_def net_eval mist_task_poll_def)
  ultimately show ?thesis unfolding sample_device_def
    by (meson device_reach.next_step device_step.board device_step.enter)
qed

theorem device_safe_witness:
  "case sample_device (sample_port 0) of (n, In_Loop fd wld s) \<Rightarrow> network_init n \<and> scans n = 0 \<and> loop_inv {} sample_env s | _ \<Rightarrow> False"
proof -
  obtain fd wld s where "port_main_start sample_env sample_identities (\<lambda>s. s) (\<lambda>s. s) (sample_port 0) = (fd, wld, s)"
    by (metis prod_cases3)
  then obtain n where d: "sample_device (sample_port 0) = (n, In_Loop fd wld s)"
    by (simp add: sample_device_def)
  from sample_device_reach [of "sample_port 0"]
  have "device_reach (sample_board RETCODE_OK) sample_env sample_identities (\<lambda>s. s) (\<lambda>s. s) (sample_port 0) (n, In_Loop fd wld s)"
    by (simp add: d)
  from device_safe [OF sample_main_contracts sample_identity_keeps keeps_id(1) _ this, of "{}"] sample_loop_inv [of "0 :: nat"]
  show ?thesis by (simp add: d)
qed

section \<open>The main loop is reached\<close>

lemma polling_not_running:
  "device_reach B E A core_init apps s0 d \<Longrightarrow> snd d = Polling s \<Longrightarrow> \<not> in_port_main (fst d) \<and> s = s0"
proof (induction arbitrary: s rule: device_reach.induct)
  case (power w n)
  then show ?case by (simp add: in_port_main_start)
next
  case (next_step d d')
  obtain n t where d: "d = (n, t)" by force
  from next_step.hyps(2) next_step.prems next_step.IH show ?case unfolding d
    by (elim device_stepE) (cases t; auto split: prod.splits option.splits)+
qed

lemma setup_in_device:
  "(setup_step B)\<^sup>*\<^sup>* n n' \<Longrightarrow> (device_step B E A core_init apps)\<^sup>*\<^sup>* (n, t) (n', t)"
proof (induction rule: rtranclp_induct)
  case (step n1 n2)
  then have "device_step B E A core_init apps (n1, t) (n2, t)" by (simp add: setup_step_def device_step.board)
  with step.IH show ?case by (rule rtranclp.rtrancl_into_rtrancl)
qed simp

text \<open>
  Property C6. The device gets started. On a board on which no call fails, however the timer,
  the command processor and the Mist task have interleaved so far, a device that has not
  entered port_main can still do so: some continuation of the run completes the network
  set-up and brings the Mist task into the main loop, with the port started from its initial
  state. No interleaving leads into a dead end.
\<close>

theorem device_gets_started:
  assumes "all_well B" and "device_reach B E A core_init apps s0 (n, Polling s)"
  shows "\<exists>n'. (device_step B E A core_init apps)\<^sup>*\<^sup>* (n, Polling s) (n', enter_port_main E A core_init apps (Polling s0)) \<and>
    in_port_main n' \<and> network_init n'"
proof -
  have s: "\<not> in_port_main n" "s = s0" using polling_not_running [OF assms(2)] by simp_all
  have "phase_ok n" using phase_reach [OF device_net_reach [OF assms(2)] assms(1)] by simp
  from set_up_reachable [OF assms(1) this] obtain n1 where
    n1: "(setup_step B)\<^sup>*\<^sup>* n n1" "network_init n1" "task_created n1" by blast
  have "\<not> in_port_main n1" using setup_steps_port [OF n1(1)] s(1) by simp
  with n1(2,3) have "device_step B E A core_init apps (n1, Polling s0)
      (mist_task_poll n1, enter_port_main E A core_init apps (Polling s0))"
    by (intro device_step.enter dev_step.poll) (simp_all add: mist_task_poll_def log_board_def)
  with setup_in_device [OF n1(1)] have
    "(device_step B E A core_init apps)\<^sup>*\<^sup>* (n, Polling s0) (mist_task_poll n1, enter_port_main E A core_init apps (Polling s0))"
    by (rule rtranclp.rtrancl_into_rtrancl)
  with s(2) n1(2) show ?thesis by (auto simp: mist_task_poll_def log_board_def intro!: exI [of _ "mist_task_poll n1"])
qed

lemma sample_all_well: "all_well (sample_board RETCODE_OK)"
  by (simp add: all_well_def sample_board_def)

theorem device_gets_started_witness:
  "\<exists>n'. (device_step (sample_board RETCODE_OK) sample_env sample_identities (\<lambda>s. s) (\<lambda>s. s))\<^sup>*\<^sup>*
      (the (main_startup (sample_board RETCODE_OK) (power_up ())), Polling (sample_port 0))
      (n', enter_port_main sample_env sample_identities (\<lambda>s. s) (\<lambda>s. s) (Polling (sample_port 0))) \<and> in_port_main n'"
proof -
  have "device_reach (sample_board RETCODE_OK) sample_env sample_identities (\<lambda>s. s) (\<lambda>s. s) (sample_port 0)
      (the (main_startup (sample_board RETCODE_OK) (power_up ())), Polling (sample_port 0))"
    by (rule device_reach.power [of _ "()"]) (simp add: net_eval)
  from device_gets_started [OF sample_all_well this] show ?thesis by blast
qed

end
