(* ===== verification/Main_Dispatch.thy ===== *)
theory Main_Dispatch
  imports Port_Main
begin

text \<open>
  What one pass of the main loop does for each descriptor that select reports, on every
  branch: the relays, the connections, the server socket and the timers.
\<close>

section \<open>Reading from a connection\<close>

lemma read_buf_len_uint:
  "unat (read_buf_len n) = nat (min 512 (n mod 4294967296))"
proof -
  have u: "uint (word_of_int n :: u32) = n mod 4294967296" by (simp add: uint_word_of_int)
  show ?thesis
    unfolding read_buf_len_def max_read_def word_less_def unat_eq_nat_uint if_distrib [of uint] if_distrib [of nat] u
    by (simp add: min_def)
qed

lemma read_buf_len_cases:
  "0 \<le> n \<Longrightarrow> n < 2 ^ 31 \<Longrightarrow> unat (read_buf_len n) = nat (min 512 n)"
  "- (2 ^ 31) \<le> n \<Longrightarrow> n < 0 \<Longrightarrow> unat (read_buf_len n) = 512"
proof -
  show "0 \<le> n \<Longrightarrow> n < 2 ^ 31 \<Longrightarrow> unat (read_buf_len n) = nat (min 512 n)"
    by (simp add: read_buf_len_uint)
  assume n: "- (2 ^ 31) \<le> n" "n < 0"
  then have "(n + 4294967296) mod 4294967296 = n + 4294967296" by (intro mod_pos_pos_trivial) simp_all
  with n show "unat (read_buf_len n) = 512" by (simp add: read_buf_len_uint)
qed

text \<open>The state after \<open>recv\<close> asked for \<open>n\<close> bytes.\<close>

definition after_recv :: "int \<Rightarrow> nat \<Rightarrow> int \<Rightarrow> 'x \<Rightarrow> 'x port \<Rightarrow> 'x port" where
  "after_recv fd n r w s = s\<lparr>world := w, calls := calls s @ [CRecv fd n r]\<rparr>"

lemma sl_recv_eq: "x_recv E fd n (world s) = ((r, bs), w) \<Longrightarrow> sl_recv E fd n s = ((r, bs), after_recv fd n r w s)"
  by (simp add: sl_recv_def after_recv_def log_call_def)

lemma after_recv_frames [simp]:
  "conn i (after_recv fd n r w s) = conn i s" "live (after_recv fd n r w s) = live s"
  "heap (after_recv fd n r w s) = heap s" "calls (after_recv fd n r w s) = calls s @ [CRecv fd n r]"
  by (simp_all add: after_recv_def conn_def)

text \<open>
  Property C14. A readable connection: nothing is read while the core's buffer is full;
  otherwise recv is asked for at most 512 bytes and never for more than the core has room
  for (an error answer of the core counts as 512). The bytes read go to the core once, and one
  NEW_DATA event for this connection is posted; when the peer has closed, the socket is
  closed, the block released and TCP_DISCONNECTED signalled; on an error nothing happens.
\<close>

theorem readable_connection:
  assumes "context_state (conn i s) \<noteq> WISH_CONTEXT_FREE" and "send_arg (conn i s) = Some p" and "p \<in> live s"
    and "sock_fd (heap s p) = fd" and "fd \<in> rfds" and "fd \<notin> wfds"
    and "x_rx_buffer_free E i s = free_bytes" and "- (2 ^ 31) \<le> free_bytes" and "free_bytes < 2 ^ 31"
    and "n = (if free_bytes < 0 then 512 else nat (min 512 free_bytes))"
    and "x_recv E fd n (world s) = ((r, bs), w)" and "r \<le> int n"
  shows "dispatch_conn E rfds wfds i s = Some (
     if free_bytes = 0 then s
     else if r > 0 then
       post \<lparr>event_type = WISH_EVENT_NEW_DATA, ev_context = Some i\<rparr>
         (x_feed E i (take (nat r) bs) (log_call (CFeed i (take (nat r) bs)) (after_recv fd n r w s)))
     else if r = 0 then
       signal E i TCP_DISCONNECTED (log_call (CFree p) ((sl_close fd (after_recv fd n r w s))\<lparr>live := live s - {p}\<rparr>))
     else after_recv fd n r w s)"
proof -
  have n: "unat (read_buf_len free_bytes) = n"
    using read_buf_len_cases [of free_bytes] assms(8-10) by auto
  have r: "sl_recv E fd (unat (read_buf_len free_bytes)) s = ((r, bs), after_recv fd n r w s)"
    unfolding n by (rule sl_recv_eq [OF assms(11)])
  have "\<not> nat r > n" using assms(12) by (simp only: not_less nat_le_iff)
  with assms(1-7) r n show ?thesis
    by (simp add: dispatch_conn_def read_conn_def load_def free_def Let_def sl_close_def)
qed

theorem readable_connection_witness:
  "\<exists>s1. dispatch_conn (sample_env\<lparr>x_recv := \<lambda>fd n w. ((2, [7, 8]), w)\<rparr>) {0} {} 0
      (upd_conn 0 (\<lambda>c. c\<lparr>send_arg := Some 3\<rparr>) ((sample_port ())\<lparr>live := {3}\<rparr>)) = Some s1 \<and>
    calls s1 = [CRecv 0 512 2, CFeed 0 [7, 8]] \<and> num_curr_events (port_evq s1) = 1"
  by (subst readable_connection [where p = 3 and fd = 0 and n = 512 and free_bytes = 1024 and r = 2 and bs = "[7, 8]" and w = "()"])
     (simp_all add: sample_env_def, simp_all add: sample_port_def sample_core_def sample_conn_def sample_addr_def
        conn_def upd_conn_def after_recv_def post_def notify_def evq_init_def)

section \<open>Connects that have become writable\<close>

text \<open>
  Property C15. A connection whose connect was pending and whose socket has become writable:
  connect is called again on the stored address. If it answers 0 or more, the core is told
  once, and told that a relay session is connected exactly if the connection goes via a relay.
  If it fails, the socket is closed, the block released and TCP_DISCONNECTED signalled, and
  then the same descriptor is closed a second time.
\<close>

theorem pending_connect_outcome:
  assumes "context_state (conn i s) \<noteq> WISH_CONTEXT_FREE" and "send_arg (conn i s) = Some p" and "p \<in> live s"
    and "heap s p = \<lparr>sock_fd = fd, remote_addr = addr\<rparr>" and "fd \<notin> rfds" and "fd \<in> wfds"
    and "curr_transport_state (conn i s) = TRANSPORT_STATE_CONNECTING"
    and "x_connect E fd addr (world s) = (ret, w)"
  shows "let s1 = log_call (CConnect fd addr ret) (s\<lparr>world := w\<rparr>) in
    dispatch_conn E rfds wfds i s = Some (
      if 0 \<le> ret then signal E i (if via_relay (conn i s) then TCP_RELAY_SESSION_CONNECTED else TCP_CONNECTED) s1
      else sl_close fd (signal E i TCP_DISCONNECTED (log_call (CFree p) ((sl_close fd s1)\<lparr>live := live s - {p}\<rparr>))))"
  using assms
  by (simp add: dispatch_conn_def connect_conn_def load_def free_def Let_def sl_close_def sl_connect_def
      connected_cb_def connected_cb_relay_def connect_fail_cb_def)

theorem pending_connect_outcome_witness:
  "map_option calls (dispatch_conn (sample_env\<lparr>x_connect := \<lambda>fd a w. (-111, w)\<rparr>) {} {0} 0
      (upd_conn 0 (\<lambda>c. c\<lparr>send_arg := Some 3, curr_transport_state := TRANSPORT_STATE_CONNECTING\<rparr>)
        ((sample_port ())\<lparr>live := {3}\<rparr>)))
   = Some [CConnect 0 sample_addr (-111), CClose 0, CFree 3, CSignal 0 TCP_DISCONNECTED, CClose 0]"
  using pending_connect_outcome [of 0 "upd_conn 0 (\<lambda>c. c\<lparr>send_arg := Some 3,
      curr_transport_state := TRANSPORT_STATE_CONNECTING\<rparr>) ((sample_port ())\<lparr>live := {3}\<rparr>)" 3 0 sample_addr "{}" "{0}"
      "sample_env\<lparr>x_connect := \<lambda>fd a w. (-111, w)\<rparr>" "-111" "()"]
  by (simp add: sample_env_def signal_def sl_close_def)
     (simp add: sample_port_def sample_core_def sample_conn_def conn_def upd_conn_def)

section \<open>Relays\<close>

text \<open>
  A relay in WAIT_RECONNECT, RESOLVING or INITIAL is never touched by the loop:
  no descriptor of it is waited for and serving it changes nothing. In particular a relay
  given by host name, which wish_relay_client_open leaves RESOLVING without starting a
  resolver, stays in that state as far as the loop is concerned.
\<close>

theorem idle_relay_untouched:
  assumes "curr_state (relay j s) \<in> {WISH_RELAY_CLIENT_WAIT_RECONNECT, WISH_RELAY_CLIENT_RESOLVING, WISH_RELAY_CLIENT_INITIAL}"
  shows "setup_relay E j (R, W, s) = Some (R, W, s) \<and> dispatch_relay E rfds wfds j s = s"
  using assms by (auto simp: setup_relay_def dispatch_relay_def)

theorem idle_relay_untouched_witness:
  "dispatch_relay sample_env {0} {0} 0 (sample_port ()) = sample_port ()"
  using idle_relay_untouched [of 0 "sample_port ()" sample_env "{}" "{}" "{0}" "{0}"]
  by (simp add: relay_def) (simp add: sample_port_def sample_core_def sample_relay_def)

text \<open>
  What a pass over the relay list reports: the calls of the core's relay functions, and the sockets closed.
\<close>

fun relay_call :: "call \<Rightarrow> bool" where
  "relay_call (CRelayConnected j) \<longleftrightarrow> True"
| "relay_call (CRelayConnectFail j) \<longleftrightarrow> True"
| "relay_call (CRelayDisconnect j) \<longleftrightarrow> True"
| "relay_call (CRelayFeed j b) \<longleftrightarrow> True"
| "relay_call (CRelayPeriodic j) \<longleftrightarrow> True"
| "relay_call (CClose fd) \<longleftrightarrow> True"
| "relay_call c \<longleftrightarrow> False"

definition relay_log :: "'x port \<Rightarrow> call list" where
  "relay_log s = filter relay_call (calls s)"

text \<open>
  The relay function of the core that serves relay \<open>j\<close>: it may do anything, but it leaves the other relays, the length of the
  list and the descriptor as they are, and makes no report and closes no socket by itself.
\<close>

definition serves_only :: "nat \<Rightarrow> ('x port \<Rightarrow> 'x port) \<Rightarrow> bool" where
  "serves_only j f \<longleftrightarrow> (\<forall>s. length (relay_db (core (f s))) = length (relay_db (core s)) \<and>
     (\<forall>k < length (relay_db (core s)). k \<noteq> j \<longrightarrow> relay k (f s) = relay k s) \<and>
     sockfd (relay j (f s)) = sockfd (relay j s) \<and> relay_log (f s) = relay_log s)"

definition relays_local :: "'x env \<Rightarrow> bool" where
  "relays_local E \<longleftrightarrow> (\<forall>j. serves_only j (x_relay_connected E j) \<and> serves_only j (x_relay_connect_fail E j) \<and>
     serves_only j (x_relay_disconnect E j) \<and> serves_only j (x_relay_periodic E j) \<and> (\<forall>b. serves_only j (x_relay_feed E j b)))"

text \<open>
  What is due for a relay: by the answer \<open>con fd\<close> of the repeated connect when it waits to be
  writable and is, by the answer \<open>rec fd\<close> of recv when it waits to be readable and is.
\<close>

definition relay_due :: "'x env \<Rightarrow> int set \<Rightarrow> int set \<Rightarrow> (int \<Rightarrow> int) \<Rightarrow> (int \<Rightarrow> int \<times> byte list) \<Rightarrow> nat \<Rightarrow> wish_relay_client \<Rightarrow> call list" where
  "relay_due E rfds wfds con rec j rc = (let fd = sockfd rc in
     if relay_writes rc \<inter> wfds \<noteq> {} then
       (if con fd \<ge> 0 then [CRelayConnected j, CRelayPeriodic j]
        else if con fd = sl_ealready E then [] else [CRelayConnectFail j, CClose fd])
     else if relay_reads rc \<inter> rfds \<noteq> {} then
       (if fst (rec fd) > 0 then [CRelayFeed j (hd (snd (rec fd))), CRelayPeriodic j]
        else if fst (rec fd) = 0 then [CRelayDisconnect j, CClose fd] else [])
     else [])"

text \<open>The state \<open>t\<close> after some service of relay \<open>j\<close> from \<open>s\<close>, in which \<open>cs\<close> was reported.\<close>

definition served :: "nat \<Rightarrow> call list \<Rightarrow> 'x port \<Rightarrow> 'x port \<Rightarrow> bool" where
  "served j cs s t \<longleftrightarrow> length (relay_db (core t)) = length (relay_db (core s)) \<and>
     (\<forall>k < length (relay_db (core s)). k \<noteq> j \<longrightarrow> relay k t = relay k s) \<and>
     sockfd (relay j t) = sockfd (relay j s) \<and> relay_log t = relay_log s @ cs"

lemma served_refl [simp]: "served j [] s s"
  by (simp add: served_def)

lemma served_trans: "served j cs s t \<Longrightarrow> served j ds t u \<Longrightarrow> served j (cs @ ds) s u"
  by (auto simp: served_def)

lemma served_call:
  assumes "serves_only j f" and "relay_call c"
  shows "served j [c] s (f (log_call c s))"
proof -
  have "served j [c] s (log_call c s)" using assms(2) by (simp add: served_def relay_log_def relay_def)
  moreover have "served j [] t (f t)" for t using assms(1) by (simp add: served_def serves_only_def)
  ultimately show ?thesis using served_trans by fastforce
qed

lemma dispatch_relay_served:
  assumes "relays_local E" and "\<forall>fd a w. fst (x_connect E fd a w) = con fd" and "\<forall>fd w. fst (x_recv E fd 1 w) = rec fd"
    and "curr_state (relay j s) = WISH_RELAY_CLIENT_CONNECTING \<longrightarrow> sockfd (relay j s) \<notin> rfds"
  shows "served j (relay_due E rfds wfds con rec j (relay j s)) s (dispatch_relay E rfds wfds j s)"
    and "relay_writes (relay j s) \<inter> wfds = {} \<Longrightarrow> relay_reads (relay j s) \<inter> rfds = {} \<Longrightarrow> dispatch_relay E rfds wfds j s = s"
proof -
  let ?rc = "relay j s" and ?fd = "sockfd (relay j s)"
  have cb: "serves_only j (x_relay_connected E j)" "serves_only j (x_relay_connect_fail E j)"
    "serves_only j (x_relay_disconnect E j)" "serves_only j (x_relay_periodic E j)" "serves_only j (x_relay_feed E j b)" for b
    using assms(1) by (simp_all add: relays_local_def)
  note call = served_call [OF cb(1)] served_call [OF cb(2)] served_call [OF cb(3)] served_call [OF cb(4)] served_call [OF cb(5)]
  have two: "served j [c, d] u (g (log_call d (f (log_call c u))))"
    if "serves_only j f" "serves_only j g" "relay_call c" "relay_call d" for f g c d u
    using served_trans [OF served_call [OF that(1,3)] served_call [OF that(2,4)]] by simp
  have closed: "served j [c, CClose (sockfd (relay j u))] u (sl_close (sockfd (relay j (f (log_call c u)))) (f (log_call c u)))"
    if "serves_only j f" "relay_call c" for f c u
  proof -
    let ?t = "f (log_call c u)"
    have "served j [c] u ?t" by (rule served_call [OF that])
    moreover from this have "sockfd (relay j ?t) = sockfd (relay j u)" by (simp add: served_def)
    moreover have "served j [CClose fd] ?t (sl_close fd ?t)" for fd
      by (simp add: served_def sl_close_def relay_log_def relay_def)
    ultimately show ?thesis using served_trans by fastforce
  qed
  have world: "served j cs (log_call c (s\<lparr>world := w\<rparr>)) t \<Longrightarrow> \<not> relay_call c \<Longrightarrow> served j cs s t" for cs c w t
    by (simp add: served_def relay_log_def relay_def)
  have same: "relay j (log_call c (s\<lparr>world := w\<rparr>)) = ?rc" for c w by (simp add: relay_def)
  let ?a = "\<lparr>sin_family = AF_INET, sin_port = htons (relay_port ?rc),
      sin_addr = ucast (htons (ucast (x_ipv4_value E (port_get_relay_ip s))))\<rparr>"
  obtain w where con: "x_connect E ?fd ?a (world s) = (con ?fd, w)" using assms(2) by (metis prod.collapse)
  obtain v where rec: "x_recv E ?fd 1 (world s) = (rec ?fd, v)" using assms(3) by (metis prod.collapse)
  show "served j (relay_due E rfds wfds con rec j ?rc) s (dispatch_relay E rfds wfds j s)"
  proof (cases "curr_state ?rc = WISH_RELAY_CLIENT_CONNECTING")
    case True
    let ?u = "log_call (CConnect ?fd ?a (con ?fd)) (s\<lparr>world := w\<rparr>)"
    have "served j [CRelayConnected j, CRelayPeriodic j] s (x_relay_periodic E j (log_call (CRelayPeriodic j)
        (x_relay_connected E j (log_call (CRelayConnected j) ?u))))" by (rule world [OF two]) (simp_all add: cb)
    moreover have "served j [CRelayConnectFail j, CClose ?fd] s (sl_close (sockfd (relay j (x_relay_connect_fail E j
        (log_call (CRelayConnectFail j) ?u)))) (x_relay_connect_fail E j (log_call (CRelayConnectFail j) ?u)))"
      by (rule world [OF closed, unfolded same]) (simp_all add: cb)
    moreover have "served j [] s (log_call (CConnect ?fd ?a r) (s\<lparr>world := w\<rparr>))" for r
      by (rule world [OF served_refl]) simp
    ultimately show ?thesis using True assms(4) con
      by (cases "?fd = -1"; cases "?fd \<in> wfds"; simp add: dispatch_relay_def relay_due_def relay_writes_def relay_reads_def Let_def sl_connect_def)
  next
    case False
    obtain r bs where rb: "rec ?fd = (r, bs)" by force
    let ?u = "log_call (CRecv ?fd 1 r) (s\<lparr>world := v\<rparr>)"
    have "served j [CRelayFeed j (hd bs), CRelayPeriodic j] s (x_relay_periodic E j (log_call (CRelayPeriodic j)
        (x_relay_feed E j (hd bs) (log_call (CRelayFeed j (hd bs)) ?u))))" by (rule world [OF two]) (simp_all add: cb)
    moreover have "served j [CRelayDisconnect j, CClose ?fd] s (sl_close (sockfd (relay j (x_relay_disconnect E j
        (log_call (CRelayDisconnect j) ?u)))) (x_relay_disconnect E j (log_call (CRelayDisconnect j) ?u)))"
      by (rule world [OF closed, unfolded same]) (simp_all add: cb)
    moreover have "served j [] s ?u" by (rule world [OF served_refl]) simp
    ultimately show ?thesis using False rec rb
      by (cases "?fd = -1"; cases "?fd \<in> rfds"; cases "r = 0"; simp add: dispatch_relay_def relay_due_def relay_writes_def relay_reads_def Let_def sl_recv_def)
  qed
  show "relay_writes ?rc \<inter> wfds = {} \<Longrightarrow> relay_reads ?rc \<inter> rfds = {} \<Longrightarrow> dispatch_relay E rfds wfds j s = s"
    using assms(4) by (auto simp: dispatch_relay_def relay_writes_def relay_reads_def Let_def split: if_splits)
qed

text \<open>The relays that come later in the list are served from the state in which the pass found them.\<close>

definition idle_relay :: "int set \<Rightarrow> int set \<Rightarrow> wish_relay_client \<Rightarrow> bool" where
  "idle_relay rfds wfds rc \<longleftrightarrow> relay_writes rc \<inter> wfds = {} \<and> relay_reads rc \<inter> rfds = {}"

lemma relay_pass_upto:
  assumes "relays_local E" and "\<forall>fd a w. fst (x_connect E fd a w) = con fd" and "\<forall>fd w. fst (x_recv E fd 1 w) = rec fd"
    and "\<forall>j < length (relay_db (core s)). curr_state (relay j s) = WISH_RELAY_CLIENT_CONNECTING \<longrightarrow> sockfd (relay j s) \<notin> rfds"
    and "m \<le> length (relay_db (core s))" and "t = fold (dispatch_relay E rfds wfds) [0 ..< m] s"
  shows "length (relay_db (core t)) = length (relay_db (core s)) \<and>
    (\<forall>j < length (relay_db (core s)). m \<le> j \<or> idle_relay rfds wfds (relay j s) \<longrightarrow> relay j t = relay j s) \<and>
    relay_log t = relay_log s @ concat (map (\<lambda>j. relay_due E rfds wfds con rec j (relay j s)) [0 ..< m])"
  using assms(5,6)
proof (induction m arbitrary: t)
  case (Suc m)
  let ?t = "fold (dispatch_relay E rfds wfds) [0 ..< m] s" and ?n = "length (relay_db (core s))"
  have m: "m < ?n" using Suc.prems by simp
  note IH = Suc.IH [OF less_imp_le [OF m] refl]
  from IH m have same: "relay m ?t = relay m s" by simp
  with assms(4) m have "curr_state (relay m ?t) = WISH_RELAY_CLIENT_CONNECTING \<longrightarrow> sockfd (relay m ?t) \<notin> rfds" by simp
  note step = dispatch_relay_served [OF assms(1-3) this, unfolded same]
  have t: "t = dispatch_relay E rfds wfds m ?t" using Suc.prems by simp
  have idle: "idle_relay rfds wfds (relay m s) \<Longrightarrow> t = ?t" unfolding t idle_relay_def by (rule step(2)) simp_all
  have st: "served m (relay_due E rfds wfds con rec m (relay m s)) ?t t" unfolding t by (rule step(1))
  have "relay j t = relay j s" if "j < ?n" "Suc m \<le> j \<or> idle_relay rfds wfds (relay j s)" for j
  proof (cases "j = m")
    case True
    with that idle same show ?thesis by auto
  next
    case False
    have "relay j t = relay j ?t" using st False that(1) IH by (simp add: served_def)
    moreover have "relay j ?t = relay j s" using IH that False by auto
    ultimately show ?thesis by simp
  qed
  with st IH show ?case by (simp add: served_def)
qed simp

text \<open>
  Property C21. One pass of the loop over the relay list, for every number of relays and every state they
  are in: exactly the relays that select reports ready for what they wait for are served, in the order of
  the list, each once. A pending connect is repeated and, by its answer, the core is told that the relay is
  connected and its periodic work is run, or nothing is done while it is still pending, or the core is told that it failed and
  the socket is closed. A readable relay hands over one byte and has its periodic work run; an orderly
  shutdown is reported and the socket closed; a read error is ignored. Nothing else is reported and no other
  socket closed, and a relay that is not ready is left as it was. The answers of connect and recv are those of the
  socket library, given per descriptor, and select reports no descriptor readable that a relay has a connect pending on. Of the core's
  relay functions it is demanded that each leaves the other relays, the length of the list and the descriptor alone,
  makes no such report and closes no socket by itself.
\<close>

theorem relay_pass:
  assumes "relays_local E" and "\<forall>fd a w. fst (x_connect E fd a w) = con fd" and "\<forall>fd w. fst (x_recv E fd 1 w) = rec fd"
    and "\<forall>j < length (relay_db (core s)). curr_state (relay j s) = WISH_RELAY_CLIENT_CONNECTING \<longrightarrow> sockfd (relay j s) \<notin> rfds"
  shows "let n = length (relay_db (core s)); t = fold (dispatch_relay E rfds wfds) [0 ..< n] s in
    relay_log t = relay_log s @ concat (map (\<lambda>j. relay_due E rfds wfds con rec j (relay j s)) [0 ..< n]) \<and>
    (\<forall>j < n. idle_relay rfds wfds (relay j s) \<longrightarrow> relay j t = relay j s)"
  using relay_pass_upto [OF assms order_refl refl] by (simp add: Let_def)

text \<open>Three relays: one whose connect fails, one that is not ready, and one with a byte to read.\<close>

definition three_relays :: "unit port" where
  "three_relays = (sample_port ())\<lparr>core := sample_core\<lparr>relay_db :=
     [sample_relay\<lparr>curr_state := WISH_RELAY_CLIENT_CONNECTING, sockfd := 6\<rparr>,
      sample_relay\<lparr>curr_state := WISH_RELAY_CLIENT_OPEN, sockfd := 8\<rparr>,
      sample_relay\<lparr>curr_state := WISH_RELAY_CLIENT_OPEN, sockfd := 9\<rparr>]\<rparr>\<rparr>"

definition failing_connects :: "unit env" where
  "failing_connects = sample_env\<lparr>x_connect := \<lambda>fd a w. (-111, w), x_recv := \<lambda>fd n w. ((1, [65]), w)\<rparr>"

theorem relay_pass_witness:
  "relay_log (fold (dispatch_relay failing_connects {9} {6}) [0 ..< 3] three_relays) =
     [CRelayConnectFail 0, CClose 6, CRelayFeed 2 65, CRelayPeriodic 2]"
proof -
  have "relays_local failing_connects"
    by (simp add: relays_local_def serves_only_def failing_connects_def sample_env_def)
  moreover have "\<forall>j < length (relay_db (core three_relays)). curr_state (relay j three_relays) = WISH_RELAY_CLIENT_CONNECTING \<longrightarrow>
      sockfd (relay j three_relays) \<notin> {9}"
    by (auto simp: three_relays_def relay_def sample_relay_def nth_Cons split: nat.splits)
  ultimately have "relay_log (fold (dispatch_relay failing_connects {9} {6}) [0 ..< 3] three_relays) = relay_log three_relays @
      concat (map (\<lambda>j. relay_due failing_connects {9} {6} (\<lambda>fd. -111) (\<lambda>fd. (1, [65])) j (relay j three_relays)) [0 ..< 3])"
    using relay_pass [of failing_connects "\<lambda>fd. -111" "\<lambda>fd. (1, [65])" three_relays "{9}" "{6}"]
    by (simp add: failing_connects_def Let_def) (simp add: three_relays_def eval_nat_numeral)
  then show ?thesis
    by (simp add: relay_due_def relay_writes_def relay_reads_def relay_log_def three_relays_def failing_connects_def sample_env_def
        upt_rec relay_def sample_relay_def sample_port_def)
qed

lemma of_memory_bytes:
  "x = (case memory_bytes x of [a, b, c, d] \<Rightarrow>
     ucast a OR push_bit 8 (ucast b) OR push_bit 16 (ucast c) OR push_bit 24 (ucast d))"
proof (rule bit_word_eqI)
  fix n
  assume "n < LENGTH(32)"
  then show "bit x n = bit (case memory_bytes x of [a, b, c, d] \<Rightarrow>
      (ucast a :: u32) OR push_bit 8 (ucast b) OR push_bit 16 (ucast c) OR push_bit 24 (ucast d)) n"
    by (cases "n < 24"; cases "n < 16") (auto simp: memory_bytes_def bit_simps)
qed

lemma memory_bytes_inj: "memory_bytes x = memory_bytes y \<longleftrightarrow> x = y"
  by (metis of_memory_bytes)

lemma ucast_addr_word: "(ucast (addr_word a b c d) :: u16) = push_bit 8 (ucast c) OR ucast d"
  by (rule bit_eqI) (auto simp: addr_word_def bit_simps)

lemma memory_bytes_htons:
  "memory_bytes (ucast (htons (push_bit 8 (ucast (c :: byte)) OR ucast (d :: byte)))) = [c, d, 0, 0]"
  unfolding memory_bytes_def list.inject
  by (intro conjI bit_word_eqI) (auto simp: htons_def bit_simps dest: bit_imp_le_length)

text \<open>
  Property C33. The address of that second connect is not the one the relay was opened with.
  With NetworkConfig_Ipv4Value yielding the address with its first byte on top, the 16-bit
  htons drops the two upper bytes: in memory the address is \<open>c.d.0.0\<close> for a relay at
  \<open>a.b.c.d\<close>, which is the relay's address only for 0.0.0.0.
\<close>

theorem relay_second_connect_address:
  assumes "port_relay_ip s = Ip a b c d" and "x_ipv4_value E (Ip a b c d) = addr_word a b c d"
    and "curr_state (relay j s) = WISH_RELAY_CLIENT_CONNECTING" and "sockfd (relay j s) = fd"
    and "fd \<noteq> -1" and "fd \<in> wfds" and "\<forall>fd a w. fst (x_connect E fd a w) = sl_ealready E" and "sl_ealready E < 0"
  shows "\<exists>v. calls (dispatch_relay E rfds wfds j s) = calls s @ [CConnect fd
      \<lparr>sin_family = AF_INET, sin_port = htons (relay_port (relay j s)), sin_addr = v\<rparr> (sl_ealready E)] \<and>
    memory_bytes v = [c, d, 0, 0] \<and> (v = net_addr (Ip a b c d) \<longleftrightarrow> Ip a b c d = Ip 0 0 0 0)"
proof -
  let ?v = "ucast (htons (ucast (addr_word a b c d))) :: u32"
  have m: "memory_bytes ?v = [c, d, 0, 0]" unfolding ucast_addr_word by (rule memory_bytes_htons)
  have "v = net_addr (Ip a b c d) \<longleftrightarrow> memory_bytes v = [a, b, c, d]" for v
    by (metis ip_bytes.simps memory_bytes_inj memory_bytes_net_addr)
  with m have "?v = net_addr (Ip a b c d) \<longleftrightarrow> [c, d, 0, 0] = [a, b, c, d]" by metis
  moreover have "calls (dispatch_relay E rfds wfds j s) = calls s @ [CConnect fd
      \<lparr>sin_family = AF_INET, sin_port = htons (relay_port (relay j s)), sin_addr = ?v\<rparr> (sl_ealready E)]"
  proof -
    let ?a = "\<lparr>sin_family = AF_INET, sin_port = htons (relay_port (relay j s)), sin_addr = ?v\<rparr>"
    obtain w where "x_connect E fd ?a (world s) = (sl_ealready E, w)" using assms(7) by (metis prod.collapse)
    with assms show ?thesis by (simp add: dispatch_relay_def sl_connect_def port_get_relay_ip_def Let_def)
  qed
  ultimately show ?thesis using m by (intro exI [of _ ?v]) auto
qed

theorem relay_second_connect_address_witness:
  "\<exists>v. calls (dispatch_relay (sample_env\<lparr>x_ipv4_value := \<lambda>ip. case ip of Ip a b c d \<Rightarrow> addr_word a b c d\<rparr>) {} {6} 0
      ((upd_relay 0 (\<lambda>r. r\<lparr>curr_state := WISH_RELAY_CLIENT_CONNECTING, sockfd := 6\<rparr>) (sample_port ()))
         \<lparr>port_relay_ip := Ip 193 65 54 131\<rparr>)) =
     [CConnect 6 \<lparr>sin_family = AF_INET, sin_port = htons 40000, sin_addr = v\<rparr> (-114)] \<and>
    memory_bytes v = [54, 131, 0, 0] \<and> (v = net_addr (Ip 193 65 54 131) \<longleftrightarrow> Ip 193 65 54 131 = Ip 0 0 0 0)"
  using relay_second_connect_address [of "(upd_relay 0 (\<lambda>r. r\<lparr>curr_state := WISH_RELAY_CLIENT_CONNECTING, sockfd := 6\<rparr>)
      (sample_port ()))\<lparr>port_relay_ip := Ip 193 65 54 131\<rparr>" 193 65 54 131
      "sample_env\<lparr>x_ipv4_value := \<lambda>ip. case ip of Ip a b c d \<Rightarrow> addr_word a b c d\<rparr>" 0 6 "{6}" "{}"]
  by (simp add: sample_env_def del: wish_ip_addr.inject) (simp add: sample_port_def sample_core_def sample_relay_def relay_def upd_relay_def)

section \<open>Accepting a connection\<close>

text \<open>
  Property C19. A client at the server socket: the accepted socket is made nonblocking and the core is asked
  for a context. When the core has no free context the socket is closed at once. Otherwise the port allocates a
  block: if malloc succeeds, the fresh block with the socket
  becomes the send argument of the context and the core is told that a client has connected; if malloc fails, the port
  writes through the NULL pointer.
  The answer of accept is not looked at: a negative one is registered as the connection's
  descriptor and reported as a client just the same. Of the core it is demanded that registering the send argument
  stores it.
\<close>

theorem accept_outcome:
  assumes "x_accept E server_fd (world s) = (newfd, w)" and "register_send_stores E"
    and "x_connection_init E (s\<lparr>world := w, calls := calls s @ [CAccept server_fd newfd, CNonblock newfd]\<rparr>) = (ctx, u)"
  shows "case ctx of
      None \<Rightarrow> accept_conn E server_fd s = Some (sl_close newfd u)
    | Some i \<Rightarrow> if fst (x_malloc E (world u))
        then \<exists>v. accept_conn E server_fd s = Some (signal E i TCP_CLIENT_CONNECTED v) \<and>
          slots v = (slots u)[i := Some (next_ptr u)] \<and> sock_fd (heap v (next_ptr u)) = newfd \<and>
          live v = insert (next_ptr u) (live u) \<and> calls v = calls u @ [CRegisterSend i (next_ptr u)]
        else accept_conn E server_fd s = None"
proof -
  have eq: "socket_set_nonblocking newfd (log_call (CAccept server_fd newfd) (s\<lparr>world := w\<rparr>)) =
      s\<lparr>world := w, calls := calls s @ [CAccept server_fd newfd, CNonblock newfd]\<rparr>"
    by (simp add: socket_set_nonblocking_def log_call_def)
  obtain b w2 where m: "x_malloc E (world u) = (b, w2)" by force
  show ?thesis
  proof (cases ctx)
    case None
    with assms eq show ?thesis by (simp add: accept_conn_def sl_accept_def)
  next
    case (Some i)
    with assms eq m show ?thesis
      by (cases b) (auto simp: accept_conn_def sl_accept_def malloc_def store_def register_send_stores_def)
  qed
qed

theorem accept_outcome_witness:
  "\<exists>v. accept_conn (sample_env\<lparr>x_accept := \<lambda>fd w. (-11, w), x_connection_init := \<lambda>s. (Some 0, s)\<rparr>) 3 (sample_port ()) =
       Some (signal (sample_env\<lparr>x_accept := \<lambda>fd w. (-11, w), x_connection_init := \<lambda>s. (Some 0, s)\<rparr>) 0 TCP_CLIENT_CONNECTED v) \<and>
     sock_fd (heap v 0) = -11 \<and> calls v = [CAccept 3 (-11), CNonblock (-11), CRegisterSend 0 0]"
  using accept_outcome [of "sample_env\<lparr>x_accept := \<lambda>fd w. (-11, w), x_connection_init := \<lambda>s. (Some 0, s)\<rparr>" 3
      "sample_port ()" "-11" "()" "Some 0" "(sample_port ())\<lparr>world := (), calls := [CAccept 3 (-11), CNonblock (-11)]\<rparr>"]
  by (auto simp: register_send_stores_def sample_env_def sample_port_def)

section \<open>Timers\<close>

text \<open>How often a sequence of second counts exceeds everything seen before.\<close>

fun advances :: "int \<Rightarrow> int list \<Rightarrow> nat" where
  "advances p [] = 0"
| "advances p (x # xs) = (if x > p then Suc (advances x xs) else advances p xs)"

definition periodic_runs :: "call list \<Rightarrow> nat" where
  "periodic_runs cs = length (filter (\<lambda>c. c = CSensorsPeriodic) cs)"

definition hooks_passive :: "'x env \<Rightarrow> bool" where
  "hooks_passive E \<longleftrightarrow> (\<forall>s. \<forall>f \<in> {x_time_report E, x_sensors_periodic E}.
     periodic_timestamp (f s) = periodic_timestamp s \<and> calls (f s) = calls s)"

lemma periodic_runs_core:
  assumes "hooks_passive E"
  shows "periodic_timestamp (fold (periodic E) secs s) = fold max secs (periodic_timestamp s) \<and>
     periodic_runs (calls (fold (periodic E) secs s)) = periodic_runs (calls s) + advances (periodic_timestamp s) secs"
proof (induction secs arbitrary: s)
  case (Cons x xs)
  have "periodic_timestamp (periodic E x s) = max x (periodic_timestamp s) \<and>
      periodic_runs (calls (periodic E x s)) = periodic_runs (calls s) + (if x > periodic_timestamp s then 1 else 0)"
    using assms by (auto simp: periodic_def hooks_passive_def periodic_runs_def Let_def)
  with Cons.IH [of "periodic E x s"] show ?case by (auto simp: max_def)
qed simp

text \<open>
  Over any sequence of turns, the periodic work (time report and sensors) runs
  exactly once for each turn whose second count exceeds all earlier ones, so at most once a
  second however often the loop turns.
\<close>

theorem periodic_once_a_second:
  assumes "hooks_passive E"
  shows "periodic_timestamp (fold (periodic E) secs s) = fold max secs (periodic_timestamp s) \<and>
     periodic_runs (calls (fold (periodic E) secs s)) = periodic_runs (calls s) + advances (periodic_timestamp s) secs"
  using assms by (rule periodic_runs_core)

theorem periodic_once_a_second_witness:
  "periodic_runs (calls (fold (periodic sample_env) [1, 1, 2, 2, 1, 3] (sample_port ()))) = 3"
  using periodic_once_a_second [of sample_env "[1, 1, 2, 2, 1, 3]" "sample_port ()"]
  by (simp add: hooks_passive_def sample_env_def sample_port_def periodic_runs_def)

lemma seconds_bounds: "0 \<le> seconds E tick \<and> seconds E tick \<le> 4294967"
proof -
  have "uint (tick div port_tick_rate_ms E) < 4294967296"
    using uint_lt2p [of "tick div port_tick_rate_ms E"] by simp
  moreover have "0 \<le> n div 1000 \<and> n div 1000 \<le> 4294967" if "0 \<le> n" "n < 4294967296" for n :: int
    using that by auto
  ultimately show ?thesis unfolding seconds_def by simp
qed

text \<open>
  Property C35. The tick counter has 32 bits, so the second count never exceeds 4294967. A
  turn that runs the periodic work while the count has that value (the last 296 milliseconds
  before the counter wraps, for one tick a millisecond) is the last one that ever does: no
  later value of the counter starts it again.
\<close>

theorem periodic_stops_after_wrap:
  assumes "periodic_timestamp s = 4294967"
  shows "fold (\<lambda>tick. periodic E (seconds E tick)) ticks s = s"
proof -
  have "periodic E (seconds E tick) s = s" for tick
    using seconds_bounds [of E tick] assms by (simp add: periodic_def)
  then show ?thesis by (induction ticks) simp_all
qed

theorem periodic_stops_after_wrap_witness:
  "fold (\<lambda>tick. periodic sample_env (seconds sample_env tick)) [0, 5000, 4294967295]
     ((sample_port ())\<lparr>periodic_timestamp := 4294967\<rparr>) = (sample_port ())\<lparr>periodic_timestamp := 4294967\<rparr> \<and>
   seconds sample_env 4294967000 = 4294967"
  using periodic_stops_after_wrap [of "(sample_port ())\<lparr>periodic_timestamp := 4294967\<rparr>" sample_env "[0, 5000, 4294967295]"]
  by (simp del: fold_simps) (simp add: seconds_def sample_env_def)

end
