(* ===== verification/Time_Helper.thy ===== *)
theory Time_Helper
  imports Complex_Main Prelude
begin

text \<open>
  \<open>source/mist_port/time_helper.c\<close>: the difference of two times.  On the 32-bit ARM target
  \<open>int\<close>, \<open>long\<close> and the fields of \<open>struct timeval\<close> have 32 bits: \<open>c_int\<close> keeps a result that
  fits them, and a signed overflow has no result.  The double is a real number that is rounded
  after each operation to 53 significant bits, as IEEE 754 demands; the conversions of 32-bit
  integers are exact, and the results are far from the ends of the exponent range.  C's integer division is only applied to positive
  numbers, where it is \<open>div\<close>.  The three pointers are different objects.
\<close>

section \<open>Machine arithmetic\<close>

definition c_int :: "int \<Rightarrow> int option" where
  "c_int v = (if - (2 ^ 31) \<le> v \<and> v < 2 ^ 31 then Some v else None)"

lemma c_int_fits [simp]: "- 2147483648 \<le> v \<Longrightarrow> v < 2147483648 \<Longrightarrow> c_int v = Some v"
  by (simp add: c_int_def)

text \<open>Rounding to the nearest integer, and to the even one of two that are equally near.\<close>

definition round_even :: "real \<Rightarrow> int" where
  "round_even x =
     (let n = \<lfloor>x\<rfloor>; d = x - of_int n
      in if d < 1 / 2 then n else if d > 1 / 2 then n + 1 else if even n then n else n + 1)"

definition double_round :: "real \<Rightarrow> real" where
  "double_round x =
     (if x = 0 then 0
      else let ulp = 2 powr (of_int \<lfloor>log 2 \<bar>x\<bar>\<rfloor> - 52) in of_int (round_even (x / ulp)) * ulp)"

lemma round_even_near: "\<bar>of_int (round_even x) - x\<bar> \<le> 1 / 2"
  unfolding round_even_def Let_def by (auto simp: abs_if; linarith)

lemma round_even_int [simp]: "round_even (of_int n) = n"
  by (simp add: round_even_def)

lemma double_round_near: "\<bar>double_round x - x\<bar> \<le> \<bar>x\<bar> / 2 ^ 53"
proof (cases "x = 0")
  case False
  let ?e = "of_int \<lfloor>log 2 \<bar>x\<bar>\<rfloor> :: real" and ?u = "2 powr (of_int \<lfloor>log 2 \<bar>x\<bar>\<rfloor> - 52) :: real"
  have u: "0 < ?u" by simp
  have "double_round x - x = (of_int (round_even (x / ?u)) - x / ?u) * ?u"
    using False u by (simp add: double_round_def Let_def field_simps)
  then have "\<bar>double_round x - x\<bar> = \<bar>of_int (round_even (x / ?u)) - x / ?u\<bar> * ?u"
    by (simp add: abs_mult)
  also have "\<dots> \<le> 1 / 2 * ?u" by (rule mult_right_mono [OF round_even_near]) simp
  also have "?u = 2 powr ?e / 2 ^ 52" by (simp add: powr_diff)
  also have "2 powr ?e \<le> 2 powr (log 2 \<bar>x\<bar>)" by simp
  also have "2 powr (log 2 \<bar>x\<bar>) = \<bar>x\<bar>" using False by simp
  finally show ?thesis by (simp add: field_simps)
qed (simp add: double_round_def)

lemma double_round_simps [simp]: "double_round 0 = 0" "double_round 1 = 1"
proof -
  have "1 / 2 powr (- 52) = (of_int (2 ^ 52) :: real)" by (simp add: powr_minus_divide)
  then have "round_even (1 / 2 powr (- 52)) = 2 ^ 52" by (simp only: round_even_int)
  then show "double_round 1 = 1" by (simp add: double_round_def powr_minus_divide)
qed (simp add: double_round_def)

section \<open>The difference\<close>

record timeval =
  tv_sec :: int
  tv_usec :: int

text \<open>The returned double: the conversions are exact, the division and the sum are rounded.\<close>

definition seconds_double :: "int \<Rightarrow> int \<Rightarrow> real" where
  "seconds_double t u = double_round (of_int t + double_round (of_int u / 1000000))"

text \<open>The result, and what the function leaves in \<open>*result\<close> and \<open>*y\<close>; none after an overflow.\<close>

definition timeval_subtract :: "timeval \<Rightarrow> timeval \<Rightarrow> (real \<times> timeval \<times> timeval) option" where
  "timeval_subtract x y0 = do {
     y \<leftarrow> (if tv_usec x < tv_usec y0 then do {
              d \<leftarrow> c_int (tv_usec y0 - tv_usec x);
              nsec \<leftarrow> c_int (d div 1000000 + 1);
              us \<leftarrow> c_int (1000000 * nsec);
              u \<leftarrow> c_int (tv_usec y0 - us);
              t \<leftarrow> c_int (tv_sec y0 + nsec);
              Some (y0\<lparr>tv_usec := u, tv_sec := t\<rparr>)
            } else Some y0);
     d \<leftarrow> c_int (tv_usec x - tv_usec y);
     y \<leftarrow> (if d > 1000000 then do {
              nsec \<leftarrow> c_int (d div 1000000);
              us \<leftarrow> c_int (1000000 * nsec);
              u \<leftarrow> c_int (tv_usec y + us);
              t \<leftarrow> c_int (tv_sec y - nsec);
              Some (y\<lparr>tv_usec := u, tv_sec := t\<rparr>)
            } else Some y);
     t \<leftarrow> c_int (tv_sec x - tv_sec y);
     u \<leftarrow> c_int (tv_usec x - tv_usec y);
     Some (seconds_double t u, \<lparr>tv_sec = t, tv_usec = u\<rparr>, y)
   }"

definition micros :: "timeval \<Rightarrow> int" where
  "micros t = 1000000 * tv_sec t + tv_usec t"

lemma carry_bounds:
  fixes d :: int
  shows "0 < d \<Longrightarrow> 0 < 1000000 * (d div 1000000 + 1) - d \<and> 1000000 * (d div 1000000 + 1) - d \<le> 1000000"
    and "0 \<le> d - 1000000 * (d div 1000000) \<and> d - 1000000 * (d div 1000000) < 1000000"
  by presburger+

text \<open>The carried subtrahend, and that no operation on the way to it overflows.\<close>

lemma timeval_subtract_carry:
  assumes "\<bar>tv_usec x\<bar> \<le> 10 ^ 9" and "\<bar>tv_usec y\<bar> \<le> 10 ^ 9"
    and "\<bar>tv_sec y\<bar> < 2 ^ 31 - 2001" and "\<bar>tv_sec x - tv_sec y\<bar> < 2 ^ 31 - 2001"
  shows "\<exists>t u y'. timeval_subtract x y = Some (seconds_double t u, \<lparr>tv_sec = t, tv_usec = u\<rparr>, y') \<and>
    1000000 * t + u = micros x - micros y \<and> 0 \<le> u \<and> u \<le> 1000000 \<and> \<bar>t\<bar> < 2 ^ 31 \<and> micros y' = micros y"
proof -
  consider "tv_usec x < tv_usec y" | "tv_usec y \<le> tv_usec x" "tv_usec x - tv_usec y \<le> 1000000"
    | "1000000 < tv_usec x - tv_usec y" by linarith
  then show ?thesis
  proof cases
    case 1
    define n where "n = (tv_usec y - tv_usec x) div 1000000 + 1"
    have b: "0 < 1000000 * n - (tv_usec y - tv_usec x)" "1000000 * n - (tv_usec y - tv_usec x) \<le> 1000000"
      using carry_bounds(1) [of "tv_usec y - tv_usec x"] 1 by (simp_all add: n_def)
    have n: "1 \<le> n" "n \<le> 2001" using 1 assms by (auto simp: n_def)
    let ?y = "y\<lparr>tv_usec := tv_usec y - 1000000 * n, tv_sec := tv_sec y + n\<rparr>"
    have "timeval_subtract x y = Some (seconds_double (tv_sec x - tv_sec ?y) (tv_usec x - tv_usec ?y),
        \<lparr>tv_sec = tv_sec x - tv_sec ?y, tv_usec = tv_usec x - tv_usec ?y\<rparr>, ?y)"
      using 1 b assms n by (simp add: timeval_subtract_def n_def [symmetric])
    with b assms n show ?thesis by - (intro exI conjI, assumption, auto simp: micros_def)
  next
    case 2
    let ?t = "tv_sec x - tv_sec y" and ?u = "tv_usec x - tv_usec y"
    have "timeval_subtract x y = Some (seconds_double ?t ?u, \<lparr>tv_sec = ?t, tv_usec = ?u\<rparr>, y)"
      using 2 assms by (simp add: timeval_subtract_def)
    with 2 assms show ?thesis by - (intro exI conjI, assumption, auto simp: micros_def)
  next
    case 3
    define n where "n = (tv_usec x - tv_usec y) div 1000000"
    have b: "0 \<le> tv_usec x - tv_usec y - 1000000 * n" "tv_usec x - tv_usec y - 1000000 * n < 1000000"
      using carry_bounds(2) [of "tv_usec x - tv_usec y"] by (simp_all add: n_def)
    have n: "0 \<le> n" "n \<le> 2000" using 3 assms by (auto simp: n_def)
    let ?y = "y\<lparr>tv_usec := tv_usec y + 1000000 * n, tv_sec := tv_sec y - n\<rparr>"
    have "timeval_subtract x y = Some (seconds_double (tv_sec x - tv_sec ?y) (tv_usec x - tv_usec ?y),
        \<lparr>tv_sec = tv_sec x - tv_sec ?y, tv_usec = tv_usec x - tv_usec ?y\<rparr>, ?y)"
      using 3 b assms n by (simp add: timeval_subtract_def n_def [symmetric])
    with b assms n show ?thesis by - (intro exI conjI, assumption, auto simp: micros_def)
  qed
qed

text \<open>The two roundings together lose less than half a microsecond.\<close>

lemma seconds_double_near:
  assumes "0 \<le> u" and "u \<le> 1000000" and "\<bar>t\<bar> < 2 ^ 31"
  shows "\<bar>1000000 * seconds_double t u - of_int (1000000 * t + u)\<bar> < 1 / 2"
    and "1000000 * t + u = 0 \<Longrightarrow> seconds_double t u = 0"
proof -
  define q where "q = double_round (of_int u / 1000000)"
  define r where "r = seconds_double t u"
  have r: "r = double_round (of_int t + q)" by (simp add: r_def q_def seconds_double_def)
  have "\<bar>of_int u / 1000000 :: real\<bar> \<le> 1" using assms(1,2) by simp
  with double_round_near [of "of_int u / 1000000"] have "\<bar>q - of_int u / 1000000\<bar> \<le> 1 / 2 ^ 53"
    unfolding q_def by (simp add: divide_right_mono order_trans)
  then have q: "\<bar>q - of_int u / 1000000\<bar> \<le> 1 / 9000000" by (rule order_trans) simp
  have "real_of_int \<bar>t\<bar> < real_of_int (2 ^ 31)" using assms(3) by (simp only: of_int_less_iff)
  then have "\<bar>of_int t :: real\<bar> < 2147483648" by simp
  with q \<open>\<bar>of_int u / 1000000 :: real\<bar> \<le> 1\<close> have "\<bar>of_int t + q\<bar> \<le> 2147483650" by linarith
  with double_round_near [of "of_int t + q"] have "\<bar>r - (of_int t + q)\<bar> \<le> 2147483650 / 2 ^ 53"
    unfolding r by (simp add: divide_right_mono order_trans)
  then have "\<bar>r - (of_int t + q)\<bar> \<le> 1 / 4000000" by (rule order_trans) simp
  then have a: "r \<le> of_int t + q + 1 / 4000000" "of_int t + q - 1 / 4000000 \<le> r" by linarith+
  from q have b: "q \<le> of_int u / 1000000 + 1 / 9000000" "of_int u / 1000000 - 1 / 9000000 \<le> q" by linarith+
  have "1000000 * r < 1000000 * of_int t + of_int u + 1 / 2" using a(1) b(1) by (simp add: field_simps)
  moreover have "1000000 * of_int t + of_int u - 1 / 2 < 1000000 * r" using a(2) b(2) by (simp add: field_simps)
  ultimately show "\<bar>1000000 * seconds_double t u - of_int (1000000 * t + u)\<bar> < 1 / 2"
    unfolding r_def [symmetric] abs_less_iff by (auto simp: algebra_simps)
next
  assume z: "1000000 * t + u = 0"
  with assms(1,2) have "-1 \<le> t" "t \<le> 0" by linarith+
  then have "t = 0 \<or> t = -1" by linarith
  with z have "t = 0 \<and> u = 0 \<or> t = -1 \<and> u = 1000000" by auto
  then show "seconds_double t u = 0" by (auto simp: seconds_double_def)
qed

text \<open>
  Property C36. timeval_subtract at the width of the machine, for times normalised or not: their
  microseconds may be anything up to \<open>10 ^ 9\<close> in absolute value, and the seconds of the subtrahend and the
  difference of the seconds must stay 2001 below the limit of 32 bits, room for the carry. Then no operation
  overflows; the result stands exactly for the difference in microseconds, with microseconds
  between 0 and 1000000; the subtrahend, although rewritten, still stands for the same time; and the
  returned double, with its two roundings, is so close that the difference is the nearest whole number
  of microseconds. Its sign tells which time is later, and it is 0 exactly for equal times, where
  the comment promises 1 or 0.
\<close>

theorem timeval_subtract_exact:
  assumes "\<bar>tv_usec x\<bar> \<le> 10 ^ 9" and "\<bar>tv_usec y\<bar> \<le> 10 ^ 9"
    and "\<bar>tv_sec y\<bar> < 2 ^ 31 - 2001" and "\<bar>tv_sec x - tv_sec y\<bar> < 2 ^ 31 - 2001"
  shows "case timeval_subtract x y of None \<Rightarrow> False | Some (r, result, y') \<Rightarrow>
     micros result = micros x - micros y \<and> 0 \<le> tv_usec result \<and> tv_usec result \<le> 1000000 \<and>
     micros y' = micros y \<and> round (1000000 * r) = micros x - micros y \<and>
     (r < 0 \<longleftrightarrow> micros x < micros y) \<and> (r = 0 \<longleftrightarrow> micros x = micros y)"
proof -
  obtain t u y' where e: "timeval_subtract x y = Some (seconds_double t u, \<lparr>tv_sec = t, tv_usec = u\<rparr>, y')"
    "1000000 * t + u = micros x - micros y" "0 \<le> u" "u \<le> 1000000" "\<bar>t\<bar> < 2 ^ 31" "micros y' = micros y"
    using timeval_subtract_carry [OF assms] by blast
  define r and d where "r = seconds_double t u" and "d = micros x - micros y"
  have near: "\<bar>1000000 * r - of_int d\<bar> < 1 / 2" "d = 0 \<Longrightarrow> r = 0"
    using seconds_double_near [OF e(3-5)] e(2) by (simp_all only: r_def d_def)
  have "round (1000000 * r) = d" by (rule round_unique') (use near(1) in simp)
  moreover have "(r < 0 \<longleftrightarrow> d < 0) \<and> (r = 0 \<longleftrightarrow> d = 0)"
  proof -
    consider "d \<le> -1" | "d = 0" | "1 \<le> d" by linarith
    then show ?thesis
    proof cases
      case 1
      then have "real_of_int d \<le> -1" by linarith
      with near(1) have "r < 0" by linarith
      with 1 show ?thesis by simp
    next
      case 3
      then have "1 \<le> real_of_int d" by linarith
      with near(1) have "0 < r" by linarith
      with 3 show ?thesis by simp
    qed (use near(2) in simp)
  qed
  ultimately show ?thesis using e by (simp add: r_def d_def micros_def)
qed

theorem timeval_subtract_exact_witness:
  "case timeval_subtract \<lparr>tv_sec = 5, tv_usec = 100000\<rparr> \<lparr>tv_sec = 3, tv_usec = 900000\<rparr> of None \<Rightarrow> False
   | Some (r, result, y') \<Rightarrow> micros result = 1200000 \<and> round (1000000 * r) = 1200000 \<and> micros y' = 3900000"
  using timeval_subtract_exact [of "\<lparr>tv_sec = 5, tv_usec = 100000\<rparr>" "\<lparr>tv_sec = 3, tv_usec = 900000\<rparr>"]
  by (auto simp: micros_def split: option.splits)

end
