(* ===== verification/Spiffs_Integration.thy ===== *)
theory Spiffs_Integration
  imports Prelude
begin

text \<open>
  \<open>source/spiffs_integration.c\<close>: the flash file system of the port.  SPIFFS itself and
  the flash driver of the board are not part of the repository: the driver is the record
  \<open>flash_api\<close> and the file system the record \<open>spiffs_api\<close>, on states of their own.  The
  my_spiffs_ functions are what SPIFFS calls, the my_fs_ functions what the Wish core calls.
\<close>

section \<open>The flash side\<close>

record 'f flash_api =
  flash_read :: "u32 \<Rightarrow> u32 \<Rightarrow> 'f \<Rightarrow> (bool \<times> byte list) \<times> 'f"
  flash_write :: "u32 \<Rightarrow> byte list \<Rightarrow> 'f \<Rightarrow> bool \<times> 'f"
  flash_erase :: "u32 \<Rightarrow> u32 \<Rightarrow> 'f \<Rightarrow> bool \<times> 'f"
  flash_page_size :: u32
  SPIFFS_ERR_INTERNAL :: int

definition SPIFFS_OK :: int where
  "SPIFFS_OK = 0"

definition my_spiffs_read :: "'f flash_api \<Rightarrow> u32 \<Rightarrow> u32 \<Rightarrow> 'f \<Rightarrow> (int \<times> byte list) \<times> 'f" where
  "my_spiffs_read F addr n s = (case flash_read F addr n s of
     ((ok, dst), s) \<Rightarrow> if \<not> ok then ((SPIFFS_ERR_INTERNAL F, dst), s) else ((SPIFFS_OK, dst), s))"

definition my_spiffs_write :: "'f flash_api \<Rightarrow> u32 \<Rightarrow> byte list \<Rightarrow> 'f \<Rightarrow> int \<times> 'f" where
  "my_spiffs_write F addr src s = (case flash_write F addr src s of
     (ok, s) \<Rightarrow> if \<not> ok then (SPIFFS_ERR_INTERNAL F, s) else (SPIFFS_OK, s))"

definition my_spiffs_erase :: "'f flash_api \<Rightarrow> u32 \<Rightarrow> u32 \<Rightarrow> 'f \<Rightarrow> int \<times> 'f" where
  "my_spiffs_erase F addr n s = (let page_count = n div flash_page_size F in
     case flash_erase F addr page_count s of
       (ok, s) \<Rightarrow> if \<not> ok then (SPIFFS_ERR_INTERNAL F, s) else (SPIFFS_OK, s))"

section \<open>Mounting\<close>

definition LOG_PAGE_SIZE :: nat where
  "LOG_PAGE_SIZE = 256"

definition spiffs_work_buf_size :: nat where
  "spiffs_work_buf_size = LOG_PAGE_SIZE * 2"

definition spiffs_fds_size :: nat where
  "spiffs_fds_size = 32 * 4"

definition spiffs_cache_buf_size :: nat where
  "spiffs_cache_buf_size = (LOG_PAGE_SIZE + 32) * 4"

definition SPIFFS_FLASH_ADDR :: u32 where
  "SPIFFS_FLASH_ADDR = 0xFC000"

definition SPIFFS_SIZE :: u32 where
  "SPIFFS_SIZE = 16 * 1024"

record 'f spiffs_config =
  phys_size :: u32
  phys_addr :: u32
  phys_erase_block :: u32
  log_block_size :: u32
  log_page_size :: u32
  hal_read_f :: "u32 \<Rightarrow> u32 \<Rightarrow> 'f \<Rightarrow> (int \<times> byte list) \<times> 'f"
  hal_write_f :: "u32 \<Rightarrow> byte list \<Rightarrow> 'f \<Rightarrow> int \<times> 'f"
  hal_erase_f :: "u32 \<Rightarrow> u32 \<Rightarrow> 'f \<Rightarrow> int \<times> 'f"

definition my_spiffs_mount ::
  "'f flash_api \<Rightarrow> ('f spiffs_config \<Rightarrow> nat \<Rightarrow> nat \<Rightarrow> nat \<Rightarrow> 's \<Rightarrow> int \<times> 's) \<Rightarrow> 's \<Rightarrow> 's" where
  "my_spiffs_mount F SPIFFS_mount s =
     (let cfg = \<lparr>phys_size = SPIFFS_SIZE, phys_addr = SPIFFS_FLASH_ADDR,
                 phys_erase_block = flash_page_size F, log_block_size = flash_page_size F,
                 log_page_size = of_nat LOG_PAGE_SIZE, hal_read_f = my_spiffs_read F,
                 hal_write_f = my_spiffs_write F, hal_erase_f = my_spiffs_erase F\<rparr>
      in snd (SPIFFS_mount cfg spiffs_work_buf_size spiffs_fds_size spiffs_cache_buf_size s))"

definition my_spiffs_erase_area :: "'f flash_api \<Rightarrow> 'f \<Rightarrow> 'f" where
  "my_spiffs_erase_area F s = snd (my_spiffs_erase F SPIFFS_FLASH_ADDR SPIFFS_SIZE s)"

section \<open>The file operations of the Wish core\<close>

datatype open_flag = SPIFFS_CREAT | SPIFFS_RDWR

record 's spiffs_api =
  sp_open :: "string \<Rightarrow> open_flag set \<Rightarrow> 's \<Rightarrow> int \<times> 's"
  sp_read :: "int \<Rightarrow> nat \<Rightarrow> 's \<Rightarrow> (int \<times> byte list) \<times> 's"
  sp_write :: "int \<Rightarrow> byte list \<Rightarrow> 's \<Rightarrow> int \<times> 's"
  sp_lseek :: "int \<Rightarrow> int \<Rightarrow> int \<Rightarrow> 's \<Rightarrow> int \<times> 's"
  sp_close :: "int \<Rightarrow> 's \<Rightarrow> int \<times> 's"
  sp_rename :: "string \<Rightarrow> string \<Rightarrow> 's \<Rightarrow> int \<times> 's"
  sp_remove :: "string \<Rightarrow> 's \<Rightarrow> int \<times> 's"
  SPIFFS_ERR_END_OF_OBJECT :: int

definition my_fs_open :: "'s spiffs_api \<Rightarrow> string \<Rightarrow> 's \<Rightarrow> int \<times> 's" where
  "my_fs_open P pathname s = sp_open P pathname {SPIFFS_CREAT, SPIFFS_RDWR} s"

definition my_fs_read :: "'s spiffs_api \<Rightarrow> int \<Rightarrow> nat \<Rightarrow> 's \<Rightarrow> (int \<times> byte list) \<times> 's" where
  "my_fs_read P fd count s = (case sp_read P fd count s of
     ((ret, buf), s) \<Rightarrow>
       if ret < 0 then (if ret = SPIFFS_ERR_END_OF_OBJECT P then ((0, buf), s) else ((ret, buf), s))
       else ((ret, buf), s))"

definition my_fs_write :: "'s spiffs_api \<Rightarrow> int \<Rightarrow> byte list \<Rightarrow> 's \<Rightarrow> int \<times> 's" where
  "my_fs_write P fd buf s = sp_write P fd buf s"

definition my_fs_lseek :: "'s spiffs_api \<Rightarrow> int \<Rightarrow> int \<Rightarrow> int \<Rightarrow> 's \<Rightarrow> int \<times> 's" where
  "my_fs_lseek P fd offset whence s = sp_lseek P fd offset whence s"

definition my_fs_close :: "'s spiffs_api \<Rightarrow> int \<Rightarrow> 's \<Rightarrow> int \<times> 's" where
  "my_fs_close P fd s = sp_close P fd s"

definition my_fs_rename :: "'s spiffs_api \<Rightarrow> string \<Rightarrow> string \<Rightarrow> 's \<Rightarrow> int \<times> 's" where
  "my_fs_rename P oldpath newpath s = sp_rename P oldpath newpath s"

definition my_fs_remove :: "'s spiffs_api \<Rightarrow> string \<Rightarrow> 's \<Rightarrow> int \<times> 's" where
  "my_fs_remove P path s = sp_remove P path s"

section \<open>The self-test\<close>

text \<open>
  my_spiffs_test reads a file, compares it with the test pattern, and writes the pattern to
  it.  The verdict is what the comparison prints; bytes that the read did not fill are 0.
\<close>

definition test_data :: "byte list" where
  "test_data = replicate 1024 0xA5"

definition my_spiffs_test :: "'s spiffs_api \<Rightarrow> 's \<Rightarrow> bool \<times> 's" where
  "my_spiffs_test P s =
     (let (fd, s) = sp_open P ''my_file'' {SPIFFS_RDWR} s;
          ((io_len, bytes), s) = sp_read P fd (length test_data) s;
          (_, s) = sp_close P fd s;
          read_buf = take (length test_data) (bytes @ replicate (length test_data) 0);
          equal = (test_data = read_buf);
          (fd, s) = sp_open P ''my_file'' {SPIFFS_CREAT, SPIFFS_RDWR} s;
          (io_len, s) = sp_write P fd test_data s;
          (_, s) = sp_close P fd s;
          (fd, s) = sp_open P ''my_file'' {SPIFFS_RDWR} s;
          ((io_len, _), s) = sp_read P fd (length test_data) s;
          (_, s) = sp_close P fd s
      in (equal, s))"

section \<open>What is promised\<close>

text \<open>
  A flash whose contents are a map from addresses to bytes, and whose erase sets the bytes of
  \<open>n\<close> whole pages to 0xFF.
\<close>

definition erases_pages :: "(nat \<Rightarrow> byte) flash_api \<Rightarrow> bool" where
  "erases_pages F \<longleftrightarrow> (\<forall>addr n s. flash_erase F addr n s =
     (True, \<lambda>a. if unat addr \<le> a \<and> a < unat addr + unat n * unat (flash_page_size F) then 0xFF else s a))"

lemma unat_div_mult: "unat p dvd unat (n :: u32) \<Longrightarrow> unat (n div p) * unat p = unat n"
  by (simp add: unat_div)

text \<open>
  Property C37. The file system occupies the last 16 KiB of the 1 MiB flash and nothing else:
  for a flash page size that divides 16 KiB, erasing the area erases exactly the addresses
  from 0xFC000 up to the end of the flash and answers success.
\<close>

theorem erase_area_exact:
  assumes "erases_pages F" and "unat (flash_page_size F) dvd 16384"
  shows "my_spiffs_erase_area F s = (\<lambda>a. if 0xFC000 \<le> a \<and> a < 1024 * 1024 then 0xFF else s a) \<and>
    fst (my_spiffs_erase F SPIFFS_FLASH_ADDR SPIFFS_SIZE s) = SPIFFS_OK"
proof -
  have "unat SPIFFS_SIZE = 16384" "unat SPIFFS_FLASH_ADDR = 0xFC000" by (simp_all add: SPIFFS_SIZE_def SPIFFS_FLASH_ADDR_def)
  with assms unat_div_mult [of "flash_page_size F" SPIFFS_SIZE] show ?thesis
    by (simp add: my_spiffs_erase_area_def my_spiffs_erase_def erases_pages_def Let_def)
qed

definition sample_flash :: "(nat \<Rightarrow> byte) flash_api" where
  "sample_flash = \<lparr>flash_read = (\<lambda>addr n s. ((True, map s [unat addr ..< unat addr + unat n]), s)),
     flash_write = (\<lambda>addr src s. (True, \<lambda>a. if unat addr \<le> a \<and> a < unat addr + length src then src ! (a - unat addr) else s a)),
     flash_erase = (\<lambda>addr n s. (True, \<lambda>a. if unat addr \<le> a \<and> a < unat addr + unat n * 4096 then 0xFF else s a)),
     flash_page_size = 4096, SPIFFS_ERR_INTERNAL = -10050\<rparr>"

theorem erase_area_exact_witness:
  "my_spiffs_erase_area sample_flash (\<lambda>a. 7) 0xFBFFF = 7 \<and> my_spiffs_erase_area sample_flash (\<lambda>a. 7) 0xFFFFF = 0xFF"
  using erase_area_exact [of sample_flash "\<lambda>a. 7"] by (simp add: erases_pages_def sample_flash_def)

text \<open>
  Reading a file as the Wish core does: at the end of the file the answer is 0,
  as the core expects of read; every other answer of SPIFFS, a length or an error, is passed
  on unchanged, so a negative answer is never the end of the file.
\<close>

theorem fs_read_answer:
  assumes "SPIFFS_ERR_END_OF_OBJECT P < 0" and "sp_read P fd count s = ((ret, buf), s')"
  shows "my_fs_read P fd count s = ((if ret = SPIFFS_ERR_END_OF_OBJECT P then 0 else ret, buf), s') \<and>
    fst (fst (my_fs_read P fd count s)) \<noteq> SPIFFS_ERR_END_OF_OBJECT P"
  using assms by (auto simp: my_fs_read_def)

definition sample_spiffs :: "nat spiffs_api" where
  "sample_spiffs = \<lparr>sp_open = (\<lambda>p fl s. (1, s)), sp_read = (\<lambda>fd n s. if s = 0 then ((-10003, []), s) else ((1, [65]), s - 1)),
     sp_write = (\<lambda>fd b s. (int (length b), s + length b)), sp_lseek = (\<lambda>fd n k s. (0, s)), sp_close = (\<lambda>fd s. (0, s)),
     sp_rename = (\<lambda>a b s. (0, s)), sp_remove = (\<lambda>p s. (0, 0)), SPIFFS_ERR_END_OF_OBJECT = -10003\<rparr>"

theorem fs_read_answer_witness:
  "my_fs_read sample_spiffs 1 8 0 = ((0, []), 0) \<and> my_fs_read sample_spiffs 1 8 5 = ((1, [65]), 4)"
  using fs_read_answer [of sample_spiffs 1 8 0 "-10003" "[]" 0] fs_read_answer [of sample_spiffs 1 8 5 1 "[65]" 4]
  by (simp add: sample_spiffs_def)

text \<open>
  What the mount asks for: the flash is the last 16 KiB of 1 MiB, and the work and cache
  buffers hold two pages and four cache pages.
\<close>

lemma mount_geometry:
  "unat SPIFFS_FLASH_ADDR + unat SPIFFS_SIZE = 1024 * 1024" "spiffs_work_buf_size = 512" "spiffs_cache_buf_size = 1152"
  by (simp_all add: SPIFFS_FLASH_ADDR_def SPIFFS_SIZE_def spiffs_work_buf_size_def spiffs_cache_buf_size_def LOG_PAGE_SIZE_def)

end
