(* ===== verification/Mist_App.thy ===== *)
theory Mist_App
  imports Complex_Main Prelude
begin

text \<open>
  What the two Mist applications of the device share: BSON documents as they are built with
  the append functions of the BSON library (which is not part of the repository; its buffer
  limits are not modelled), endpoints, the calls made to the Mist library, and the contract
  of an application's read function.
\<close>

datatype bson = BString string | BInt int | BDouble real | BBin "byte list"
  | BDoc "(string \<times> bson) list" | BArray "(string \<times> bson) list"

type_synonym doc = "(string \<times> bson) list"

datatype mist_type = MIST_TYPE_STRING | MIST_TYPE_INT | MIST_TYPE_FLOAT | MIST_TYPE_INVOKE

text \<open>An endpoint; \<open>ep_read\<close> and \<open>ep_invoke\<close> say that the function is set.\<close>

record mist_ep =
  ep_id :: string
  ep_label :: string
  ep_unit :: "string option"
  ep_type :: mist_type
  ep_read :: bool
  ep_invoke :: bool

fun has_type :: "bson \<Rightarrow> mist_type \<Rightarrow> bool" where
  "has_type (BString s) t = (t = MIST_TYPE_STRING)"
| "has_type (BInt n) t = (t = MIST_TYPE_INT)"
| "has_type (BDouble x) t = (t = MIST_TYPE_FLOAT)"
| "has_type _ t = False"

datatype app_call =
  Read_Response string int doc | Read_Error string int int string | App_Request doc
| Add_Protocol | Ep_Add "string option" mist_ep | App_Connected bool | Orientation_Init bool
| Value_Changed bool string

text \<open>The static variables of an application, and its calls.\<close>

record app_state =
  mist_app_set :: bool
  app_set :: bool
  app_linked :: bool
  ready_set :: bool
  app_calls :: "app_call list"

definition say :: "app_call list \<Rightarrow> app_state \<Rightarrow> app_state" where
  "say cs s = s\<lparr>app_calls := app_calls s @ cs\<rparr>"

text \<open>An application before its start, for examples.\<close>

definition fresh_app :: app_state where
  "fresh_app = \<lparr>mist_app_set = False, app_set = False, app_linked = False, ready_set = False, app_calls = []\<rparr>"

text \<open>
  The contract of a read function over the endpoints of an application: whatever is
  registered as readable is answered with a document of exactly one field, \<open>data\<close>.
\<close>

locale answers_reads =
  fixes eps :: "mist_ep list"
    and answer :: "mist_ep \<Rightarrow> doc"
  assumes one_data: "ep \<in> set eps \<Longrightarrow> ep_read ep \<Longrightarrow> \<exists>v. answer ep = [(''data'', v)]"
begin

definition data_of :: "mist_ep \<Rightarrow> bson" where
  "data_of ep = snd (hd (answer ep))"

lemma answer_data: "ep \<in> set eps \<Longrightarrow> ep_read ep \<Longrightarrow> answer ep = [(''data'', data_of ep)]"
  using one_data unfolding data_of_def by force

lemma all_answered:
  "map answer (filter ep_read eps) = map (\<lambda>ep. [(''data'', data_of ep)]) (filter ep_read eps)"
  using answer_data by (simp cong: map_cong)

end

end
