(* ===== verification/Mist_Config.thy ===== *)
theory Mist_Config
  imports Mist_App
begin

text \<open>
  \<open>source/apps/mist_config/mist_config.c\<close>: the configuration application.  Reading a field
  of a received BSON document by its path is a function of the BSON library: the argument
  \<open>bson_find\<close>.  The blocks under \<open>#if 0\<close> are not part of the program.
\<close>

section \<open>Endpoints\<close>

definition type_ep :: mist_ep where
  "type_ep = \<lparr>ep_id = ''mistType'', ep_label = ''mistType'', ep_unit = None, ep_type = MIST_TYPE_STRING, ep_read = True, ep_invoke = False\<rparr>"

definition version_ep :: mist_ep where
  "version_ep = \<lparr>ep_id = ''mistVersion'', ep_label = ''mistVersion'', ep_unit = None, ep_type = MIST_TYPE_STRING, ep_read = True, ep_invoke = False\<rparr>"

definition list_available_ep :: mist_ep where
  "list_available_ep = \<lparr>ep_id = ''mistWifiListAvailable'', ep_label = ''mistWifiListAvailable'', ep_unit = None, ep_type = MIST_TYPE_INVOKE, ep_read = False, ep_invoke = True\<rparr>"

definition commissioning_ep :: mist_ep where
  "commissioning_ep = \<lparr>ep_id = ''mistWifiCommissioning'', ep_label = ''mistWifiCommissioning'', ep_unit = None, ep_type = MIST_TYPE_INVOKE, ep_read = False, ep_invoke = True\<rparr>"

definition mist_super_ep :: mist_ep where
  "mist_super_ep = \<lparr>ep_id = ''mist'', ep_label = [], ep_unit = None, ep_type = MIST_TYPE_STRING, ep_read = True, ep_invoke = False\<rparr>"

definition mist_name_ep :: mist_ep where
  "mist_name_ep = \<lparr>ep_id = ''name'', ep_label = ''Name'', ep_unit = None, ep_type = MIST_TYPE_STRING, ep_read = True, ep_invoke = False\<rparr>"

definition port_version_ep :: mist_ep where
  "port_version_ep = \<lparr>ep_id = ''portVersion'', ep_label = ''Port layer version'', ep_unit = None, ep_type = MIST_TYPE_STRING, ep_read = True, ep_invoke = False\<rparr>"

definition uptime_ep :: mist_ep where
  "uptime_ep = \<lparr>ep_id = ''uptime'', ep_label = ''Uptime'', ep_unit = None, ep_type = MIST_TYPE_INT, ep_read = True, ep_invoke = False\<rparr>"

lemmas config_ep_defs = type_ep_def version_ep_def list_available_ep_def commissioning_ep_def mist_super_ep_def
  mist_name_ep_def port_version_ep_def uptime_ep_def

text \<open>The document wifi_read builds; an unknown id leaves it empty.\<close>

definition wifi_data :: "mist_ep \<Rightarrow> doc" where
  "wifi_data ep =
     (if ep_id ep = ''mistType'' then [(''data'', BString ''WifiCommissioning'')]
      else if ep_id ep = ''mistVersion'' then [(''data'', BString ''1.0.1'')]
      else if ep_id ep = ''portVersion'' then [(''data'', BString ''PORT_VERSION'')]
      else if ep_id ep = ''uptime'' then [(''data'', BInt 0)]
      else if ep_id ep = ''mist'' then [(''data'', BString [])]
      else if ep_id ep = ''name'' then [(''data'', BString ''MistConfig'')]
      else [])"

definition wifi_read :: "(mist_ep \<Rightarrow> string) \<Rightarrow> mist_ep \<Rightarrow> int \<Rightarrow> app_state \<Rightarrow> app_state" where
  "wifi_read full_epid ep request_id s = say [Read_Response (full_epid ep) request_id (wifi_data ep)] s"

definition wifi_invoke :: "mist_ep \<Rightarrow> int \<Rightarrow> doc \<Rightarrow> app_state \<Rightarrow> app_state" where
  "wifi_invoke ep request_id args s = s"

section \<open>Friend requests\<close>

text \<open>
  32 bytes are read from each uid: a missing one is a NULL pointer, a shorter one is read
  past its end.  The results of the two mallocs are given as arguments; building a document
  in memory that was not allocated is undefined.
\<close>

definition uid_at :: "('d \<Rightarrow> string \<Rightarrow> bson option) \<Rightarrow> 'd \<Rightarrow> string \<Rightarrow> byte list option" where
  "uid_at bson_find d path = (case bson_find d path of Some (BBin b) \<Rightarrow> Some b | _ \<Rightarrow> None)"

definition append_binary :: "string \<Rightarrow> byte list option \<Rightarrow> nat \<Rightarrow> (string \<times> bson) option" where
  "append_binary key p n = (case p of None \<Rightarrow> None
     | Some b \<Rightarrow> if length b < n then None else Some (key, BBin (take n b)))"

definition friend_request_list_cb ::
  "('d \<Rightarrow> string \<Rightarrow> bson option) \<Rightarrow> bool \<Rightarrow> bool \<Rightarrow> 'd \<Rightarrow> app_state \<Rightarrow> app_state option" where
  "friend_request_list_cb bson_find bs_ok buf_ok d s = do {
     let luid = uid_at bson_find d ''data.0.luid'';
     let ruid = uid_at bson_find d ''data.0.ruid'';
     _ \<leftarrow> (if bs_ok \<and> buf_ok then Some () else None);
     a0 \<leftarrow> append_binary ''0'' luid 32;
     a1 \<leftarrow> append_binary ''1'' ruid 32;
     Some (say [App_Request [(''op'', BString ''identity.friendRequestAccept''), (''args'', BArray [a0, a1]),
                             (''id'', BInt 0)]] s)
   }"

definition make_friend_request_list :: "bool \<Rightarrow> bool \<Rightarrow> app_state \<Rightarrow> app_state option" where
  "make_friend_request_list bs_ok buf_ok s =
     (if bs_ok \<and> buf_ok then
        Some (say [App_Request [(''op'', BString ''identity.friendRequestList''), (''args'', BArray []), (''id'', BInt 0)]] s)
      else None)"

text \<open>strncmp over at most 100 characters.\<close>

definition signals_cb ::
  "('d \<Rightarrow> string \<Rightarrow> bson option) \<Rightarrow> bool \<Rightarrow> bool \<Rightarrow> 'd \<Rightarrow> app_state \<Rightarrow> app_state option" where
  "signals_cb bson_find bs_ok buf_ok d s = (case bson_find d ''data.0'' of
     Some (BString sig) \<Rightarrow>
       if take 100 sig = take 100 ''friendRequest'' then make_friend_request_list bs_ok buf_ok s else Some s
   | _ \<Rightarrow> Some s)"

definition init_app :: "bool \<Rightarrow> app_state \<Rightarrow> app_state" where
  "init_app ready s =
     (if ready then say [App_Request [(''op'', BString ''signals''), (''args'', BArray []), (''id'', BInt 0)]] s else s)"

section \<open>Initialisation\<close>

definition config_eps :: "(string option \<times> mist_ep) list" where
  "config_eps = [(None, mist_super_ep), (Some (ep_id mist_super_ep), mist_name_ep), (None, type_ep), (None, version_ep),
     (None, list_available_ep), (None, commissioning_ep), (None, port_version_ep), (None, uptime_ep)]"

text \<open>The arguments say whether start_mist_app and wish_app_create succeed.\<close>

definition mist_config_init :: "bool \<Rightarrow> bool \<Rightarrow> app_state \<Rightarrow> app_state" where
  "mist_config_init started created s0 =
     (let s = s0\<lparr>mist_app_set := started\<rparr> in
      if \<not> started then s
      else let s = s\<lparr>app_set := created\<rparr> in
        if \<not> created then s
        else let s = (say [Add_Protocol] s)\<lparr>app_linked := True\<rparr>;
                 s = fold (\<lambda>(p, ep) s. say [Ep_Add p ep] s) config_eps s;
                 s = s\<lparr>ready_set := True\<rparr>
             in say [App_Connected True] s)"

definition user_signal_update_changed :: "app_state \<Rightarrow> app_state" where
  "user_signal_update_changed s = say [Value_Changed (mist_app_set s) ''uptime''] s"

section \<open>What is promised\<close>

interpretation config: answers_reads "map snd config_eps" wifi_data
  by unfold_locales (auto simp: config_eps_def config_ep_defs wifi_data_def)

text \<open>
  Property C39. Every endpoint the configuration application registers as readable is
  answered by wifi_read with one response that carries the request's id and exactly one data
  field, whose value has the type the endpoint declares; none of them is left without data.
\<close>

theorem config_reads_typed:
  assumes "(p, ep) \<in> set config_eps" and "ep_read ep"
  shows "\<exists>v. wifi_read full_epid ep request_id s = say [Read_Response (full_epid ep) request_id [(''data'', v)]] s \<and>
    has_type v (ep_type ep)"
proof -
  have "wifi_data ep = [(''data'', config.data_of ep)]" using assms by (intro config.answer_data) force+
  moreover have "has_type (config.data_of ep) (ep_type ep)"
    using assms by (auto simp: config_eps_def config_ep_defs wifi_data_def config.data_of_def)
  ultimately show ?thesis by (auto simp: wifi_read_def)
qed

theorem config_reads_typed_witness:
  "\<exists>v. wifi_read ep_id uptime_ep 7 fresh_app = say [Read_Response ''uptime'' 7 [(''data'', v)]] fresh_app \<and>
     has_type v MIST_TYPE_INT"
  using config_reads_typed [of None uptime_ep ep_id 7 fresh_app] by (simp add: config_eps_def config_ep_defs)

lemma signal_is_friend_request: "take 100 sig = take 100 ''friendRequest'' \<longleftrightarrow> sig = ''friendRequest''"
proof
  assume t: "take 100 sig = take 100 ''friendRequest''"
  then have "length (take 100 sig) = 13" by simp
  then have "length sig < 100" by (simp add: min_def split: if_splits)
  with t show "sig = ''friendRequest''" by simp
qed simp

text \<open>
  Friend requests. A core signal leads to a request for the list of friend
  requests exactly when it is the string friendRequest, with no other condition; and the
  answer to that list is accepted with precisely its first entry's local and remote uid (32
  bytes each). When either uid is missing, is not binary or is shorter, the callback reads
  through a NULL pointer or past the end of the uid.
\<close>

theorem friend_requests_accepted:
  "(signals_cb bson_find True True d s =
      (if bson_find d ''data.0'' = Some (BString ''friendRequest'')
       then Some (say [App_Request [(''op'', BString ''identity.friendRequestList''), (''args'', BArray []), (''id'', BInt 0)]] s)
       else Some s)) \<and>
   friend_request_list_cb bson_find True True d s =
     (case (bson_find d ''data.0.luid'', bson_find d ''data.0.ruid'') of
        (Some (BBin l), Some (BBin r)) \<Rightarrow>
          if 32 \<le> length l \<and> 32 \<le> length r then
            Some (say [App_Request [(''op'', BString ''identity.friendRequestAccept''),
              (''args'', BArray [(''0'', BBin (take 32 l)), (''1'', BBin (take 32 r))]), (''id'', BInt 0)]] s)
          else None
      | _ \<Rightarrow> None)"
proof
  show "signals_cb bson_find True True d s =
      (if bson_find d ''data.0'' = Some (BString ''friendRequest'')
       then Some (say [App_Request [(''op'', BString ''identity.friendRequestList''), (''args'', BArray []), (''id'', BInt 0)]] s)
       else Some s)"
    unfolding signals_cb_def signal_is_friend_request make_friend_request_list_def
    by (simp split: option.splits bson.splits)
  show "friend_request_list_cb bson_find True True d s =
     (case (bson_find d ''data.0.luid'', bson_find d ''data.0.ruid'') of
        (Some (BBin l), Some (BBin r)) \<Rightarrow>
          if 32 \<le> length l \<and> 32 \<le> length r then
            Some (say [App_Request [(''op'', BString ''identity.friendRequestAccept''),
              (''args'', BArray [(''0'', BBin (take 32 l)), (''1'', BBin (take 32 r))]), (''id'', BInt 0)]] s)
          else None
      | _ \<Rightarrow> None)"
    by (simp add: friend_request_list_cb_def uid_at_def append_binary_def Let_def not_less split: option.splits bson.splits)
qed

end
