(* ===== verification/Xdk_Sensors.thy ===== *)
theory Xdk_Sensors
  imports Mist_App
begin

text \<open>
  \<open>source/apps/xdk_sensors/xdk_sensors.c\<close>: the sensor application.  sensor_read compares the
  addresses of the static endpoints, which are pairwise different records here.
\<close>

section \<open>Endpoints\<close>

definition mist_super_ep :: mist_ep where
  "mist_super_ep = \<lparr>ep_id = ''mist'', ep_label = [], ep_unit = None, ep_type = MIST_TYPE_STRING, ep_read = True, ep_invoke = False\<rparr>"

definition mist_name_ep :: mist_ep where
  "mist_name_ep = \<lparr>ep_id = ''name'', ep_label = ''Name'', ep_unit = None, ep_type = MIST_TYPE_STRING, ep_read = True, ep_invoke = False\<rparr>"

definition orientation_ep :: mist_ep where
  "orientation_ep = \<lparr>ep_id = ''orientation'', ep_label = ''Orientation'', ep_unit = None, ep_type = MIST_TYPE_STRING, ep_read = True, ep_invoke = False\<rparr>"

text \<open>
  The endpoints of the other sensors, which the application declares but does not register
  (the calls are under \<open>#if 0\<close> or commented out).  The units are the bytes of the source file,
  which is in UTF-8.
\<close>

definition accelerometer_ep :: mist_ep where
  "accelerometer_ep = \<lparr>ep_id = ''accelerometer'', ep_label = ''Accelerometer'', ep_unit = None, ep_type = MIST_TYPE_STRING,
     ep_read = True, ep_invoke = False\<rparr>"

definition accelerometer_x_ep :: mist_ep where
  "accelerometer_x_ep = \<lparr>ep_id = ''x'', ep_label = ''Accelerometer x'', ep_unit = Some (''m/s'' @ [CHR 0xC2, CHR 0xB2]), ep_type = MIST_TYPE_FLOAT,
     ep_read = True, ep_invoke = False\<rparr>"

definition accelerometer_y_ep :: mist_ep where
  "accelerometer_y_ep = \<lparr>ep_id = ''y'', ep_label = ''Accelerometer y'', ep_unit = Some (''m/s'' @ [CHR 0xC2, CHR 0xB2]), ep_type = MIST_TYPE_FLOAT,
     ep_read = True, ep_invoke = False\<rparr>"

definition accelerometer_z_ep :: mist_ep where
  "accelerometer_z_ep = \<lparr>ep_id = ''z'', ep_label = ''Accelerometer z'', ep_unit = Some (''m/s'' @ [CHR 0xC2, CHR 0xB2]), ep_type = MIST_TYPE_FLOAT,
     ep_read = True, ep_invoke = False\<rparr>"

definition environment_ep :: mist_ep where
  "environment_ep = \<lparr>ep_id = ''environment'', ep_label = ''Environment'', ep_unit = None, ep_type = MIST_TYPE_STRING,
     ep_read = True, ep_invoke = False\<rparr>"

definition environment_rh_ep :: mist_ep where
  "environment_rh_ep = \<lparr>ep_id = ''rh'', ep_label = ''Relative humidity'', ep_unit = Some ''%'', ep_type = MIST_TYPE_INT,
     ep_read = True, ep_invoke = False\<rparr>"

definition environment_abs_hum_ep :: mist_ep where
  "environment_abs_hum_ep = \<lparr>ep_id = ''abs_hum'', ep_label = ''Absolute humidity'', ep_unit = Some ''g/kg'', ep_type = MIST_TYPE_FLOAT,
     ep_read = True, ep_invoke = False\<rparr>"

definition environment_temp_ep :: mist_ep where
  "environment_temp_ep = \<lparr>ep_id = ''t'', ep_label = ''Temperature'', ep_unit = Some ([CHR 0xC2, CHR 0xB0] @ ''C''), ep_type = MIST_TYPE_FLOAT,
     ep_read = True, ep_invoke = False\<rparr>"

definition environment_pres_ep :: mist_ep where
  "environment_pres_ep = \<lparr>ep_id = ''p'', ep_label = ''Ambient pressure'', ep_unit = Some ''kPa'', ep_type = MIST_TYPE_INT,
     ep_read = True, ep_invoke = False\<rparr>"

definition test_ep :: mist_ep where
  "test_ep = \<lparr>ep_id = ''test'', ep_label = ''Test'', ep_unit = Some ''kPa'', ep_type = MIST_TYPE_INT,
     ep_read = True, ep_invoke = False\<rparr>"

definition unregistered_eps :: "mist_ep list" where
  "unregistered_eps = [accelerometer_ep, accelerometer_x_ep, accelerometer_y_ep, accelerometer_z_ep, environment_ep,
     environment_rh_ep, environment_abs_hum_ep, environment_temp_ep, environment_pres_ep, test_ep]"

lemmas unregistered_ep_defs = accelerometer_ep_def accelerometer_x_ep_def accelerometer_y_ep_def accelerometer_z_ep_def
  environment_ep_def environment_rh_ep_def environment_abs_hum_ep_def environment_temp_ep_def environment_pres_ep_def test_ep_def

lemmas sensor_ep_defs = mist_super_ep_def mist_name_ep_def orientation_ep_def

text \<open>Orientation_readEulerDegreeVal: an error code or heading, roll, pitch and yaw.\<close>

record euler =
  heading :: real
  roll :: real
  pitch :: real
  yaw :: real

definition orientation_doc :: "euler \<Rightarrow> doc" where
  "orientation_doc e = [(''data'', BDoc [(''heading'', BDouble (heading e)), (''roll'', BDouble (roll e)),
     (''pitch'', BDouble (pitch e)), (''yaw'', BDouble (yaw e))])]"

definition sensor_read ::
  "(mist_ep \<Rightarrow> string) \<Rightarrow> int + euler \<Rightarrow> mist_ep \<Rightarrow> int \<Rightarrow> app_state \<Rightarrow> app_state" where
  "sensor_read full_epid euler_value ep request_id s =
     (if ep = orientation_ep then
        (case euler_value of
           Inr e \<Rightarrow> say [Read_Response (full_epid ep) request_id (orientation_doc e)] s
         | Inl code \<Rightarrow> say [Read_Error (ep_id ep) request_id code ''XDK api error Error''] s)
      else if ep = mist_super_ep then say [Read_Response (full_epid ep) request_id [(''data'', BString [])]] s
      else if ep = mist_name_ep then say [Read_Response (full_epid ep) request_id [(''data'', BString ''Sensors'')]] s
      else say [Read_Response (full_epid ep) request_id []] s)"

section \<open>Initialisation and periodic work\<close>

definition init_app :: "bool \<Rightarrow> app_state \<Rightarrow> app_state" where
  "init_app ready s = s"

definition sensor_eps :: "(string option \<times> mist_ep) list" where
  "sensor_eps = [(None, mist_super_ep), (Some (ep_id mist_super_ep), mist_name_ep), (None, orientation_ep)]"

text \<open>
  The arguments say whether start_mist_app, wish_app_create and Orientation_init succeed.
\<close>

definition xdk_sensors_app_init :: "bool \<Rightarrow> bool \<Rightarrow> bool \<Rightarrow> app_state \<Rightarrow> app_state" where
  "xdk_sensors_app_init started created sensor_ok s0 =
     (let s = s0\<lparr>mist_app_set := started\<rparr> in
      if \<not> started then s
      else let s = s\<lparr>app_set := created\<rparr> in
        if \<not> created then s
        else let s = (say [Add_Protocol] s)\<lparr>app_linked := True\<rparr>;
                 s = fold (\<lambda>(p, ep) s. say [Ep_Add p ep] s) sensor_eps s;
                 s = s\<lparr>ready_set := True\<rparr>;
                 s = say [App_Connected True] s
             in say [Orientation_Init sensor_ok] s)"

definition xdk_sensors_periodic :: "app_state \<Rightarrow> app_state" where
  "xdk_sensors_periodic s = say [Value_Changed (mist_app_set s) (ep_id orientation_ep)] s"

section \<open>What is promised\<close>

definition sensor_data :: "euler \<Rightarrow> mist_ep \<Rightarrow> doc" where
  "sensor_data e ep = (if ep = orientation_ep then orientation_doc e
     else if ep = mist_super_ep then [(''data'', BString [])]
     else if ep = mist_name_ep then [(''data'', BString ''Sensors'')] else [])"

text \<open>
  The endpoints are pairwise different records, so comparing records is comparing addresses; a
  read of an endpoint that is not registered would be answered with an empty document, whatever
  the sensor says.
\<close>

lemma endpoints_distinct: "distinct (map snd sensor_eps @ unregistered_eps)"
  by (simp add: sensor_eps_def sensor_ep_defs unregistered_eps_def unregistered_ep_defs)

lemma unregistered_read_empty:
  assumes "ep \<in> set unregistered_eps"
  shows "sensor_read full r ep n s = say [Read_Response (full ep) n []] s"
proof -
  have "ep \<notin> set (map snd sensor_eps)" using endpoints_distinct assms by auto
  then show ?thesis by (auto simp: sensor_eps_def sensor_read_def)
qed

interpretation sensors: answers_reads "map snd sensor_eps" "sensor_data e" for e
  by unfold_locales (auto simp: sensor_eps_def sensor_ep_defs sensor_data_def orientation_doc_def)

lemma sensor_read_data: "sensor_read full (Inr e) ep n s = say [Read_Response (full ep) n (sensor_data e ep)] s"
  by (simp add: sensor_read_def sensor_data_def)

text \<open>
  Property C40. While the sensor answers, every endpoint the sensor application registers is
  answered with one response of exactly one data field; the value has the type the endpoint
  declares, except for the orientation, which is declared a string and answered with an
  object of four numbers. When the sensor fails, reading the orientation, and only that, is
  answered with one error that carries the sensor's code.
\<close>

theorem sensor_reads_answered:
  assumes "(p, ep) \<in> set sensor_eps"
  shows "(\<exists>v. sensor_read full (Inr e) ep n s = say [Read_Response (full ep) n [(''data'', v)]] s \<and>
      (has_type v (ep_type ep) \<longleftrightarrow> ep \<noteq> orientation_ep)) \<and>
    sensor_read full (Inl code) ep n s =
      (if ep = orientation_ep then say [Read_Error ''orientation'' n code ''XDK api error Error''] s
       else sensor_read full (Inr e) ep n s)"
proof
  have "sensor_data e ep = [(''data'', sensors.data_of e ep)]"
    using assms by (intro sensors.answer_data) (force simp: sensor_eps_def sensor_ep_defs)+
  moreover have "has_type (sensors.data_of e ep) (ep_type ep) \<longleftrightarrow> ep \<noteq> orientation_ep"
    using assms by (auto simp: sensor_eps_def sensor_ep_defs sensor_data_def orientation_doc_def sensors.data_of_def)
  ultimately show "\<exists>v. sensor_read full (Inr e) ep n s = say [Read_Response (full ep) n [(''data'', v)]] s \<and>
      (has_type v (ep_type ep) \<longleftrightarrow> ep \<noteq> orientation_ep)"
    by (auto simp: sensor_read_data)
  show "sensor_read full (Inl code) ep n s =
      (if ep = orientation_ep then say [Read_Error ''orientation'' n code ''XDK api error Error''] s
       else sensor_read full (Inr e) ep n s)"
    by (simp add: sensor_read_def orientation_ep_def)
qed

theorem sensor_reads_answered_witness:
  "sensor_read ep_id (Inl 3) orientation_ep 7 fresh_app =
     say [Read_Error ''orientation'' 7 3 ''XDK api error Error''] fresh_app"
  using sensor_reads_answered [of None orientation_ep ep_id "\<lparr>heading = 0, roll = 0, pitch = 0, yaw = 0\<rparr>" 7 fresh_app 3] by (simp add: sensor_eps_def)

end
