(* ===== verification/Flash_Tests.thy ===== *)
theory Flash_Tests
  imports Spiffs_Integration
begin

text \<open>
  \<open>source/my_tests.c\<close>: two routines that try the flash of the board outside the file system.
  Both print what they find; the printed values are the result here.  What the driver answers
  is not looked at, and bytes that a read does not fill keep their value.
\<close>

definition TEST_ADDRESS :: u32 where
  "TEST_ADDRESS = 0x000B6000"

definition filled :: "byte list \<Rightarrow> byte list \<Rightarrow> byte list" where
  "filled buffer got = take (length buffer) (got @ drop (length got) buffer)"

definition readTestFromFlash :: "'f flash_api \<Rightarrow> byte list \<Rightarrow> 'f \<Rightarrow> byte list \<times> 'f" where
  "readTestFromFlash F buffer s = (case flash_read F TEST_ADDRESS (of_nat (length buffer)) s of
     ((_, got), s) \<Rightarrow> (filled buffer got, s))"

definition writeTestToFlash :: "'f flash_api \<Rightarrow> 'f \<Rightarrow> (byte list \<times> u32) \<times> 'f" where
  "writeTestToFlash F s =
     (let (_, s) = flash_write F TEST_ADDRESS [1, 2, 4, 16] s;
          buffer = replicate 4 0;
          ((_, got), s) = flash_read F TEST_ADDRESS (of_nat (length buffer)) s
      in ((filled buffer got, flash_page_size F), s))"

section \<open>What the test can show\<close>

text \<open>
  A NOR flash: a read delivers the bytes, a write can only clear bits.
\<close>

definition nor_flash :: "(nat \<Rightarrow> byte) flash_api \<Rightarrow> bool" where
  "nor_flash F \<longleftrightarrow>
     (\<forall>addr n s. flash_read F addr n s = ((True, map s [unat addr ..< unat addr + unat n]), s)) \<and>
     (\<forall>addr src s. flash_write F addr src s =
        (True, \<lambda>a. if unat addr \<le> a \<and> a < unat addr + length src then s a AND src ! (a - unat addr) else s a))"

text \<open>
  On a NOR flash the write test prints the bits of its pattern that were set before, so the
  whole pattern after an erase; it changes at most the four bytes at 0xB6000, so the area of
  the file system keeps its contents, and a second run prints what the first one printed.
\<close>

lemma flash_write_test:
  assumes "nor_flash F"
  shows "fst (fst (writeTestToFlash F s)) = map2 (AND) (map s [0xB6000 ..< 0xB6004]) [1, 2, 4, 16]"
    and "map s [0xB6000 ..< 0xB6004] = replicate 4 0xFF \<Longrightarrow> fst (fst (writeTestToFlash F s)) = [1, 2, 4, 16]"
    and "a < 0xB6000 \<or> 0xB6004 \<le> a \<Longrightarrow> snd (writeTestToFlash F s) a = s a"
    and "fst (writeTestToFlash F (snd (writeTestToFlash F s))) = fst (writeTestToFlash F s)"
proof -
  have addr: "unat TEST_ADDRESS = 0xB6000" by (simp add: TEST_ADDRESS_def)
  have four: "[0xB6000 ..< 0xB6004] = [0xB6000, 0xB6001, 0xB6002, 0xB6003 :: nat]" by (simp add: upt_rec)
  have wr: "flash_write F TEST_ADDRESS src t =
      (True, \<lambda>a. if 0xB6000 \<le> a \<and> a < 0xB6000 + length src then t a AND src ! (a - 0xB6000) else t a)" for src t
    using assms(1) unfolding nor_flash_def addr [symmetric] by blast
  have rd: "flash_read F addr n t = ((True, map t [unat addr ..< unat addr + unat n]), t)" for addr n t
    using assms(1) by (simp add: nor_flash_def)
  have run: "writeTestToFlash F t =
      ((map2 (AND) (map t [0xB6000 ..< 0xB6004]) [1, 2, 4, 16], flash_page_size F),
       \<lambda>a. if 0xB6000 \<le> a \<and> a < 0xB6004 then t a AND [1, 2, 4, 16] ! (a - 0xB6000) else t a)" for t
    by (simp add: writeTestToFlash_def wr rd addr filled_def four Let_def)
  show printed: "fst (fst (writeTestToFlash F s)) = map2 (AND) (map s [0xB6000 ..< 0xB6004]) [1, 2, 4, 16]"
    by (simp add: run)
  show "fst (fst (writeTestToFlash F s)) = [1, 2, 4, 16]" if "map s [0xB6000 ..< 0xB6004] = replicate 4 0xFF"
    by (simp only: printed that) (simp add: eval_nat_numeral)
  show "snd (writeTestToFlash F s) a = s a" if "a < 0xB6000 \<or> 0xB6004 \<le> a"
    using that by (auto simp: run)
  show "fst (writeTestToFlash F (snd (writeTestToFlash F s))) = fst (writeTestToFlash F s)"
    by (simp add: run four and.assoc)
qed

end
