(* ===== verification/Port_Config.thy ===== *)
theory Port_Config
  imports Macros
begin

text \<open>
  \<open>source/mist_port/wish_port_config.h\<close>, the sizes the port gives the Wish core, and the
  macros that the Makefile passes to every compilation.
\<close>

definition makefile_macros :: macros where
  "makefile_macros = [''WITHOUT_STRTOIMAX'' \<mapsto> Num 1, ''MIST_RPC_REPLY_BUF_LEN'' \<mapsto> Num 1400,
     ''MBEDTLS_CONFIG_FILE'' \<mapsto> Text ''mist_port/mbedtls_config.h'']"

definition wish_port_config_h :: "directive list" where
  "wish_port_config_h = include_once ''WISH_PORT_CONFIG_H'' [
     Define ''WISH_PORT_RX_RB_SZ'' (Num 1500),
     Define ''WISH_PORT_CONTEXT_POOL_SZ'' (Num 4),
     Commented ''WITH_APP_TCP_SERVER'',
     Define ''WISH_PORT_APP_RPC_POOL_SZ'' (Num 10),
     Define ''WISH_PORT_RPC_BUFFER_SZ'' (Num 1400),
     Define ''WISH_LOCAL_DISCOVERY_MAX'' (Num 8),
     Define ''WISH_PORT_MAX_UIDS'' (Num 8),
     Define ''WITH_APP_INTERNAL'' Empty,
     Define ''WISH_REMOTE_MANAGEMENT'' Empty]"

text \<open>
  The connections of the pool, the relay connection, the server socket and the local
  discovery socket fit the eight sockets of the network processor.
\<close>

definition sockets_used :: "macros \<Rightarrow> int option" where
  "sockets_used m = (case m ''WISH_PORT_CONTEXT_POOL_SZ'' of
     Some (Num pool) \<Rightarrow> Some (pool + 1 + 1 + 1) | _ \<Rightarrow> None)"

text \<open>
  The replies the core builds and the replies the Mist library sends have one size, whichever
  of the two settings a file sees.
\<close>

lemma port_config_sizes:
  "sockets_used (preprocess wish_port_config_h makefile_macros) = Some 7"
  "preprocess wish_port_config_h makefile_macros ''WISH_PORT_RPC_BUFFER_SZ'' = makefile_macros ''MIST_RPC_REPLY_BUF_LEN''"
  by code_simp+

end
