(* ===== verification/Spiffs_Config.thy ===== *)
theory Spiffs_Config
  imports Macros Spiffs_Integration
begin

text \<open>
  \<open>source/spiffs_config.h\<close>: the compile-time switches of SPIFFS, section by section in the
  order of the file, and the types of its indices.  The comments of the header state what the
  settings and the mounted geometry have to respect; \<open>spiffs_limits\<close> collects these
  conditions.  A function-like macro is recorded under its name with the text of its body.
\<close>

section \<open>The header\<close>

definition spiffs_debug_calls :: "directive list" where
  "spiffs_debug_calls = [
     default_of ''SPIFFS_DBG'' Empty,
     default_of ''SPIFFS_GC_DBG'' Empty,
     default_of ''SPIFFS_CACHE_DBG'' Empty,
     default_of ''SPIFFS_CHECK_DBG'' Empty,
     default_of ''SPIFFS_API_DBG'' Empty]"

definition spiffs_formatters :: "directive list" where
  "spiffs_formatters = [
     default_of ''_SPIPRIi'' (Text ''%d''),
     default_of ''_SPIPRIad'' (Text ''%08x''),
     default_of ''_SPIPRIbl'' (Text ''%04x''),
     default_of ''_SPIPRIpg'' (Text ''%04x''),
     default_of ''_SPIPRIsp'' (Text ''%04x''),
     default_of ''_SPIPRIfd'' (Text ''%d''),
     default_of ''_SPIPRIid'' (Text ''%04x''),
     default_of ''_SPIPRIfl'' (Text ''%02x'')]"

definition spiffs_cache_switches :: "directive list" where
  "spiffs_cache_switches = [
     default_of ''SPIFFS_BUFFER_HELP'' (Num 0),
     default_of ''SPIFFS_CACHE'' (Num 1),
     If ''SPIFFS_CACHE'' [
       default_of ''SPIFFS_CACHE_WR'' (Num 1),
       default_of ''SPIFFS_CACHE_STATS'' (Num 1)],
     default_of ''SPIFFS_PAGE_CHECK'' (Num 1)]"

definition spiffs_gc_switches :: "directive list" where
  "spiffs_gc_switches = [
     default_of ''SPIFFS_GC_MAX_RUNS'' (Num 5),
     default_of ''SPIFFS_GC_STATS'' (Num 1),
     default_of ''SPIFFS_GC_HEUR_W_DELET'' (Num 5),
     default_of ''SPIFFS_GC_HEUR_W_USED'' (Num (-1)),
     default_of ''SPIFFS_GC_HEUR_W_ERASE_AGE'' (Num 50)]"

definition spiffs_object_sizes :: "directive list" where
  "spiffs_object_sizes = [
     default_of ''SPIFFS_OBJ_NAME_LEN'' (Num 32),
     default_of ''SPIFFS_OBJ_META_LEN'' (Num 0),
     default_of ''SPIFFS_COPY_BUFFER_STACK'' (Num 64),
     default_of ''SPIFFS_USE_MAGIC'' (Num 0),
     If ''SPIFFS_USE_MAGIC'' [default_of ''SPIFFS_USE_MAGIC_LENGTH'' (Num 0)]]"

definition spiffs_locks :: "directive list" where
  "spiffs_locks = [default_of ''SPIFFS_LOCK'' Empty, default_of ''SPIFFS_UNLOCK'' Empty]"

definition spiffs_singleton_switches :: "directive list" where
  "spiffs_singleton_switches = [
     default_of ''SPIFFS_SINGLETON'' (Num 0),
     If ''SPIFFS_SINGLETON'' [
       default_of ''SPIFFS_CFG_PHYS_SZ'' (Num (1024 * 1024 * 2)),
       default_of ''SPIFFS_CFG_PHYS_ERASE_SZ'' (Num 65536),
       default_of ''SPIFFS_CFG_PHYS_ADDR'' (Num 0),
       default_of ''SPIFFS_CFG_LOG_PAGE_SZ'' (Num 256),
       default_of ''SPIFFS_CFG_LOG_BLOCK_SZ'' (Num 65536)]]"

definition spiffs_api_switches :: "directive list" where
  "spiffs_api_switches = [
     default_of ''SPIFFS_ALIGNED_OBJECT_INDEX_TABLES'' (Num 0),
     default_of ''SPIFFS_HAL_CALLBACK_EXTRA'' (Num 0),
     default_of ''SPIFFS_FILEHDL_OFFSET'' (Num 0),
     default_of ''SPIFFS_READ_ONLY'' (Num 0)]"

definition spiffs_lookup_switches :: "directive list" where
  "spiffs_lookup_switches = [
     default_of ''SPIFFS_TEMPORAL_FD_CACHE'' (Num 1),
     default_of ''SPIFFS_TEMPORAL_CACHE_HIT_SCORE'' (Num 4),
     default_of ''SPIFFS_IX_MAP'' (Num 1),
     default_of ''SPIFFS_NO_BLIND_WRITES'' (Num 0)]"

definition spiffs_visualisation :: "directive list" where
  "spiffs_visualisation = [
     default_of ''SPIFFS_TEST_VISUALISATION'' (Num 1),
     If ''SPIFFS_TEST_VISUALISATION'' [
       default_of ''spiffs_printf'' (Text ''printf(__VA_ARGS__)''),
       default_of ''SPIFFS_TEST_VIS_FREE_STR'' (Text ''_''),
       default_of ''SPIFFS_TEST_VIS_DELE_STR'' (Text ''/''),
       default_of ''SPIFFS_TEST_VIS_INDX_STR'' (Text ''i''),
       default_of ''SPIFFS_TEST_VIS_DATA_STR'' (Text ''d'')]]"

definition spiffs_config_h :: "directive list" where
  "spiffs_config_h = include_once ''SPIFFS_CONFIG_H_''
     (spiffs_debug_calls @ spiffs_formatters @ spiffs_cache_switches @ spiffs_gc_switches @
      spiffs_object_sizes @ spiffs_locks @ spiffs_singleton_switches @ spiffs_api_switches @
      spiffs_lookup_switches @ spiffs_visualisation)"

type_synonym spiffs_block_ix = u16
type_synonym spiffs_page_ix = u16
type_synonym spiffs_obj_id = u16
type_synonym spiffs_span_ix = u16

section \<open>What the header asks for\<close>

definition setting :: "macros \<Rightarrow> string \<Rightarrow> int" where
  "setting m n = (case m n of Some (Num k) \<Rightarrow> k | _ \<Rightarrow> 0)"

text \<open>The highest values of the index types; the top bit of an object id is the index flag.\<close>

definition spiffs_block_ix_max :: nat where
  "spiffs_block_ix_max = unat (- 1 :: spiffs_block_ix)"

definition spiffs_page_ix_max :: nat where
  "spiffs_page_ix_max = unat (- 1 :: spiffs_page_ix)"

definition spiffs_obj_id_max :: nat where
  "spiffs_obj_id_max = unat (drop_bit 1 (- 1) :: spiffs_obj_id)"

definition spiffs_span_ix_max :: nat where
  "spiffs_span_ix_max = unat (- 1 :: spiffs_span_ix)"

definition spiffs_limits :: "macros \<Rightarrow> 'f spiffs_config \<Rightarrow> nat \<Rightarrow> bool" where
  "spiffs_limits m cfg cache_size \<longleftrightarrow>
     (let size = unat (phys_size cfg); page = unat (log_page_size cfg); block = unat (log_block_size cfg) in
      setting m ''SPIFFS_OBJ_META_LEN'' \<le> int page - (setting m ''SPIFFS_OBJ_NAME_LEN'' + 64) \<and>
      setting m ''SPIFFS_COPY_BUFFER_STACK'' \<le> int page \<and>
      (truth (m ''SPIFFS_CACHE'') \<longrightarrow> 0 < cache_size) \<and>
      1 \<le> setting m ''SPIFFS_TEMPORAL_CACHE_HIT_SCORE'' \<and> setting m ''SPIFFS_TEMPORAL_CACHE_HIT_SCORE'' \<le> 255 \<and>
      size div block \<le> spiffs_block_ix_max \<and>
      size div page \<le> spiffs_page_ix_max \<and>
      2 + (size div (2 * page)) * 2 \<le> spiffs_obj_id_max \<and>
      size div page - 1 \<le> spiffs_span_ix_max)"

text \<open>
  What the integration takes for granted: the geometry comes from the structure given to
  SPIFFS_mount, which has no field for a handle offset; the flash functions do not get the
  file system as an argument; files are written; and the file system is never formatted, so no
  magic may be asked for.
\<close>

definition integration_needs :: "macros \<Rightarrow> bool" where
  "integration_needs m \<longleftrightarrow> list_all (\<lambda>n. \<not> truth (m n))
     [''SPIFFS_SINGLETON'', ''SPIFFS_FILEHDL_OFFSET'', ''SPIFFS_HAL_CALLBACK_EXTRA'', ''SPIFFS_READ_ONLY'', ''SPIFFS_USE_MAGIC'']"

section \<open>What the header gives\<close>

lemma spiffs_config_h_guarded: "guarded [] spiffs_config_h"
  by code_simp

text \<open>
  The header only supplies defaults: whatever value the build has given a macro
  before the header is read, that value stands, and reading the header a second time changes
  nothing.
\<close>

theorem spiffs_predefined_wins:
  assumes "build n = Some b"
  shows "preprocess spiffs_config_h build n = Some b \<and>
    preprocess spiffs_config_h (preprocess spiffs_config_h build) = preprocess spiffs_config_h build"
proof -
  have "preprocess spiffs_config_h (preprocess spiffs_config_h build) = preprocess spiffs_config_h build"
    unfolding spiffs_config_h_def by (rule include_once_idem)
  with guarded_keeps [OF spiffs_config_h_guarded] assms show ?thesis by simp
qed

theorem spiffs_predefined_wins_witness:
  "preprocess spiffs_config_h [''SPIFFS_TEMPORAL_CACHE_HIT_SCORE'' \<mapsto> Num 9] ''SPIFFS_TEMPORAL_CACHE_HIT_SCORE'' = Some (Num 9)"
  using spiffs_predefined_wins [of "[''SPIFFS_TEMPORAL_CACHE_HIT_SCORE'' \<mapsto> Num 9]"
    "''SPIFFS_TEMPORAL_CACHE_HIT_SCORE''" "Num 9"] by simp

text \<open>
  The settings the conditions read, for any build that leaves the macros of the header alone.
\<close>

lemma spiffs_settings:
  assumes "\<forall>n \<in> set (names spiffs_config_h). build n = None"
  defines "m \<equiv> preprocess spiffs_config_h build"
  shows "setting m ''SPIFFS_OBJ_META_LEN'' = 0" "setting m ''SPIFFS_OBJ_NAME_LEN'' = 32"
    "setting m ''SPIFFS_COPY_BUFFER_STACK'' = 64" "setting m ''SPIFFS_TEMPORAL_CACHE_HIT_SCORE'' = 4"
    "integration_needs m"
proof -
  have eq: "m n = preprocess spiffs_config_h Map.empty n" if "n \<in> set (names spiffs_config_h)" for n
    unfolding m_def by (rule preprocess_fresh [OF assms(1) that])
  have "list_all (\<lambda>n. n \<in> set (names spiffs_config_h))
      [''SPIFFS_OBJ_META_LEN'', ''SPIFFS_OBJ_NAME_LEN'', ''SPIFFS_COPY_BUFFER_STACK'', ''SPIFFS_TEMPORAL_CACHE_HIT_SCORE'',
       ''SPIFFS_SINGLETON'', ''SPIFFS_FILEHDL_OFFSET'', ''SPIFFS_HAL_CALLBACK_EXTRA'', ''SPIFFS_READ_ONLY'', ''SPIFFS_USE_MAGIC'']"
    by code_simp
  then have "list_all (\<lambda>n. m n = preprocess spiffs_config_h Map.empty n)
      [''SPIFFS_OBJ_META_LEN'', ''SPIFFS_OBJ_NAME_LEN'', ''SPIFFS_COPY_BUFFER_STACK'', ''SPIFFS_TEMPORAL_CACHE_HIT_SCORE'',
       ''SPIFFS_SINGLETON'', ''SPIFFS_FILEHDL_OFFSET'', ''SPIFFS_HAL_CALLBACK_EXTRA'', ''SPIFFS_READ_ONLY'', ''SPIFFS_USE_MAGIC'']"
    using eq by (simp add: list_all_iff)
  note same = this [unfolded list.pred_inject]
  have defaults: "preprocess spiffs_config_h Map.empty ''SPIFFS_OBJ_META_LEN'' = Some (Num 0)"
    "preprocess spiffs_config_h Map.empty ''SPIFFS_OBJ_NAME_LEN'' = Some (Num 32)"
    "preprocess spiffs_config_h Map.empty ''SPIFFS_COPY_BUFFER_STACK'' = Some (Num 64)"
    "preprocess spiffs_config_h Map.empty ''SPIFFS_TEMPORAL_CACHE_HIT_SCORE'' = Some (Num 4)"
    "integration_needs (preprocess spiffs_config_h Map.empty)"
    by code_simp+
  then show "setting m ''SPIFFS_OBJ_META_LEN'' = 0" "setting m ''SPIFFS_OBJ_NAME_LEN'' = 32"
    "setting m ''SPIFFS_COPY_BUFFER_STACK'' = 64" "setting m ''SPIFFS_TEMPORAL_CACHE_HIT_SCORE'' = 4"
    "integration_needs m"
    using same by (simp_all add: setting_def integration_needs_def)
qed

text \<open>
  Property C32. With the settings of this header, for a build that predefines none of them,
  the port mounts the file system with a geometry that respects every bound the header states:
  the lengths of names and metadata and the copy buffer against the page, the memory for the
  cache, and the numbers of blocks, pages, objects and spans against the 16-bit index types,
  whatever page size the flash has.  The switches the integration relies on are set its way.
\<close>

theorem spiffs_mount_within_limits:
  assumes "\<forall>n \<in> set (names spiffs_config_h). build n = None"
  shows "\<exists>cfg. my_spiffs_mount F SPIFFS_mount s =
      snd (SPIFFS_mount cfg spiffs_work_buf_size spiffs_fds_size spiffs_cache_buf_size s) \<and>
    spiffs_limits (preprocess spiffs_config_h build) cfg spiffs_cache_buf_size \<and>
    2 * unat (log_page_size cfg) = spiffs_work_buf_size \<and>
    integration_needs (preprocess spiffs_config_h build)"
proof -
  have max: "spiffs_block_ix_max = 65535" "spiffs_page_ix_max = 65535" "spiffs_obj_id_max = 32767" "spiffs_span_ix_max = 65535"
    by (simp_all add: spiffs_block_ix_max_def spiffs_page_ix_max_def spiffs_obj_id_max_def spiffs_span_ix_max_def
      unat_u16_max unat_u16_half)
  have "16384 div unat (flash_page_size F) \<le> 65535"
    by (rule order_trans [OF div_le_dividend]) simp
  then show ?thesis
    unfolding my_spiffs_mount_def Let_def
    by - (intro exI conjI, rule refl,
      simp_all add: spiffs_limits_def max spiffs_settings [OF assms] SPIFFS_SIZE_def LOG_PAGE_SIZE_def
        spiffs_cache_buf_size_def spiffs_work_buf_size_def Let_def)
qed

theorem spiffs_mount_within_limits_witness:
  "my_spiffs_mount sample_flash (\<lambda>cfg w d c s. (0, unat (phys_size cfg) + w + c)) 0 = 16384 + 512 + 1152 \<and>
   integration_needs (preprocess spiffs_config_h [''MIST_RPC_REPLY_BUF_LEN'' \<mapsto> Num 1400])"
proof -
  have "\<forall>n \<in> set (names spiffs_config_h). [''MIST_RPC_REPLY_BUF_LEN'' \<mapsto> Num 1400] n = None" by code_simp
  from spiffs_mount_within_limits [OF this, of sample_flash "\<lambda>cfg w d c s. (0, unat (phys_size cfg) + w + c)" 0]
  show ?thesis by (auto simp: my_spiffs_mount_def SPIFFS_SIZE_def spiffs_work_buf_size_def spiffs_cache_buf_size_def
    LOG_PAGE_SIZE_def Let_def simp del: fun_upd_apply)
qed

end
