(* ===== verification/Mbedtls_Config.thy ===== *)
theory Mbedtls_Config
  imports Macros Port_Config
begin

text \<open>
  \<open>source/mist_port/mbedtls_config.h\<close>, the configuration of mbed TLS that the Makefile selects
  (MBEDTLS_CONFIG_FILE).  Each option of the header is a row: its directive, a define or one
  that is commented out, and the requirements that the comments of the header state for it, as a
  conjunction of disjunctions: those of its own comment (Requires), and those of another option's
  comment that says it is required for this one.  The headers it may include on other targets, and
  the check_config.h of mbed TLS that it includes at its end, are not in the repository: they are parameters.
\<close>

type_synonym option_row = "directive \<times> string list list"

section \<open>Names the requirements refer to collectively\<close>

definition curve_names :: "string list" where
  "curve_names = [
     ''MBEDTLS_ECP_DP_SECP192R1_ENABLED'',
     ''MBEDTLS_ECP_DP_SECP224R1_ENABLED'',
     ''MBEDTLS_ECP_DP_SECP256R1_ENABLED'',
     ''MBEDTLS_ECP_DP_SECP384R1_ENABLED'',
     ''MBEDTLS_ECP_DP_SECP521R1_ENABLED'',
     ''MBEDTLS_ECP_DP_SECP192K1_ENABLED'',
     ''MBEDTLS_ECP_DP_SECP224K1_ENABLED'',
     ''MBEDTLS_ECP_DP_SECP256K1_ENABLED'',
     ''MBEDTLS_ECP_DP_BP256R1_ENABLED'',
     ''MBEDTLS_ECP_DP_BP384R1_ENABLED'',
     ''MBEDTLS_ECP_DP_BP512R1_ENABLED'',
     ''MBEDTLS_ECP_DP_CURVE25519_ENABLED'']"

definition ssl_protocol_names :: "string list" where
  "ssl_protocol_names = [''MBEDTLS_SSL_PROTO_SSL3'', ''MBEDTLS_SSL_PROTO_TLS1'', ''MBEDTLS_SSL_PROTO_TLS1_1'',
     ''MBEDTLS_SSL_PROTO_TLS1_2'', ''MBEDTLS_SSL_PROTO_DTLS'']"

section \<open>System support and features\<close>

definition mbedtls_system :: "option_row list" where
  "mbedtls_system = [
     (Define ''MBEDTLS_HAVE_ASM'' Empty, []),
     (Commented ''MBEDTLS_HAVE_SSE2'', []),
     (Commented ''MBEDTLS_HAVE_TIME'', []),
     (Commented ''MBEDTLS_HAVE_TIME_DATE'', []),
     (Commented ''MBEDTLS_PLATFORM_MEMORY'', [[''MBEDTLS_PLATFORM_C'']]),
     (Commented ''MBEDTLS_PLATFORM_NO_STD_FUNCTIONS'', [[''MBEDTLS_PLATFORM_C'']]),
     (Commented ''MBEDTLS_PLATFORM_EXIT_ALT'', [[''MBEDTLS_PLATFORM_C'']]),
     (Commented ''MBEDTLS_PLATFORM_FPRINTF_ALT'', [[''MBEDTLS_PLATFORM_C'']]),
     (Commented ''MBEDTLS_PLATFORM_PRINTF_ALT'', [[''MBEDTLS_PLATFORM_C'']]),
     (Commented ''MBEDTLS_PLATFORM_SNPRINTF_ALT'', [[''MBEDTLS_PLATFORM_C'']]),
     (Commented ''MBEDTLS_DEPRECATED_WARNING'', []),
     (Commented ''MBEDTLS_DEPRECATED_REMOVED'', [])]"

definition mbedtls_alternatives :: "option_row list" where
  "mbedtls_alternatives = [
     (Commented ''MBEDTLS_TIMING_ALT'', []),
     (Commented ''MBEDTLS_AES_ALT'', []),
     (Commented ''MBEDTLS_ARC4_ALT'', []),
     (Commented ''MBEDTLS_BLOWFISH_ALT'', []),
     (Commented ''MBEDTLS_CAMELLIA_ALT'', []),
     (Commented ''MBEDTLS_DES_ALT'', []),
     (Commented ''MBEDTLS_XTEA_ALT'', []),
     (Commented ''MBEDTLS_MD2_ALT'', []),
     (Commented ''MBEDTLS_MD4_ALT'', []),
     (Commented ''MBEDTLS_MD5_ALT'', []),
     (Commented ''MBEDTLS_RIPEMD160_ALT'', []),
     (Commented ''MBEDTLS_SHA1_ALT'', []),
     (Commented ''MBEDTLS_SHA256_ALT'', []),
     (Commented ''MBEDTLS_SHA512_ALT'', []),
     (Commented ''MBEDTLS_MD2_PROCESS_ALT'', []),
     (Commented ''MBEDTLS_MD4_PROCESS_ALT'', []),
     (Commented ''MBEDTLS_MD5_PROCESS_ALT'', []),
     (Commented ''MBEDTLS_RIPEMD160_PROCESS_ALT'', []),
     (Commented ''MBEDTLS_SHA1_PROCESS_ALT'', []),
     (Commented ''MBEDTLS_SHA256_PROCESS_ALT'', []),
     (Commented ''MBEDTLS_SHA512_PROCESS_ALT'', []),
     (Commented ''MBEDTLS_DES_SETKEY_ALT'', []),
     (Commented ''MBEDTLS_DES_CRYPT_ECB_ALT'', []),
     (Commented ''MBEDTLS_DES3_CRYPT_ECB_ALT'', []),
     (Commented ''MBEDTLS_AES_SETKEY_ENC_ALT'', []),
     (Commented ''MBEDTLS_AES_SETKEY_DEC_ALT'', []),
     (Commented ''MBEDTLS_AES_ENCRYPT_ALT'', []),
     (Commented ''MBEDTLS_AES_DECRYPT_ALT'', []),
     (Commented ''MBEDTLS_ENTROPY_HARDWARE_ALT'', [])]"

definition mbedtls_cipher_features :: "option_row list" where
  "mbedtls_cipher_features = [
     (Commented ''MBEDTLS_AES_ROM_TABLES'', []),
     (Commented ''MBEDTLS_CAMELLIA_SMALL_MEMORY'', []),
     (Commented ''MBEDTLS_CIPHER_MODE_CBC'', []),
     (Commented ''MBEDTLS_CIPHER_MODE_CFB'', []),
     (Commented ''MBEDTLS_CIPHER_MODE_CTR'', []),
     (Commented ''MBEDTLS_CIPHER_NULL_CIPHER'', []),
     (Commented ''MBEDTLS_CIPHER_PADDING_PKCS7'', []),
     (Commented ''MBEDTLS_CIPHER_PADDING_ONE_AND_ZEROS'', []),
     (Commented ''MBEDTLS_CIPHER_PADDING_ZEROS_AND_LEN'', []),
     (Commented ''MBEDTLS_CIPHER_PADDING_ZEROS'', []),
     (Commented ''MBEDTLS_ENABLE_WEAK_CIPHERSUITES'', []),
     (Commented ''MBEDTLS_REMOVE_ARC4_CIPHERSUITES'', [])]"

definition mbedtls_curves :: "option_row list" where
  "mbedtls_curves = [
     (If0 [
        Define ''MBEDTLS_ECP_DP_SECP192R1_ENABLED'' Empty,
        Define ''MBEDTLS_ECP_DP_SECP224R1_ENABLED'' Empty,
        Define ''MBEDTLS_ECP_DP_SECP256R1_ENABLED'' Empty,
        Define ''MBEDTLS_ECP_DP_SECP384R1_ENABLED'' Empty,
        Define ''MBEDTLS_ECP_DP_SECP521R1_ENABLED'' Empty,
        Define ''MBEDTLS_ECP_DP_SECP192K1_ENABLED'' Empty,
        Define ''MBEDTLS_ECP_DP_SECP224K1_ENABLED'' Empty,
        Define ''MBEDTLS_ECP_DP_SECP256K1_ENABLED'' Empty,
        Define ''MBEDTLS_ECP_DP_BP256R1_ENABLED'' Empty,
        Define ''MBEDTLS_ECP_DP_BP384R1_ENABLED'' Empty,
        Define ''MBEDTLS_ECP_DP_BP512R1_ENABLED'' Empty,
        Define ''MBEDTLS_ECP_DP_CURVE25519_ENABLED'' Empty], [])]"

definition mbedtls_curve_features :: "option_row list" where
  "mbedtls_curve_features = [
     (Commented ''MBEDTLS_ECP_NIST_OPTIM'', []),
     (Commented ''MBEDTLS_ECDSA_DETERMINISTIC'', [[''MBEDTLS_HMAC_DRBG_C'']])]"

definition mbedtls_key_exchange :: "option_row list" where
  "mbedtls_key_exchange = [
     (Commented ''MBEDTLS_KEY_EXCHANGE_PSK_ENABLED'', []),
     (Commented ''MBEDTLS_KEY_EXCHANGE_DHE_PSK_ENABLED'', [[''MBEDTLS_DHM_C'']]),
     (Commented ''MBEDTLS_KEY_EXCHANGE_ECDHE_PSK_ENABLED'', [[''MBEDTLS_ECDH_C'']]),
     (Commented ''MBEDTLS_KEY_EXCHANGE_RSA_PSK_ENABLED'', [[''MBEDTLS_RSA_C''], [''MBEDTLS_PKCS1_V15''], [''MBEDTLS_X509_CRT_PARSE_C'']]),
     (Commented ''MBEDTLS_KEY_EXCHANGE_RSA_ENABLED'', [[''MBEDTLS_RSA_C''], [''MBEDTLS_PKCS1_V15''], [''MBEDTLS_X509_CRT_PARSE_C'']]),
     (Commented ''MBEDTLS_KEY_EXCHANGE_DHE_RSA_ENABLED'', [[''MBEDTLS_DHM_C''], [''MBEDTLS_RSA_C''], [''MBEDTLS_PKCS1_V15''], [''MBEDTLS_X509_CRT_PARSE_C'']])]"

definition mbedtls_key_exchange_ec :: "option_row list" where
  "mbedtls_key_exchange_ec = [
     (Commented ''MBEDTLS_KEY_EXCHANGE_ECDHE_RSA_ENABLED'', [[''MBEDTLS_ECDH_C''], [''MBEDTLS_RSA_C''], [''MBEDTLS_PKCS1_V15''], [''MBEDTLS_X509_CRT_PARSE_C'']]),
     (Commented ''MBEDTLS_KEY_EXCHANGE_ECDHE_ECDSA_ENABLED'', [[''MBEDTLS_ECDH_C''], [''MBEDTLS_ECDSA_C''], [''MBEDTLS_X509_CRT_PARSE_C'']]),
     (Commented ''MBEDTLS_KEY_EXCHANGE_ECDH_ECDSA_ENABLED'', [[''MBEDTLS_ECDH_C''], [''MBEDTLS_X509_CRT_PARSE_C'']]),
     (Commented ''MBEDTLS_KEY_EXCHANGE_ECDH_RSA_ENABLED'', [[''MBEDTLS_ECDH_C''], [''MBEDTLS_X509_CRT_PARSE_C'']])]"

definition mbedtls_library_features :: "option_row list" where
  "mbedtls_library_features = [
     (Commented ''MBEDTLS_PK_PARSE_EC_EXTENDED'', []),
     (Commented ''MBEDTLS_ERROR_STRERROR_DUMMY'', []),
     (Commented ''MBEDTLS_GENPRIME'', [[''MBEDTLS_BIGNUM_C'']]),
     (Commented ''MBEDTLS_FS_IO'', []),
     (Commented ''MBEDTLS_NO_DEFAULT_ENTROPY_SOURCES'', []),
     (Commented ''MBEDTLS_NO_PLATFORM_ENTROPY'', []),
     (Commented ''MBEDTLS_ENTROPY_FORCE_SHA256'', [[''MBEDTLS_SHA256_C'']]),
     (Commented ''MBEDTLS_MEMORY_DEBUG'', [[''MBEDTLS_MEMORY_BUFFER_ALLOC_C'']]),
     (Commented ''MBEDTLS_MEMORY_BACKTRACE'', [[''MBEDTLS_MEMORY_BUFFER_ALLOC_C'']])]"

definition mbedtls_rsa_features :: "option_row list" where
  "mbedtls_rsa_features = [
     (Commented ''MBEDTLS_PK_RSA_ALT_SUPPORT'', []),
     (Commented ''MBEDTLS_PKCS1_V15'', [[''MBEDTLS_RSA_C'']]),
     (Commented ''MBEDTLS_PKCS1_V21'', [[''MBEDTLS_MD_C''], [''MBEDTLS_RSA_C'']]),
     (Commented ''MBEDTLS_RSA_NO_CRT'', []),
     (Commented ''MBEDTLS_SELF_TEST'', []),
     (Commented ''MBEDTLS_SHA256_SMALLER'', [])]"

definition mbedtls_ssl_features :: "option_row list" where
  "mbedtls_ssl_features = [
     (Commented ''MBEDTLS_SSL_ALL_ALERT_MESSAGES'', []),
     (Commented ''MBEDTLS_SSL_DEBUG_ALL'', []),
     (Commented ''MBEDTLS_SSL_ENCRYPT_THEN_MAC'', [[''MBEDTLS_SSL_PROTO_TLS1'', ''MBEDTLS_SSL_PROTO_TLS1_1'', ''MBEDTLS_SSL_PROTO_TLS1_2'']]),
     (Commented ''MBEDTLS_SSL_EXTENDED_MASTER_SECRET'', [[''MBEDTLS_SSL_PROTO_TLS1'', ''MBEDTLS_SSL_PROTO_TLS1_1'', ''MBEDTLS_SSL_PROTO_TLS1_2'']]),
     (Commented ''MBEDTLS_SSL_FALLBACK_SCSV'', []),
     (Commented ''MBEDTLS_SSL_HW_RECORD_ACCEL'', []),
     (Commented ''MBEDTLS_SSL_CBC_RECORD_SPLITTING'', []),
     (Commented ''MBEDTLS_SSL_RENEGOTIATION'', []),
     (Commented ''MBEDTLS_SSL_SRV_SUPPORT_SSLV2_CLIENT_HELLO'', []),
     (Commented ''MBEDTLS_SSL_SRV_RESPECT_CLIENT_PREFERENCE'', [])]"

definition mbedtls_ssl_protocols :: "option_row list" where
  "mbedtls_ssl_protocols = [
     (Commented ''MBEDTLS_SSL_MAX_FRAGMENT_LENGTH'', []),
     (Commented ''MBEDTLS_SSL_PROTO_SSL3'', [[''MBEDTLS_MD5_C''], [''MBEDTLS_SHA1_C'']]),
     (Commented ''MBEDTLS_SSL_PROTO_TLS1'', [[''MBEDTLS_MD5_C''], [''MBEDTLS_SHA1_C'']]),
     (Commented ''MBEDTLS_SSL_PROTO_TLS1_1'', [[''MBEDTLS_MD5_C''], [''MBEDTLS_SHA1_C'']]),
     (Commented ''MBEDTLS_SSL_PROTO_TLS1_2'', [[''MBEDTLS_SHA1_C'', ''MBEDTLS_SHA256_C'', ''MBEDTLS_SHA512_C''], [''MBEDTLS_SHA256_C'']]),
     (Commented ''MBEDTLS_SSL_PROTO_DTLS'', [[''MBEDTLS_SSL_PROTO_TLS1_1'', ''MBEDTLS_SSL_PROTO_TLS1_2'']]),
     (Commented ''MBEDTLS_SSL_ALPN'', [])]"

definition mbedtls_dtls_features :: "option_row list" where
  "mbedtls_dtls_features = [
     (Commented ''MBEDTLS_SSL_DTLS_ANTI_REPLAY'', [[''MBEDTLS_SSL_TLS_C''], [''MBEDTLS_SSL_PROTO_DTLS'']]),
     (Commented ''MBEDTLS_SSL_DTLS_HELLO_VERIFY'', [[''MBEDTLS_SSL_PROTO_DTLS'']]),
     (Commented ''MBEDTLS_SSL_DTLS_CLIENT_PORT_REUSE'', [[''MBEDTLS_SSL_DTLS_HELLO_VERIFY'']]),
     (Commented ''MBEDTLS_SSL_DTLS_BADMAC_LIMIT'', [[''MBEDTLS_SSL_PROTO_DTLS'']]),
     (Commented ''MBEDTLS_SSL_SESSION_TICKETS'', []),
     (Commented ''MBEDTLS_SSL_SERVER_NAME_INDICATION'', [[''MBEDTLS_X509_CRT_PARSE_C'']]),
     (Commented ''MBEDTLS_SSL_TRUNCATED_HMAC'', []),
     (Commented ''MBEDTLS_SSL_TRUNCATED_HMAC_COMPAT'', [[''MBEDTLS_SSL_TRUNCATED_HMAC'']]),
     (Commented ''MBEDTLS_THREADING_ALT'', [[''MBEDTLS_THREADING_C'']]),
     (Commented ''MBEDTLS_THREADING_PTHREAD'', [[''MBEDTLS_THREADING_C'']])]"

definition mbedtls_x509_features :: "option_row list" where
  "mbedtls_x509_features = [
     (Commented ''MBEDTLS_VERSION_FEATURES'', [[''MBEDTLS_VERSION_C'']]),
     (Commented ''MBEDTLS_X509_ALLOW_EXTENSIONS_NON_V3'', []),
     (Commented ''MBEDTLS_X509_ALLOW_UNSUPPORTED_CRITICAL_EXTENSION'', []),
     (Commented ''MBEDTLS_X509_CHECK_KEY_USAGE'', []),
     (Commented ''MBEDTLS_X509_CHECK_EXTENDED_KEY_USAGE'', []),
     (Commented ''MBEDTLS_X509_RSASSA_PSS_SUPPORT'', []),
     (Commented ''MBEDTLS_ZLIB_SUPPORT'', [])]"

section \<open>Modules\<close>

definition mbedtls_aesni :: "option_row list" where
  "mbedtls_aesni = [
     (Commented ''MBEDTLS_AESNI_C'', [[''MBEDTLS_HAVE_ASM'']])]"

definition mbedtls_aes :: "option_row list" where
  "mbedtls_aes = [
     (Define ''MBEDTLS_AES_C'' Empty, [])]"

definition mbedtls_encodings :: "option_row list" where
  "mbedtls_encodings = [
     (Commented ''MBEDTLS_ARC4_C'', []),
     (Commented ''MBEDTLS_ASN1_PARSE_C'', []),
     (Commented ''MBEDTLS_ASN1_WRITE_C'', []),
     (Define ''MBEDTLS_BASE64_C'' Empty, []),
     (Define ''MBEDTLS_BIGNUM_C'' Empty, []),
     (Commented ''MBEDTLS_BLOWFISH_C'', [])]"

definition mbedtls_cipher_modules :: "option_row list" where
  "mbedtls_cipher_modules = [
     (Commented ''MBEDTLS_CAMELLIA_C'', []),
     (Commented ''MBEDTLS_CCM_C'', [[''MBEDTLS_AES_C'', ''MBEDTLS_CAMELLIA_C'']]),
     (Commented ''MBEDTLS_CERTS_C'', []),
     (Define ''MBEDTLS_CIPHER_C'' Empty, []),
     (Define ''MBEDTLS_CTR_DRBG_C'' Empty, [[''MBEDTLS_AES_C'']]),
     (Commented ''MBEDTLS_DEBUG_C'', [])]"

definition mbedtls_curve_modules :: "option_row list" where
  "mbedtls_curve_modules = [
     (Commented ''MBEDTLS_DES_C'', []),
     (Define ''MBEDTLS_DHM_C'' Empty, [[''MBEDTLS_BIGNUM_C'']]),
     (Commented ''MBEDTLS_ECDH_C'', [[''MBEDTLS_ECP_C''], [''MBEDTLS_BIGNUM_C'']]),
     (Commented ''MBEDTLS_ECDSA_C'', [[''MBEDTLS_ECP_C''], [''MBEDTLS_ASN1_WRITE_C''], [''MBEDTLS_ASN1_PARSE_C''], [''MBEDTLS_BIGNUM_C'']]),
     (Commented ''MBEDTLS_ECP_C'', [[''MBEDTLS_BIGNUM_C''], curve_names]),
     (Define ''MBEDTLS_ENTROPY_C'' Empty, [[''MBEDTLS_SHA512_C'', ''MBEDTLS_SHA256_C'']]),
     (Commented ''MBEDTLS_ERROR_C'', [])]"

definition mbedtls_random_modules :: "option_row list" where
  "mbedtls_random_modules = [
     (Define ''MBEDTLS_GCM_C'' Empty, [[''MBEDTLS_AES_C'', ''MBEDTLS_CAMELLIA_C'']]),
     (Commented ''MBEDTLS_HAVEGE_C'', [[''MBEDTLS_TIMING_C'']]),
     (Define ''MBEDTLS_HMAC_DRBG_C'' Empty, [[''MBEDTLS_MD_C'']])]"

definition mbedtls_digest_modules :: "option_row list" where
  "mbedtls_digest_modules = [
     (Define ''MBEDTLS_MD_C'' Empty, []),
     (Commented ''MBEDTLS_MD2_C'', []),
     (Commented ''MBEDTLS_MD4_C'', []),
     (Commented ''MBEDTLS_MD5_C'', [])]"

definition mbedtls_system_modules :: "option_row list" where
  "mbedtls_system_modules = [
     (Commented ''MBEDTLS_MEMORY_BUFFER_ALLOC_C'', [[''MBEDTLS_PLATFORM_C''], [''MBEDTLS_PLATFORM_MEMORY'']]),
     (Commented ''MBEDTLS_NET_C'', []),
     (Commented ''MBEDTLS_OID_C'', []),
     (Commented ''MBEDTLS_PADLOCK_C'', [[''MBEDTLS_HAVE_ASM'']])]"

definition mbedtls_pem_pk_modules :: "option_row list" where
  "mbedtls_pem_pk_modules = [
     (Commented ''MBEDTLS_PEM_PARSE_C'', [[''MBEDTLS_BASE64_C'']]),
     (Commented ''MBEDTLS_PEM_WRITE_C'', [[''MBEDTLS_BASE64_C'']]),
     (Commented ''MBEDTLS_PK_C'', [[''MBEDTLS_RSA_C'', ''MBEDTLS_ECP_C'']]),
     (Commented ''MBEDTLS_PK_PARSE_C'', [[''MBEDTLS_PK_C'']]),
     (Commented ''MBEDTLS_PK_WRITE_C'', [[''MBEDTLS_PK_C'']]),
     (Commented ''MBEDTLS_PKCS5_C'', [[''MBEDTLS_MD_C'']]),
     (Commented ''MBEDTLS_PKCS11_C'', [[''MBEDTLS_PK_C'']]),
     (Commented ''MBEDTLS_PKCS12_C'', [[''MBEDTLS_ASN1_PARSE_C''], [''MBEDTLS_CIPHER_C''], [''MBEDTLS_MD_C'']])]"

definition mbedtls_platform_modules :: "option_row list" where
  "mbedtls_platform_modules = [
     (Define ''MBEDTLS_PLATFORM_C'' Empty, []),
     (Commented ''MBEDTLS_RIPEMD160_C'', []),
     (Commented ''MBEDTLS_RSA_C'', [[''MBEDTLS_BIGNUM_C''], [''MBEDTLS_OID_C'']]),
     (Commented ''MBEDTLS_SHA1_C'', []),
     (Define ''MBEDTLS_SHA256_C'' Empty, []),
     (Commented ''MBEDTLS_SHA512_C'', [])]"

definition mbedtls_ssl_modules :: "option_row list" where
  "mbedtls_ssl_modules = [
     (Commented ''MBEDTLS_SSL_CACHE_C'', [[''MBEDTLS_SSL_CACHE_C'']]),
     (Commented ''MBEDTLS_SSL_COOKIE_C'', []),
     (Commented ''MBEDTLS_SSL_TICKET_C'', [[''MBEDTLS_CIPHER_C'']]),
     (Commented ''MBEDTLS_SSL_CLI_C'', [[''MBEDTLS_SSL_TLS_C'']]),
     (Commented ''MBEDTLS_SSL_SRV_C'', [[''MBEDTLS_SSL_TLS_C'']]),
     (Commented ''MBEDTLS_SSL_TLS_C'', [[''MBEDTLS_CIPHER_C''], [''MBEDTLS_MD_C''], ssl_protocol_names])]"

definition mbedtls_timing_modules :: "option_row list" where
  "mbedtls_timing_modules = [
     (Commented ''MBEDTLS_THREADING_C'', []),
     (Define ''MBEDTLS_TIMING_C'' Empty, []),
     (Commented ''MBEDTLS_VERSION_C'', [])]"

definition mbedtls_x509_modules :: "option_row list" where
  "mbedtls_x509_modules = [
     (Commented ''MBEDTLS_X509_USE_C'', [[''MBEDTLS_ASN1_PARSE_C''], [''MBEDTLS_BIGNUM_C''], [''MBEDTLS_OID_C''], [''MBEDTLS_PK_PARSE_C'']]),
     (Commented ''MBEDTLS_X509_CRT_PARSE_C'', [[''MBEDTLS_X509_USE_C'']]),
     (Commented ''MBEDTLS_X509_CRL_PARSE_C'', [[''MBEDTLS_X509_USE_C'']]),
     (Commented ''MBEDTLS_X509_CSR_PARSE_C'', [[''MBEDTLS_X509_USE_C'']]),
     (Commented ''MBEDTLS_X509_CREATE_C'', [[''MBEDTLS_BIGNUM_C''], [''MBEDTLS_OID_C''], [''MBEDTLS_PK_WRITE_C'']]),
     (Commented ''MBEDTLS_X509_CRT_WRITE_C'', [[''MBEDTLS_X509_CREATE_C'']]),
     (Commented ''MBEDTLS_X509_CSR_WRITE_C'', [[''MBEDTLS_X509_CREATE_C'']]),
     (Commented ''MBEDTLS_XTEA_C'', [])]"

section \<open>Module configuration options\<close>

definition mbedtls_number_options :: "option_row list" where
  "mbedtls_number_options = [
     (Commented ''MBEDTLS_MPI_WINDOW_SIZE'', []),
     (Commented ''MBEDTLS_MPI_MAX_SIZE'', []),
     (Commented ''MBEDTLS_CTR_DRBG_ENTROPY_LEN'', []),
     (Commented ''MBEDTLS_CTR_DRBG_RESEED_INTERVAL'', []),
     (Commented ''MBEDTLS_CTR_DRBG_MAX_INPUT'', []),
     (Commented ''MBEDTLS_CTR_DRBG_MAX_REQUEST'', []),
     (Commented ''MBEDTLS_CTR_DRBG_MAX_SEED_INPUT'', []),
     (Commented ''MBEDTLS_HMAC_DRBG_RESEED_INTERVAL'', []),
     (Commented ''MBEDTLS_HMAC_DRBG_MAX_INPUT'', []),
     (Commented ''MBEDTLS_HMAC_DRBG_MAX_REQUEST'', []),
     (Commented ''MBEDTLS_HMAC_DRBG_MAX_SEED_INPUT'', []),
     (Commented ''MBEDTLS_ECP_MAX_BITS'', []),
     (Commented ''MBEDTLS_ECP_WINDOW_SIZE'', []),
     (Commented ''MBEDTLS_ECP_FIXED_POINT_OPTIM'', []),
     (Commented ''MBEDTLS_ENTROPY_MAX_SOURCES'', []),
     (Commented ''MBEDTLS_ENTROPY_MAX_GATHER'', [])]"

definition mbedtls_platform_options :: "option_row list" where
  "mbedtls_platform_options = [
     (Commented ''MBEDTLS_MEMORY_ALIGN_MULTIPLE'', []),
     (Commented ''MBEDTLS_PLATFORM_STD_MEM_HDR'', []),
     (Commented ''MBEDTLS_PLATFORM_STD_CALLOC'', []),
     (Commented ''MBEDTLS_PLATFORM_STD_FREE'', []),
     (Commented ''MBEDTLS_PLATFORM_STD_EXIT'', []),
     (Commented ''MBEDTLS_PLATFORM_STD_FPRINTF'', []),
     (Commented ''MBEDTLS_PLATFORM_STD_PRINTF'', []),
     (Commented ''MBEDTLS_PLATFORM_STD_SNPRINTF'', []),
     (Commented ''MBEDTLS_PLATFORM_CALLOC_MACRO'', [[''MBEDTLS_PLATFORM_C'']]),
     (Commented ''MBEDTLS_PLATFORM_FREE_MACRO'', [[''MBEDTLS_PLATFORM_C'']]),
     (Commented ''MBEDTLS_PLATFORM_EXIT_MACRO'', [[''MBEDTLS_PLATFORM_C'']]),
     (Commented ''MBEDTLS_PLATFORM_FPRINTF_MACRO'', [[''MBEDTLS_PLATFORM_C'']]),
     (Commented ''MBEDTLS_PLATFORM_PRINTF_MACRO'', [[''MBEDTLS_PLATFORM_C'']]),
     (Commented ''MBEDTLS_PLATFORM_SNPRINTF_MACRO'', [[''MBEDTLS_PLATFORM_C'']])]"

definition mbedtls_ssl_options :: "option_row list" where
  "mbedtls_ssl_options = [
     (Commented ''MBEDTLS_SSL_CACHE_DEFAULT_TIMEOUT'', []),
     (Commented ''MBEDTLS_SSL_CACHE_DEFAULT_MAX_ENTRIES'', []),
     (Commented ''MBEDTLS_SSL_MAX_CONTENT_LEN'', []),
     (Commented ''MBEDTLS_SSL_DEFAULT_TICKET_LIFETIME'', []),
     (Commented ''MBEDTLS_PSK_MAX_LEN'', []),
     (Commented ''MBEDTLS_SSL_COOKIE_TIMEOUT'', []),
     (Commented ''MBEDTLS_SSL_CIPHERSUITES'', []),
     (Commented ''MBEDTLS_X509_MAX_INTERMEDIATE_CA'', []),
     (Commented ''MBEDTLS_X509_MAX_FILE_PATH_LEN'', []),
     (Commented ''MBEDTLS_TLS_DEFAULT_ALLOW_SHA1_IN_CERTIFICATES'', []),
     (Commented ''MBEDTLS_TLS_DEFAULT_ALLOW_SHA1_IN_KEY_EXCHANGE'', [])]"

section \<open>The header\<close>

definition mbedtls_rows :: "option_row list" where
  "mbedtls_rows =
     (mbedtls_system @ mbedtls_alternatives @ mbedtls_cipher_features @ mbedtls_curves @
      mbedtls_curve_features @ mbedtls_key_exchange @ mbedtls_key_exchange_ec @ mbedtls_library_features @
      mbedtls_rsa_features @ mbedtls_ssl_features @ mbedtls_ssl_protocols @ mbedtls_dtls_features @
      mbedtls_x509_features @ mbedtls_aesni @ mbedtls_aes @ mbedtls_encodings @
      mbedtls_cipher_modules @ mbedtls_curve_modules @ mbedtls_random_modules @ mbedtls_digest_modules @
      mbedtls_system_modules @ mbedtls_pem_pk_modules @ mbedtls_platform_modules @ mbedtls_ssl_modules @
      mbedtls_timing_modules @ mbedtls_x509_modules @ mbedtls_number_options @ mbedtls_platform_options @
      mbedtls_ssl_options)"

definition mbedtls_config_h :: "directive list \<Rightarrow> directive list \<Rightarrow> directive list \<Rightarrow> directive list \<Rightarrow> directive list" where
  "mbedtls_config_h target_config yotta_config user_config check_config = include_once ''MBEDTLS_CONFIG_H''
     ([IfDef ''_MSC_VER'' [IfNdef ''_CRT_SECURE_NO_DEPRECATE'' [Define ''_CRT_SECURE_NO_DEPRECATE'' (Num 1)]]] @
      map fst mbedtls_rows @
      [IfDef ''TARGET_LIKE_MBED'' target_config,
       IfDef ''YOTTA_CFG_MBEDTLS_USER_CONFIG_FILE'' yotta_config,
       IfNdef ''YOTTA_CFG_MBEDTLS_USER_CONFIG_FILE'' [IfDef ''MBEDTLS_USER_CONFIG_FILE'' user_config]] @
      check_config)"

section \<open>Which options are on, and whether their requirements are met\<close>

fun row_option :: "option_row \<Rightarrow> string option" where
  "row_option (Define n b, rs) = Some n"
| "row_option (Commented n, rs) = Some n"
| "row_option (_, rs) = None"

definition row_on :: "macros \<Rightarrow> option_row \<Rightarrow> bool" where
  "row_on m row \<longleftrightarrow> (case row_option row of Some n \<Rightarrow> m n \<noteq> None | None \<Rightarrow> False)"

definition active_rows :: "macros \<Rightarrow> option_row list" where
  "active_rows m = filter (row_on m) mbedtls_rows"

definition enabled :: "macros \<Rightarrow> string list" where
  "enabled m = List.map_filter row_option (active_rows m)"

definition requirement_met :: "macros \<Rightarrow> option_row \<Rightarrow> bool" where
  "requirement_met m row \<longleftrightarrow> list_all (list_ex (\<lambda>r. m r \<noteq> None)) (snd row)"

definition requirements_met :: "macros \<Rightarrow> bool" where
  "requirements_met m \<longleftrightarrow> list_all (\<lambda>row. row_on m row \<longrightarrow> requirement_met m row) mbedtls_rows"

lemma requirements_met_active: "requirements_met m \<longleftrightarrow> list_all (requirement_met m) (active_rows m)"
  by (auto simp: requirements_met_def active_rows_def list_all_iff)

text \<open>Switching options off leaves fewer rows to look at.\<close>

lemma active_rows_mono:
  assumes "\<And>n. m n = None \<Longrightarrow> m' n = None"
  shows "active_rows m' = filter (row_on m') (active_rows m)"
  unfolding active_rows_def filter_filter
  using assms by (intro filter_cong) (fastforce simp: row_on_def split: option.splits)+

section \<open>What this header switches on\<close>

definition port_options :: "option_row list" where
  "port_options = [
     (Define ''MBEDTLS_HAVE_ASM'' Empty, []),
     (Define ''MBEDTLS_AES_C'' Empty, []),
     (Define ''MBEDTLS_BASE64_C'' Empty, []),
     (Define ''MBEDTLS_BIGNUM_C'' Empty, []),
     (Define ''MBEDTLS_CIPHER_C'' Empty, []),
     (Define ''MBEDTLS_CTR_DRBG_C'' Empty, [[''MBEDTLS_AES_C'']]),
     (Define ''MBEDTLS_DHM_C'' Empty, [[''MBEDTLS_BIGNUM_C'']]),
     (Define ''MBEDTLS_ENTROPY_C'' Empty, [[''MBEDTLS_SHA512_C'', ''MBEDTLS_SHA256_C'']]),
     (Define ''MBEDTLS_GCM_C'' Empty, [[''MBEDTLS_AES_C'', ''MBEDTLS_CAMELLIA_C'']]),
     (Define ''MBEDTLS_HMAC_DRBG_C'' Empty, [[''MBEDTLS_MD_C'']]),
     (Define ''MBEDTLS_MD_C'' Empty, []),
     (Define ''MBEDTLS_PLATFORM_C'' Empty, []),
     (Define ''MBEDTLS_SHA256_C'' Empty, []),
     (Define ''MBEDTLS_TIMING_C'' Empty, [])]"

definition port_macros :: macros where
  "port_macros = preprocess (map fst port_options) Map.empty"

lemma header_defines:
  "list_all unconditional (map fst mbedtls_rows)" "filter is_Define (map fst mbedtls_rows) = map fst port_options"
  by code_simp+

lemma port_active: "active_rows port_macros = port_options"
  by code_simp

lemma port_requirements: "list_all (requirement_met port_macros) port_options"
  by code_simp

lemma port_curves: "list_all (\<lambda>c. port_macros c = None) curve_names"
  by code_simp

text \<open>The options whose removal leaves another option without what it requires.\<close>

definition load_bearing :: "string list" where
  "load_bearing = [''MBEDTLS_AES_C'', ''MBEDTLS_BIGNUM_C'', ''MBEDTLS_MD_C'', ''MBEDTLS_SHA256_C'']"

lemma port_load_bearing:
  "list_all (\<lambda>row. case row_option row of Some n \<Rightarrow>
       list_all (requirement_met (port_macros(n := None))) (filter (row_on (port_macros(n := None))) port_options)
         = (n \<notin> set load_bearing) | None \<Rightarrow> True) port_options"
  by code_simp

section \<open>From the header to a build\<close>

text \<open>The macros a build must leave alone for the header to decide.\<close>

definition mbedtls_names :: "string list" where
  "mbedtls_names = names (mbedtls_config_h [] [] [] [])"

lemma mbedtls_names_parts:
  "set mbedtls_names = {''MBEDTLS_CONFIG_H'', ''_MSC_VER'', ''_CRT_SECURE_NO_DEPRECATE'', ''TARGET_LIKE_MBED'',
      ''YOTTA_CFG_MBEDTLS_USER_CONFIG_FILE'', ''MBEDTLS_USER_CONFIG_FILE''} \<union> set (names (map fst mbedtls_rows))"
  by (auto simp: mbedtls_names_def mbedtls_config_h_def include_once_def names_append)

lemma other_names:
  "list_all (\<lambda>n. n \<notin> set (names (map fst mbedtls_rows)))
     [''MBEDTLS_CONFIG_H'', ''_MSC_VER'', ''TARGET_LIKE_MBED'', ''YOTTA_CFG_MBEDTLS_USER_CONFIG_FILE'', ''MBEDTLS_USER_CONFIG_FILE'']"
  by code_simp

lemma no_hooks:
  assumes "build g = None" and "list_all (\<lambda>n. n \<noteq> g \<and> build n = None) [v, a, b, c]"
    and "list_all (\<lambda>n. n \<notin> set (names ds)) [a, b, c]"
  shows "preprocess (include_once g ([IfDef v X] @ ds @ [IfDef a T, IfDef b Y, IfNdef b [IfDef c U]] @ C)) build =
    preprocess C (preprocess ds (build(g \<mapsto> Empty)))"
  using assms by (simp add: include_once_def preprocess_append preprocess_other)

text \<open>
  What mbed TLS promises of check_config.h: outside Windows it only checks the options, and changes none.
\<close>

definition only_checks :: "directive list \<Rightarrow> bool" where
  "only_checks ds \<longleftrightarrow> (\<forall>m. m ''_WIN32'' = None \<longrightarrow> (\<forall>n \<in> set (names (map fst mbedtls_rows)). preprocess ds m n = m n))"

lemma windows_other: "''_WIN32'' \<notin> set (names (map fst mbedtls_rows))"
  by code_simp

lemma header_result:
  assumes "\<forall>n \<in> set mbedtls_names. build n = None" and "build ''_WIN32'' = None" and "only_checks C"
  shows "\<forall>n \<in> set (names (map fst mbedtls_rows)). preprocess (mbedtls_config_h T Y U C) build n = port_macros n"
proof -
  let ?b = "build(''MBEDTLS_CONFIG_H'' \<mapsto> Empty)" and ?rows = "map fst mbedtls_rows"
  have fresh: "build ''MBEDTLS_CONFIG_H'' = None"
    "list_all (\<lambda>n. n \<noteq> ''MBEDTLS_CONFIG_H'' \<and> build n = None)
      [''_MSC_VER'', ''TARGET_LIKE_MBED'', ''YOTTA_CFG_MBEDTLS_USER_CONFIG_FILE'', ''MBEDTLS_USER_CONFIG_FILE'']"
    "\<forall>n \<in> set (names ?rows). build n = None"
    using assms(1) by (simp_all add: mbedtls_names_parts)
  have "preprocess (mbedtls_config_h T Y U C) build = preprocess C (preprocess ?rows ?b)"
    unfolding mbedtls_config_h_def using fresh(1,2) other_names by (intro no_hooks) simp_all
  moreover have "\<forall>n \<in> set (names ?rows). preprocess ?rows ?b n = preprocess ?rows Map.empty n"
    using fresh(3) other_names by (intro preprocess_agree) auto
  moreover have "preprocess ?rows Map.empty = port_macros"
    by (simp add: preprocess_unconditional [OF header_defines(1)] header_defines(2) port_macros_def)
  moreover have "preprocess ?rows ?b ''_WIN32'' = None"
    using assms(2) windows_other by (simp add: preprocess_other)
  ultimately show ?thesis using assms(3) by (simp add: only_checks_def)
qed

lemma row_option_in: "row \<in> set rows \<Longrightarrow> row_option row = Some n \<Longrightarrow> n \<in> set (names (map fst rows))"
proof (induction rows)
  case (Cons r rows)
  then show ?case by (cases r; cases "fst r") auto
qed simp

lemma port_required: "list_all (\<lambda>row. list_all (list_all (\<lambda>r. r \<in> set (names (map fst mbedtls_rows)))) (snd row)) port_options"
  by code_simp

lemma requirement_met_cong:
  assumes "row \<in> set port_options" and "\<And>n. n \<in> set (names (map fst mbedtls_rows)) \<Longrightarrow> m n = m' n"
  shows "requirement_met m row = requirement_met m' row"
proof -
  have "\<forall>c \<in> set (snd row). list_ex (\<lambda>r. m r \<noteq> None) c = list_ex (\<lambda>r. m' r \<noteq> None) c"
    using port_required assms by (fastforce simp: list_all_iff list_ex_iff)
  then show ?thesis by (simp add: requirement_met_def list_all_iff)
qed

lemma active_rows_cong:
  assumes "\<And>n. n \<in> set (names (map fst mbedtls_rows)) \<Longrightarrow> m n = m' n"
  shows "active_rows m = active_rows m'"
  unfolding active_rows_def
  by (rule filter_cong) (auto simp: row_on_def assms row_option_in split: option.splits)

lemma requirements_met_port:
  assumes "\<And>n. n \<in> set (names (map fst mbedtls_rows)) \<Longrightarrow> m n = m' n" and "\<And>n. port_macros n = None \<Longrightarrow> m' n = None"
  shows "requirements_met m \<longleftrightarrow> list_all (requirement_met m') (filter (row_on m') port_options)"
proof -
  have "active_rows m = filter (row_on m') port_options"
    using active_rows_cong [of m m'] active_rows_mono [of port_macros m'] assms port_active by simp
  moreover have "requirement_met m row = requirement_met m' row" if "row \<in> set port_options" for row
    using requirement_met_cong [OF that] assms(1) by blast
  ultimately show ?thesis by (auto simp: requirements_met_active list_all_iff)
qed

text \<open>
  Property C31. For a build for a target other than Windows that predefines none of its macros, the header switches on exactly
  fourteen options: the block cipher AES with GCM as its only mode, SHA-256, the two random
  generators with their entropy pool, big numbers and Diffie-Hellman, and five support modules;
  no curve, no TLS, no certificate code.  Every requirement a comment of the header states for
  one of them is met, and no option could be dropped less carefully than that: the
  requirements survive switching off an option exactly when it is not AES, BIGNUM, MD or SHA-256.  Of the
  included check_config.h of mbed TLS it is demanded that it only checks the options (\<open>only_checks\<close>).
\<close>

theorem mbedtls_configuration_closed:
  fixes build :: macros and target_config yotta_config user_config
  assumes "\<forall>n \<in> set mbedtls_names. build n = None" and "build ''_WIN32'' = None" and "only_checks check_config"
  defines "m \<equiv> preprocess (mbedtls_config_h target_config yotta_config user_config check_config) build"
  shows "enabled m = [''MBEDTLS_HAVE_ASM'', ''MBEDTLS_AES_C'', ''MBEDTLS_BASE64_C'', ''MBEDTLS_BIGNUM_C'',
      ''MBEDTLS_CIPHER_C'', ''MBEDTLS_CTR_DRBG_C'', ''MBEDTLS_DHM_C'', ''MBEDTLS_ENTROPY_C'', ''MBEDTLS_GCM_C'',
      ''MBEDTLS_HMAC_DRBG_C'', ''MBEDTLS_MD_C'', ''MBEDTLS_PLATFORM_C'', ''MBEDTLS_SHA256_C'', ''MBEDTLS_TIMING_C''] \<and>
    requirements_met m \<and>
    (\<forall>n \<in> set (enabled m). requirements_met (m(n := None)) \<longleftrightarrow>
       n \<notin> {''MBEDTLS_AES_C'', ''MBEDTLS_BIGNUM_C'', ''MBEDTLS_MD_C'', ''MBEDTLS_SHA256_C''})"
proof -
  have agree: "\<And>n. n \<in> set (names (map fst mbedtls_rows)) \<Longrightarrow> m n = port_macros n"
    using header_result [OF assms(1-3)] by (simp add: m_def)
  have on: "enabled m = List.map_filter row_option port_options"
    using active_rows_cong [OF agree] by (simp add: enabled_def port_active)
  have met: "requirements_met m"
    using port_requirements requirements_met_port [of m port_macros] agree by (simp add: list_all_iff)
  have bearing: "requirements_met (m(n := None)) \<longleftrightarrow> n \<notin> set load_bearing" if "n \<in> set (enabled m)" for n
  proof -
    from that obtain row where "row \<in> set port_options" "row_option row = Some n"
      by (auto simp: on map_filter_def)
    with port_load_bearing have "list_all (requirement_met (port_macros(n := None)))
        (filter (row_on (port_macros(n := None))) port_options) = (n \<notin> set load_bearing)"
      unfolding list_all_iff [of _ port_options] by force
    then show ?thesis
      using requirements_met_port [of "m(n := None)" "port_macros(n := None)"] agree by simp
  qed
  show ?thesis
    using met bearing by (simp add: on load_bearing_def) (simp add: port_options_def map_filter_def)
qed

text \<open>A check that looks at two options and marks itself as read, as check_config.h does.\<close>

definition sample_check :: "directive list" where
  "sample_check = include_once ''MBEDTLS_CHECK_CONFIG_H'' [IfDef ''MBEDTLS_GCM_C'' [IfNdef ''MBEDTLS_AES_C'' []]]"

theorem mbedtls_configuration_closed_witness:
  "requirements_met (preprocess (mbedtls_config_h [] [] [] sample_check) makefile_macros)"
proof -
  have names: "\<forall>n \<in> set mbedtls_names. makefile_macros n = None" by code_simp
  have "\<forall>n \<in> set (names (map fst mbedtls_rows)). n \<noteq> ''MBEDTLS_CHECK_CONFIG_H''" by code_simp
  then have check: "only_checks sample_check" by (auto simp: only_checks_def sample_check_def include_once_def)
  have "makefile_macros ''_WIN32'' = None" by code_simp
  from mbedtls_configuration_closed [OF names this check] show ?thesis by blast
qed

end
