(* ===== verification/Spec2Isabelle.thy ===== *)
theory Spec2Isabelle
  imports Core_Contract Device Main_Reception Main_Dispatch Time_Helper Spiffs_Integration Port_Platform
    Mist_Config Xdk_Sensors Flash_Tests Port_Config Spiffs_Config Mbedtls_Config
begin

text \<open>
  Verification of the port of Wish and Mist to the Bosch XDK (the C sources under
  \<open>src/source\<close>).

  The program.  Power-up runs main (\<open>Main.c\<close>), which queues appInitSystem with the command
  processor.  The network set-up (\<open>mist-port-bosch-xdk.c\<close>) scans and connects the WLAN once,
  and the Mist task then enters port_main (\<open>mist_port/port_main.c\<close>), a select loop that
  drives the Wish core: it serves the relay connection (\<open>relay_client.c\<close>), the Wish
  connections, the server socket and the local discovery (\<open>port_net.c\<close>), lets the core
  process the events it has posted (\<open>event.c\<close>), runs periodic work and delivers messages
  between the core and the applications on the device (\<open>port_service_ipc.c\<close>).  Addresses go
  through their text form (\<open>inet_aton.c\<close>).  Files live in flash (\<open>spiffs_integration.c\<close>),
  and two applications answer Mist reads (\<open>apps/\<close>).

  What is outside.  The Wish core, the Mist library, BSON, utlist and SPIFFS are git
  submodules whose code is not in the repository, and the socket, WLAN, timer, flash and
  sensor functions belong to the board's SDK.  All of them are arguments: the records
  \<open>env\<close>, \<open>board\<close>, \<open>flash_api\<close>, \<open>spiffs_api\<close> and \<open>identity_api\<close>.  What the code relies on is
  stated as named hypotheses (\<open>signal_contract\<close>, \<open>register_send_stores\<close>, \<open>ll_laws\<close>,
  \<open>core_contract\<close>, \<open>library_contract\<close>, \<open>core_settles\<close>, \<open>core_sends_only\<close>, \<open>socket_history\<close>,
  \<open>core_reads_nothing\<close>, \<open>relays_local\<close>, \<open>only_checks\<close>, \<open>identity_laws\<close>, \<open>identity_keeps\<close>, \<open>erases_pages\<close>, \<open>nor_flash\<close>), and
  \<open>Sample_Env\<close> is an environment in which they hold.

  The theories, and what their lemmas show.
   \<^item> \<open>Prelude\<close>: machine types, runs of operations (locale \<open>kept_by_steps\<close>), words and lists.
   \<^item> \<open>C_Library\<close>: the parts of the C library the port calls: strtoul with base 0 and its
     saturation, isspace, decimal output.
   \<^item> \<open>Inet_Aton\<close> (\<open>inet_aton.c\<close>): the scan of the parts and their combination, byte order.
     Which texts are accepted with which address, numbers of any size included, that the array of
     parts is never overrun, and that a single all-ones number is rejected.
   \<^item> \<open>Fifo\<close>: the contract of a queue (locale \<open>fifo_queue\<close>); \<open>Event_Queue\<close> (\<open>event.c\<close>): the ring
     of 40 slots refines a log of all events ever posted, until its counter overflows; within its
     capacity it is a FIFO queue, beyond it the oldest events are overwritten.
   \<^item> \<open>Port_State\<close>: the globals of \<open>mist_port\<close>, the blocks from malloc, the call log; \<open>None\<close> is
     undefined behaviour.
   \<^item> \<open>Port_Net\<close> (\<open>port_net.c\<close>): opening, closing and writing connections; ownership of the
     blocks behind the connections over any sequence of operations; discovery.
   \<^item> \<open>Relay_Client\<close> (\<open>relay_client.c\<close>): opening the relay connection, and what retries leak.
   \<^item> \<open>Service_IPC\<close> (\<open>port_service_ipc.c\<close>): the message queue is a FIFO queue (an interpretation
     of \<open>fifo_queue\<close>, in which the answer of the task is what it hands to the core or to an
     application), ownership of its blocks, memory exhaustion.
   \<^item> \<open>Port_Main\<close> (\<open>port_main.c\<close>): the turn of the loop, step by step; what is waited for.
     \<open>Main_Dispatch\<close>: what a ready descriptor leads to, on every branch, the pass over the whole
     relay list, and the timers.
     \<open>Main_Safety\<close>: the invariant \<open>loop_inv F E\<close> of the whole port (\<open>port_inv F\<close>: the allocated
     blocks are those of the connections, those of the messages and the fixed set \<open>F\<close>;
     \<open>fds_ok E\<close>: every descriptor that is waited for fits a descriptor set), which holds when the
     loop is entered and is kept by every turn, so that nothing leaks; the event loop, a partial
     function, ends when the core's answers run out and does not otherwise.
     \<open>Turn_Relation\<close>: relations between the states before and after a turn (locales
     \<open>turn_preorder\<close>, up to the task at its end, and \<open>run_preorder\<close>, over any number of turns),
     proved for the code once.  \<open>Main_Liveness\<close> interprets the first: every step of a turn but the
     last leaves the waiting messages alone, so that each turn delivers one of them.
     \<open>Main_Reception\<close> interprets the second: every byte read from a socket is fed to the core.
     \<open>Core_Contract\<close>: what all these demand of the core is met by any core that acts on the port
     by calling the port's own functions, beside changing its own tables and state; the end of the
     event loop only for a core that posts no events while it processes one.
   \<^item> \<open>Time_Helper\<close>, \<open>Spiffs_Integration\<close>, \<open>Port_Platform\<close>: time differences, the flash file
     system, platform functions and identities.
   \<^item> \<open>Network_Setup\<close> (\<open>mist-port-bosch-xdk.c\<close>, \<open>Main.c\<close>): start-up as a state machine
     (\<open>dev_step\<close>), its invariant and the device that waits for ever.  \<open>Start_Up\<close>:
     its four phases on a board on which nothing fails.  \<open>Device\<close>: the start-up
     interleaved with the turns of the main loop, which is reached and is safe.
     \<open>Xdk_Config\<close> (\<open>mist-port-bosch-xdk.h\<close>,
     \<open>XDKAppInfo.h\<close>): their constants and module identifiers.
   \<^item> \<open>Flash_Tests\<close> (\<open>my_tests.c\<close>): what the flash tests print and which bytes they change.
   \<^item> \<open>Macros\<close>: conditional definitions as the C preprocessor processes them.  On it rest
     \<open>Port_Config\<close> (\<open>wish_port_config.h\<close> and the flags of the Makefile), \<open>Spiffs_Config\<close>
     (\<open>spiffs_config.h\<close>: defaults that the build can override, and the bounds that the mounted
     geometry respects) and \<open>Mbedtls_Config\<close> (\<open>mbedtls_config.h\<close>: which options are on, and
     that the requirements the header documents are met).
   \<^item> \<open>Mist_App\<close>, \<open>Mist_Config\<close>, \<open>Xdk_Sensors\<close> (\<open>apps/\<close>): the endpoints and their reads (locale
     \<open>answers_reads\<close>), friend requests.

  Correspondence.  Functions keep their names.  A connection or relay context is named by its
  index in the core's table; a send argument is a pointer into a heap of
  \<open>struct xdk_send_arg\<close>; a descriptor set is a set of integers from 0 up to FD_SETSIZE, and a
  turn that puts any other integer into one is undefined.  Calls to the outside are
  recorded in \<open>calls\<close>, in order.  There is no fuel: all loops are structural or over index
  lists, except the event loop, which is \<open>partial_function (option)\<close>.

  The safety theorems assume that malloc, socket and accept succeed: the code does not handle
  their failure, and \<open>Port_Net\<close>, \<open>Service_IPC\<close> and \<open>Main_Dispatch\<close> show what happens then.

  Integers.  Where a C int can overflow, the overflow is undefined: the fields and intermediate
  results of \<open>timeval_subtract\<close>, whose double is rounded as IEEE 754 demands, and the counter of the event queue
  (\<open>notify_c\<close>).  The main loop uses \<open>notify\<close>, which agrees with it below \<open>2 ^ 31\<close> waiting events
  (\<open>event_queue_refines_log\<close>).

  Not modelled: diagnostic output, the code under \<open>#if 0\<close>, a relay list that the core changes
  while the loop is walking it (\<open>Port_Main\<close>), overflow of the event
  counter inside the main loop, the limits of BSON buffers, the sizes given to malloc, the parameters of
  function-like macros, and the lists of cipher suites in the comments of \<open>mbedtls_config.h\<close>.
  The outcome of bind, listen, sendto and the socket
  options, which the code only prints, is not represented.
\<close>

end
